(* ===== verification/Prelude.thy ===== *)
theory Prelude
  imports Main "HOL-Library.Code_Target_Nat"
begin

text \<open>
  Shared vocabulary of the development: JavaScript strings as lists of UTF-16 code units, the
  string operations that \<open>app.js\<close> calls (\<open>trim\<close>, \<open>includes\<close>,
  \<open>startsWith\<close>, \<open>slice\<close>, \<open>join\<close>, \<open>padStart\<close>, \<open>toUpperCase\<close>, number to string),
  the falsy tests on nullable values (\<open>x || d\<close>), and the collections of facts the component
  theories share.
\<close>

named_theorems texts \<open>the string literals of the source, unfolded for evaluation\<close>
named_theorems handlers \<open>the handler definitions, unfolded for evaluation\<close>

section \<open>Strings\<close>

text \<open>
  A JavaScript string is a sequence of UTF-16 code units; a code unit is a natural number. ASCII
  literals are written \<open>js ''abc''\<close>, others as the list of their code units.
\<close>

type_synonym jstr = "nat list"

definition js :: "string \<Rightarrow> jstr" where
  "js s = map of_char s"

lemma js_eval [texts]: "js [] = []" "js (c # cs) = of_char c # js cs"
  by (simp_all add: js_def)

lemma js_inj: "js s = js t \<longleftrightarrow> s = t"
  unfolding js_def by (metis inj_map_eq_map inj_on_def of_char_eq_iff)

definition js_space :: "nat \<Rightarrow> bool" where
  "js_space c \<longleftrightarrow> c \<in> {9, 10, 11, 12, 13, 32, 0xA0, 0x1680, 0x2028, 0x2029, 0x202F, 0x205F, 0x3000, 0xFEFF}
     \<or> 0x2000 \<le> c \<and> c \<le> 0x200A"

definition trim :: "jstr \<Rightarrow> jstr" where
  "trim s = rev (dropWhile js_space (rev (dropWhile js_space s)))"

lemma trim_Nil [simp]: "trim [] = []"
  by (simp add: trim_def)

lemma dropWhile_rev_fix:
  "\<not> P (last s) \<Longrightarrow> s \<noteq> [] \<Longrightarrow> dropWhile P (rev s) = rev s"
  by (cases s rule: rev_cases) auto

lemma trim_fix: "s \<noteq> [] \<Longrightarrow> \<not> js_space (hd s) \<Longrightarrow> \<not> js_space (last s) \<Longrightarrow> trim s = s"
proof -
  assume "s \<noteq> []" "\<not> js_space (hd s)" "\<not> js_space (last s)"
  then have "dropWhile js_space s = s" and "dropWhile js_space (rev s) = rev s"
    by (simp_all add: dropWhile_eq_self_iff hd_rev)
  then show "trim s = s" by (simp add: trim_def)
qed

lemma last_dropWhile: "dropWhile P s \<noteq> [] \<Longrightarrow> last (dropWhile P s) = last s"
  by (induction s) auto

lemma trim_ends:
  assumes "trim s \<noteq> []"
  shows "\<not> js_space (hd (trim s))" and "\<not> js_space (last (trim s))"
proof -
  define u where "u = dropWhile js_space s"
  have t: "trim s = rev (dropWhile js_space (rev u))"
    by (simp add: trim_def u_def)
  have ne: "dropWhile js_space (rev u) \<noteq> []"
    using assms t by simp
  then have "u \<noteq> []" by auto
  then have hu: "\<not> js_space (hd u)"
    unfolding u_def using hd_dropWhile by blast
  have "hd (trim s) = last (dropWhile js_space (rev u))"
    using t ne by (simp add: hd_rev)
  also have "\<dots> = hd u"
    using last_dropWhile [OF ne] \<open>u \<noteq> []\<close> by (simp add: last_rev)
  finally show "\<not> js_space (hd (trim s))" using hu by simp
  have "last (trim s) = hd (dropWhile js_space (rev u))"
    using t ne by (simp add: last_rev)
  then show "\<not> js_space (last (trim s))"
    using hd_dropWhile [OF ne] by simp
qed

lemma trim_idem [simp]: "trim (trim s) = trim s"
  by (cases "trim s = []") (auto intro: trim_fix dest: trim_ends)

fun starts_with :: "jstr \<Rightarrow> jstr \<Rightarrow> bool" where
  "starts_with s [] = True"
| "starts_with [] (p # ps) = False"
| "starts_with (c # cs) (p # ps) = (c = p \<and> starts_with cs ps)"

lemma starts_with_iff: "starts_with s p \<longleftrightarrow> (\<exists>t. s = p @ t)"
  by (induction s p rule: starts_with.induct) auto

fun str_includes :: "jstr \<Rightarrow> jstr \<Rightarrow> bool" where
  "str_includes [] p = (p = [])"
| "str_includes (c # cs) p = (starts_with (c # cs) p \<or> str_includes cs p)"

lemma str_includes_iff: "str_includes s p \<longleftrightarrow> (\<exists>a b. s = a @ p @ b)"
proof (induction s p rule: str_includes.induct)
  case (1 p)
  then show ?case by auto
next
  case (2 c cs p)
  have "(\<exists>a b. c # cs = a @ p @ b) \<longleftrightarrow> (\<exists>b. c # cs = p @ b) \<or> (\<exists>a b. cs = a @ p @ b)"
    by (metis append_Cons append_Nil list.exhaust list.inject)
  with 2 show ?case by (simp add: starts_with_iff)
qed

lemma str_includes_append: "str_includes s p \<Longrightarrow> str_includes (a @ s @ b) p"
  unfolding str_includes_iff by (metis append.assoc)

fun join :: "jstr \<Rightarrow> jstr list \<Rightarrow> jstr" where
  "join sep [] = []"
| "join sep [x] = x"
| "join sep (x # y # ys) = x @ sep @ join sep (y # ys)"

definition ascii_upper :: "nat \<Rightarrow> nat" where
  "ascii_upper c = (if 97 \<le> c \<and> c \<le> 122 then c - 32 else c)"

definition ascii_lower :: "nat \<Rightarrow> nat" where
  "ascii_lower c = (if 65 \<le> c \<and> c \<le> 90 then c + 32 else c)"

definition to_upper :: "jstr \<Rightarrow> jstr" where
  "to_upper s = map ascii_upper s"

definition to_lower :: "jstr \<Rightarrow> jstr" where
  "to_lower s = map ascii_lower s"

lemma ascii_upper_idem [simp]: "ascii_upper (ascii_upper c) = ascii_upper c"
  by (auto simp: ascii_upper_def)

lemma to_upper_idem [simp]: "to_upper (to_upper s) = to_upper s"
  by (simp add: to_upper_def)

lemma to_upper_Nil_iff [simp]: "to_upper s = [] \<longleftrightarrow> s = []"
  by (simp add: to_upper_def)

text \<open>Decimal text of an integer, as \<open>String(n)\<close> and template literals print it.\<close>

fun dec :: "nat \<Rightarrow> jstr" where
  "dec n = (if n < 10 then [48 + n] else dec (n div 10) @ [48 + n mod 10])"

declare dec.simps [simp del]

lemma dec_small [simp]: "n < 10 \<Longrightarrow> dec n = [48 + n]"
  by (subst dec.simps) simp

lemma dec_ne [simp]: "dec n \<noteq> []"
  by (subst dec.simps) simp

definition dec_int :: "int \<Rightarrow> jstr" where
  "dec_int i = (if i < 0 then 45 # dec (nat (- i)) else dec (nat i))"

lemma dec_digits: "\<forall>c \<in> set (dec n). 48 \<le> c \<and> c \<le> 57"
proof (induction n rule: dec.induct)
  case (1 n)
  show ?case
  proof (cases "n < 10")
    case True
    then show ?thesis by simp
  next
    case False
    with 1 have "\<forall>c \<in> set (dec (n div 10)). 48 \<le> c \<and> c \<le> 57" by simp
    with False show ?thesis by (subst dec.simps) (auto intro: order.trans [of _ "48 + 9"])
  qed
qed

text \<open>The value of a decimal numeral; \<open>undec (dec n) = n\<close>, so printed numbers determine the number.\<close>

definition undec :: "jstr \<Rightarrow> nat" where
  "undec s = fold (\<lambda>c a. 10 * a + (c - 48)) s 0"

lemma undec_snoc: "undec (s @ [c]) = 10 * undec s + (c - 48)"
  by (simp add: undec_def)

lemma undec_dec [simp]: "undec (dec n) = n"
proof (induction n rule: dec.induct)
  case (1 n)
  show ?case
  proof (cases "n < 10")
    case True
    then show ?thesis by (simp add: undec_def)
  next
    case False
    with 1 have "undec (dec (n div 10)) = n div 10" by simp
    with False show ?thesis by (subst dec.simps) (simp add: undec_snoc)
  qed
qed

lemma dec_inj [simp]: "dec m = dec n \<longleftrightarrow> m = n"
  by (metis undec_dec)

definition pad2 :: "nat \<Rightarrow> jstr" where
  "pad2 n = (let s = dec n in replicate (2 - length s) 48 @ s)"

section \<open>Nullable values\<close>

text \<open>
  Fields of the server's JSON that may be absent or null are \<open>option\<close> values. \<open>x || d\<close> on
  a nullable string takes \<open>d\<close> when \<open>x\<close> is absent or empty; \<open>x ?? d\<close> only when it is absent.
\<close>

fun str_or :: "jstr option \<Rightarrow> jstr \<Rightarrow> jstr" where
  "str_or None d = d"
| "str_or (Some s) d = (if s = [] then d else s)"

fun opt_or :: "jstr option \<Rightarrow> jstr option \<Rightarrow> jstr option" where
  "opt_or None d = d"
| "opt_or (Some s) d = (if s = [] then d else Some s)"

definition truthy :: "jstr option \<Rightarrow> bool" where
  "truthy x \<longleftrightarrow> x \<noteq> None \<and> x \<noteq> Some []"

lemma truthy_simps [simp]: "truthy None = False" "truthy (Some s) = (s \<noteq> [])"
  by (simp_all add: truthy_def)

lemma str_or_truthy: "str_or x d = (if truthy x then the x else d)"
  by (cases x) auto

lemma opt_or_truthy: "opt_or x d = (if truthy x then x else d)"
  by (cases x) auto

fun list_of :: "'a list option \<Rightarrow> 'a list" where
  "list_of None = []"
| "list_of (Some xs) = xs"

section \<open>Errors\<close>

text \<open>An exception of the language. Code that may raise returns \<open>js_error + 'a\<close>.\<close>

datatype js_error = TypeError | URIError

section \<open>Lists\<close>

text \<open>\<open>Array.prototype.find\<close>: the first element that satisfies the predicate.\<close>

fun find_js :: "('a \<Rightarrow> bool) \<Rightarrow> 'a list \<Rightarrow> 'a option" where
  "find_js P [] = None"
| "find_js P (x # xs) = (if P x then Some x else find_js P xs)"

lemma find_js_Some: "find_js P xs = Some x \<Longrightarrow> x \<in> set xs \<and> P x"
  by (induction xs) (auto split: if_splits)

lemma find_js_None [simp]: "find_js P xs = None \<longleftrightarrow> (\<forall>x \<in> set xs. \<not> P x)"
  by (induction xs) auto

lemma find_js_ex: "x \<in> set xs \<Longrightarrow> P x \<Longrightarrow> \<exists>y. find_js P xs = Some y"
  by (induction xs) auto

lemma count_sum: "distinct cs \<Longrightarrow> (\<Sum>c\<leftarrow>cs. if y = c then 1 else 0) = (if y \<in> set cs then 1 else (0::nat))"
  by (induction cs) auto

lemma sum_count_filter:
  assumes "distinct cs" "\<forall>x \<in> set xs. f x \<in> set cs"
  shows "(\<Sum>c\<leftarrow>cs. length (filter (\<lambda>x. f x = c) xs)) = length xs"
  using assms
proof (induction xs)
  case Nil
  then show ?case by (induction cs) auto
next
  case (Cons x xs)
  have one: "(\<Sum>c\<leftarrow>cs. if f x = c then 1 else 0) = (1::nat)"
    using count_sum [OF Cons.prems(1), of "f x"] Cons.prems(2) by simp
  have "(\<Sum>c\<leftarrow>cs. length (filter (\<lambda>y. f y = c) (x # xs)))
      = (\<Sum>c\<leftarrow>cs. (if f x = c then 1 else 0) + length (filter (\<lambda>y. f y = c) xs))"
    by (rule arg_cong [where f = sum_list], rule map_cong) auto
  also have "\<dots> = 1 + length xs"
    using one Cons by (simp add: sum_list_addf)
  finally show ?case by simp
qed

end
