(* ===== verification/JsRegex.thy ===== *)
theory JsRegex
  imports Prelude
begin

text \<open>
  The fragment of ECMAScript regular expressions that \<open>app.js\<close> writes: character classes,
  alternation, greedy and lazy quantifiers, capture groups and the anchors. The matcher follows the
  specification's backtracking order: it lists the ways to match, the preferred one first, each
  with its captures and the rest of the input. On top of it stand \<open>RegExp.test\<close>, \<open>exec\<close> and
  \<open>String.replace\<close>. The matcher is proved equivalent to a declarative match relation.
\<close>

section \<open>Syntax\<close>

datatype re =
    Cls "(nat \<times> nat) list"
  | NCls "(nat \<times> nat) list"
  | Eps
  | Bol
  | Eol
  | Cat re re
  | Alt re re
  | Star re
  | LazyStar re
  | Grp nat re

definition in_ranges :: "(nat \<times> nat) list \<Rightarrow> nat \<Rightarrow> bool" where
  "in_ranges R c \<longleftrightarrow> list_ex (\<lambda>(a, b). a \<le> c \<and> c \<le> b) R"

abbreviation one :: "nat \<Rightarrow> re" where
  "one c \<equiv> Cls [(c, c)]"

abbreviation Plus :: "re \<Rightarrow> re" where
  "Plus r \<equiv> Cat r (Star r)"

abbreviation Opt :: "re \<Rightarrow> re" where
  "Opt r \<equiv> Alt r Eps"

abbreviation digit_re :: re where
  "digit_re \<equiv> Cls [(48, 57)]"

text \<open>The class \<open>\s\<close> is the white space that \<open>trim\<close> removes; \<open>.\<close> is all but line terminators.\<close>

definition space_re :: re where
  "space_re = Cls [(9, 13), (32, 32), (0xA0, 0xA0), (0x1680, 0x1680), (0x2000, 0x200A),
     (0x2028, 0x2029), (0x202F, 0x202F), (0x205F, 0x205F), (0x3000, 0x3000), (0xFEFF, 0xFEFF)]"

definition any_re :: re where
  "any_re = NCls [(10, 10), (13, 13), (0x2028, 0x2029)]"

fun lit :: "jstr \<Rightarrow> re" where
  "lit [] = Eps"
| "lit (c # cs) = Cat (one c) (lit cs)"

fun alts :: "jstr list \<Rightarrow> re" where
  "alts [] = Cls []"
| "alts (p # ps) = Alt (lit p) (alts ps)"

section \<open>The backtracking matcher\<close>

type_synonym caps = "(nat \<times> jstr) list"

text \<open>
  \<open>rm n r s\<close>: \<open>n\<close> is the length of the whole input, \<open>s\<close> what is left of it at the current
  position. An iteration of a quantifier that consumes nothing is refused, as the specification's
  empty check does.
\<close>

function rm :: "nat \<Rightarrow> re \<Rightarrow> jstr \<Rightarrow> (caps \<times> jstr) list" where
  "rm n (Cls R) s = (case s of [] \<Rightarrow> [] | c # t \<Rightarrow> if in_ranges R c then [([], t)] else [])"
| "rm n (NCls R) s = (case s of [] \<Rightarrow> [] | c # t \<Rightarrow> if in_ranges R c then [] else [([], t)])"
| "rm n Eps s = [([], s)]"
| "rm n Bol s = (if length s = n then [([], s)] else [])"
| "rm n Eol s = (if s = [] then [([], s)] else [])"
| "rm n (Cat a b) s =
     concat (map (\<lambda>x. map (\<lambda>y. (fst x @ fst y, snd y)) (rm n b (snd x))) (rm n a s))"
| "rm n (Alt a b) s = rm n a s @ rm n b s"
| "rm n (Star a) s =
     concat (map (\<lambda>x. map (\<lambda>y. (fst x @ fst y, snd y)) (rm n (Star a) (snd x)))
       (filter (\<lambda>x. length (snd x) < length s) (rm n a s))) @ [([], s)]"
| "rm n (LazyStar a) s =
     ([], s) # concat (map (\<lambda>x. map (\<lambda>y. (fst x @ fst y, snd y)) (rm n (LazyStar a) (snd x)))
       (filter (\<lambda>x. length (snd x) < length s) (rm n a s)))"
| "rm n (Grp k a) s =
     map (\<lambda>x. (fst x @ [(k, take (length s - length (snd x)) s)], snd x)) (rm n a s)"
  by pat_completeness auto
termination
  by (relation "measures [\<lambda>(n, r, s). size r, \<lambda>(n, r, s). length s]") auto

declare rm.simps(8,9) [simp del] lit.simps [simp del] alts.simps [simp del]

text \<open>The text of a capture group; a group that took no part in the match is undefined.\<close>

definition capture :: "caps \<Rightarrow> nat \<Rightarrow> jstr option" where
  "capture c k = map_of (rev c) k"

text \<open>
  The search of \<open>exec\<close>: the first position with a match, and there the preferred match. It
  returns the text before the match, the captures, the matched text and the text after it.
\<close>

fun re_search :: "nat \<Rightarrow> re \<Rightarrow> jstr \<Rightarrow> (jstr \<times> caps \<times> jstr \<times> jstr) option" where
  "re_search n r [] =
     (case rm n r [] of x # _ \<Rightarrow> Some ([], fst x, [], []) | [] \<Rightarrow> None)"
| "re_search n r (c # s) =
     (case rm n r (c # s) of
        x # _ \<Rightarrow> Some ([], fst x, take (length (c # s) - length (snd x)) (c # s), snd x)
      | [] \<Rightarrow> map_option (\<lambda>(b, m). (c # b, m)) (re_search n r s))"

definition re_exec :: "re \<Rightarrow> jstr \<Rightarrow> (jstr \<times> caps \<times> jstr \<times> jstr) option" where
  "re_exec r s = re_search (length s) r s"

definition re_test :: "re \<Rightarrow> jstr \<Rightarrow> bool" where
  "re_test r s \<longleftrightarrow> re_exec r s \<noteq> None"

text \<open>\<open>s.replace(r, f)\<close> without the \<open>g\<close> flag.\<close>

definition re_replace :: "re \<Rightarrow> (caps \<Rightarrow> jstr \<Rightarrow> jstr) \<Rightarrow> jstr \<Rightarrow> jstr" where
  "re_replace r f s = (case re_exec r s of None \<Rightarrow> s | Some (b, c, m, t) \<Rightarrow> b @ f c m @ t)"

section \<open>The declarative relation\<close>

inductive matches :: "nat \<Rightarrow> re \<Rightarrow> jstr \<Rightarrow> jstr \<Rightarrow> bool" for n :: nat where
  m_cls: "in_ranges R c \<Longrightarrow> matches n (Cls R) (c # t) t"
| m_ncls: "\<not> in_ranges R c \<Longrightarrow> matches n (NCls R) (c # t) t"
| m_eps: "matches n Eps s s"
| m_bol: "length s = n \<Longrightarrow> matches n Bol s s"
| m_eol: "matches n Eol [] []"
| m_cat: "matches n a s t \<Longrightarrow> matches n b t u \<Longrightarrow> matches n (Cat a b) s u"
| m_alt1: "matches n a s t \<Longrightarrow> matches n (Alt a b) s t"
| m_alt2: "matches n b s t \<Longrightarrow> matches n (Alt a b) s t"
| m_star0: "matches n (Star a) s s"
| m_star: "matches n a s t \<Longrightarrow> length t < length s \<Longrightarrow> matches n (Star a) t u \<Longrightarrow> matches n (Star a) s u"
| m_lazy0: "matches n (LazyStar a) s s"
| m_lazy: "matches n a s t \<Longrightarrow> length t < length s \<Longrightarrow> matches n (LazyStar a) t u \<Longrightarrow>
    matches n (LazyStar a) s u"
| m_grp: "matches n a s t \<Longrightarrow> matches n (Grp k a) s t"

inductive_simps matches_simps [simp]:
  "matches n (Cls R) s t" "matches n (NCls R) s t" "matches n Eps s t" "matches n Bol s t"
  "matches n Eol s t" "matches n (Cat a b) s t" "matches n (Alt a b) s t" "matches n (Grp k a) s t"

text \<open>One unfolding of a quantifier, as a fact about the set of its results.\<close>

lemma in_concat_map_filter:
  "x \<in> set (concat (map f (filter P ys))) \<longleftrightarrow> (\<exists>y \<in> set ys. P y \<and> x \<in> set (f y))"
  by auto

lemma in_map_list: "x \<in> set (map f ys) \<longleftrightarrow> (\<exists>y \<in> set ys. x = f y)"
  by auto

lemma rm_star_set:
  "x \<in> set (rm n (Star a) s) \<longleftrightarrow> x = ([], s) \<or>
     (\<exists>y z. y \<in> set (rm n a s) \<and> length (snd y) < length s \<and> z \<in> set (rm n (Star a) (snd y))
        \<and> x = (fst y @ fst z, snd z))"
  by (subst rm.simps(8)) (simp only: set_append Un_iff in_concat_map_filter in_map_list list.set
      insert_iff empty_iff, blast)

lemma rm_lazy_set:
  "x \<in> set (rm n (LazyStar a) s) \<longleftrightarrow> x = ([], s) \<or>
     (\<exists>y z. y \<in> set (rm n a s) \<and> length (snd y) < length s \<and> z \<in> set (rm n (LazyStar a) (snd y))
        \<and> x = (fst y @ fst z, snd z))"
  by (subst rm.simps(9)) (simp only: in_concat_map_filter in_map_list list.set insert_iff, blast)

lemma rm_matches: "x \<in> set (rm n r s) \<Longrightarrow> matches n r s (snd x)"
proof (induction n r s arbitrary: x rule: rm.induct)
  case (6 n a b s)
  then show ?case by fastforce
next
  case (8 n a s)
  show ?case
  proof (cases "x = ([], s)")
    case True
    then show ?thesis by (simp add: m_star0)
  next
    case False
    then obtain y z where y: "y \<in> set (rm n a s)" "length (snd y) < length s"
      and z: "z \<in> set (rm n (Star a) (snd y))" and "x = (fst y @ fst z, snd z)"
      using "8.prems" unfolding rm_star_set [of x] by blast
    moreover have "matches n a s (snd y)" using "8.IH"(1) y(1) by blast
    moreover have "matches n (Star a) (snd y) (snd z)" using "8.IH"(2) y z by auto
    ultimately show ?thesis by (simp add: m_star)
  qed
next
  case (9 n a s)
  show ?case
  proof (cases "x = ([], s)")
    case True
    then show ?thesis by (simp add: m_lazy0)
  next
    case False
    then obtain y z where y: "y \<in> set (rm n a s)" "length (snd y) < length s"
      and z: "z \<in> set (rm n (LazyStar a) (snd y))" and "x = (fst y @ fst z, snd z)"
      using "9.prems" unfolding rm_lazy_set [of x] by blast
    moreover have "matches n a s (snd y)" using "9.IH"(1) y(1) by blast
    moreover have "matches n (LazyStar a) (snd y) (snd z)" using "9.IH"(2) y z by auto
    ultimately show ?thesis by (simp add: m_lazy)
  qed
qed (auto split: list.splits if_splits)

lemma matches_rm: "matches n r s t \<Longrightarrow> \<exists>x \<in> set (rm n r s). snd x = t"
proof (induction rule: matches.induct)
  case (m_star a s t u)
  then obtain y z where "y \<in> set (rm n a s)" "snd y = t" "z \<in> set (rm n (Star a) t)" "snd z = u"
    by blast
  then have "(fst y @ fst z, snd z) \<in> set (rm n (Star a) s)"
    unfolding rm_star_set [of _ n a s] using m_star.hyps(2) by blast
  with \<open>snd z = u\<close> show ?case by (metis snd_conv)
next
  case (m_lazy a s t u)
  then obtain y z where "y \<in> set (rm n a s)" "snd y = t" "z \<in> set (rm n (LazyStar a) t)" "snd z = u"
    by blast
  then have "(fst y @ fst z, snd z) \<in> set (rm n (LazyStar a) s)"
    unfolding rm_lazy_set [of _ n a s] using m_lazy.hyps(2) by blast
  with \<open>snd z = u\<close> show ?case by (metis snd_conv)
next
  case (m_star0 a s)
  have "([], s) \<in> set (rm n (Star a) s)" unfolding rm_star_set [of _ n a s] by blast
  then show ?case by force
next
  case (m_lazy0 a s)
  have "([], s) \<in> set (rm n (LazyStar a) s)" unfolding rm_lazy_set [of _ n a s] by blast
  then show ?case by force
next
  case (m_cat a s t b u)
  then obtain y z where "y \<in> set (rm n a s)" "snd y = t" "z \<in> set (rm n b t)" "snd z = u"
    by blast
  then have "(fst y @ fst z, snd z) \<in> set (rm n (Cat a b) s)" by auto
  with \<open>snd z = u\<close> show ?case by (metis snd_conv)
qed auto

lemma rm_iff_matches: "t \<in> snd ` set (rm n r s) \<longleftrightarrow> matches n r s t"
  using rm_matches matches_rm by force

lemma rm_empty_iff: "rm n r s = [] \<longleftrightarrow> (\<forall>t. \<not> matches n r s t)"
  by (metis rm_iff_matches rm_matches image_is_empty list.set_intros(1) neq_Nil_conv set_empty
      all_not_in_conv)

lemma matches_suffix: "matches n r s t \<Longrightarrow> \<exists>u. s = u @ t"
  by (induction rule: matches.induct) (fastforce intro: append_assoc [symmetric])+

section \<open>Searching\<close>

lemma re_search_None: "re_search n r s = None \<longleftrightarrow> (\<forall>b u. s = b @ u \<longrightarrow> rm n r u = [])"
proof (induction s)
  case Nil
  then show ?case by (auto split: list.splits)
next
  case (Cons c s)
  have "(\<forall>b u. c # s = b @ u \<longrightarrow> rm n r u = [])
      \<longleftrightarrow> rm n r (c # s) = [] \<and> (\<forall>b u. s = b @ u \<longrightarrow> rm n r u = [])"
    by (metis append_Cons append_Nil list.inject neq_Nil_conv)
  with Cons show ?case by (auto split: list.splits)
qed

lemma re_test_iff:
  "re_test r s \<longleftrightarrow> (\<exists>b u t. s = b @ u \<and> matches (length s) r u t)"
proof -
  have "re_test r s \<longleftrightarrow> \<not> (\<forall>b u. s = b @ u \<longrightarrow> (\<forall>t. \<not> matches (length s) r u t))"
    unfolding re_test_def re_exec_def re_search_None rm_empty_iff ..
  then show ?thesis by blast
qed

lemma re_search_Some:
  "re_search n r s = Some (b, c, m, t) \<Longrightarrow> s = b @ m @ t \<and> matches n r (m @ t) t"
proof (induction s arbitrary: b)
  case Nil
  then obtain y ys where y: "rm n r [] = y # ys" and e: "b = []" "m = []" "t = []"
    by (auto split: list.splits)
  have "matches n r [] (snd y)" using rm_matches [of y n r "[]"] y by simp
  moreover from this have "snd y = []" using matches_suffix by blast
  ultimately show ?case using e by simp
next
  case (Cons x s)
  show ?case
  proof (cases "rm n r (x # s)")
    case Nil
    with Cons show ?thesis by (auto split: list.splits)
  next
    case (Cons y ys)
    then have "matches n r (x # s) (snd y)" using rm_matches [of y n r "x # s"] by simp
    moreover from this obtain u where u: "x # s = u @ snd y" using matches_suffix by blast
    moreover have "take (length (x # s) - length (snd y)) (x # s) = u" by (simp add: u)
    moreover have "(b, c, m, t)
        = ([], fst y, take (length (x # s) - length (snd y)) (x # s), snd y)"
      using Cons.prems Cons by auto
    ultimately show ?thesis by simp
  qed
qed

lemma re_exec_Some:
  "re_exec r s = Some (b, c, m, t) \<Longrightarrow> s = b @ m @ t \<and> matches (length s) r (m @ t) t"
  unfolding re_exec_def by (rule re_search_Some)

text \<open>The match found is the leftmost one.\<close>

lemma re_search_leftmost:
  "re_search n r s = Some (b, c, m, t) \<Longrightarrow> s = b1 @ u \<Longrightarrow> length b1 < length b \<Longrightarrow> rm n r u = []"
proof (induction s arbitrary: b b1)
  case Nil
  then show ?case by (auto split: list.splits)
next
  case (Cons x s)
  from Cons.prems(1,3) obtain b' where
    b': "b = x # b'" "re_search n r s = Some (b', c, m, t)" "rm n r (x # s) = []"
    by (auto split: list.splits)
  show ?case
  proof (cases b1)
    case Nil
    with Cons.prems b' show ?thesis by simp
  next
    case (Cons y ys)
    with \<open>x # s = b1 @ u\<close> \<open>length b1 < length b\<close> b' Cons.IH [of b' ys] show ?thesis by simp
  qed
qed

lemma re_exec_leftmost:
  "re_exec r s = Some (b, c, m, t) \<Longrightarrow> s = b1 @ u \<Longrightarrow> length b1 < length b \<Longrightarrow>
   \<not> matches (length s) r u v"
  unfolding re_exec_def using re_search_leftmost rm_empty_iff by metis

lemma re_replace_id: "\<not> re_test r s \<Longrightarrow> re_replace r f s = s"
  by (auto simp: re_replace_def re_test_def split: option.splits)

section \<open>Key words\<close>

lemma matches_lit: "matches n (lit p) s t \<longleftrightarrow> s = p @ t"
  by (induction p arbitrary: s) (auto simp: in_ranges_def lit.simps)

lemma matches_alts: "matches n (alts ps) s t \<longleftrightarrow> (\<exists>p \<in> set ps. s = p @ t)"
  by (induction ps) (auto simp: matches_lit in_ranges_def alts.simps)

text \<open>A pattern that is an alternation of key words tests for a substring.\<close>

lemma re_test_alts [simp]: "re_test (alts ps) s = list_ex (str_includes s) ps"
  by (auto simp: re_test_iff matches_alts str_includes_iff list_ex_iff)

lemma re_test_lit [simp]: "re_test (lit p) s = str_includes s p"
  by (auto simp: re_test_iff matches_lit str_includes_iff)

text \<open>With \<open>^\<close> in front it tests for a prefix.\<close>

lemma re_test_bol:
  "re_test (Cat Bol r) s \<longleftrightarrow> (\<exists>t. matches (length s) r s t)"
  by (auto simp: re_test_iff)

lemma re_test_bol_alts [simp]: "re_test (Cat Bol (alts ps)) s = list_ex (starts_with s) ps"
  by (auto simp: re_test_bol matches_alts starts_with_iff list_ex_iff)

lemma re_test_bol_lit [simp]: "re_test (Cat Bol (lit p)) s = starts_with s p"
  by (auto simp: re_test_bol matches_lit starts_with_iff)

section \<open>Stars over one class\<close>

lemma matches_star_cls: "matches n (Star (Cls R)) s t \<Longrightarrow> \<exists>u. s = u @ t \<and> (\<forall>c \<in> set u. in_ranges R c)"
proof (induction "Star (Cls R)" s t rule: matches.induct)
  case (m_star s t u)
  then show ?case by (fastforce intro: exI [of _ "x # v" for x v])
qed auto

lemma star_cls_matches: "\<forall>c \<in> set u. in_ranges R c \<Longrightarrow> matches n (Star (Cls R)) (u @ t) t"
  by (induction u) (auto intro: m_star0 m_star m_cls)

lemma matches_star_cls_iff [simp]:
  "matches n (Star (Cls R)) s t \<longleftrightarrow> (\<exists>u. s = u @ t \<and> (\<forall>c \<in> set u. in_ranges R c))"
  using matches_star_cls star_cls_matches by metis

lemma in_ranges_one [simp]: "in_ranges [(c, c)] d \<longleftrightarrow> d = c"
  by (auto simp: in_ranges_def)

text \<open>The greedy star over one class takes the longest run.\<close>

lemma rm_star_cls_hd: "\<exists>c xs. rm n (Star (Cls R)) s = (c, dropWhile (in_ranges R) s) # xs"
proof (induction s)
  case Nil
  show ?case by (auto simp: rm.simps(8) [of n _ "[]"])
next
  case (Cons x s)
  then obtain c xs where "rm n (Star (Cls R)) s = (c, dropWhile (in_ranges R) s) # xs" by blast
  then show ?case by (simp add: rm.simps(8) [of n _ "x # s"])
qed

end
