(* ===== verification/JsValue.thy ===== *)
theory JsValue
  imports Prelude
begin

text \<open>
  Objects used as tables (\<open>META[key]\<close>, \<open>byId[id]\<close>) and JSON values. A table is the list of
  its own properties in insertion order; a read of a key that is not its own finds the members of
  \<open>Object.prototype\<close> (\<open>table["constructor"]\<close> is a function), which the code's
  \<open>META[key] || fallback\<close> reads do not exclude. JSON numbers are kept as the text that
  \<open>String(n)\<close> prints.
\<close>

section \<open>Objects as tables\<close>

type_synonym 'v obj = "(jstr \<times> 'v) list"

definition proto_names :: "jstr list" where
  "proto_names = map js [''constructor'', ''toString'', ''toLocaleString'', ''valueOf'',
     ''hasOwnProperty'', ''isPrototypeOf'', ''propertyIsEnumerable'', ''__proto__'',
     ''__defineGetter__'', ''__defineSetter__'', ''__lookupGetter__'', ''__lookupSetter__'']"

text \<open>The outcome of a read: an own value, a member of \<open>Object.prototype\<close>, or \<open>undefined\<close>.\<close>

datatype 'v lookup = Own 'v | Inherited | Missing

definition obj_get :: "'v obj \<Rightarrow> jstr \<Rightarrow> 'v lookup" where
  "obj_get ob k = (case map_of ob k of
     Some v \<Rightarrow> Own v
   | None \<Rightarrow> if k \<in> set proto_names then Inherited else Missing)"

definition obj_has :: "'v obj \<Rightarrow> jstr \<Rightarrow> bool" where
  "obj_has ob k \<longleftrightarrow> obj_get ob k \<noteq> Missing"

fun obj_put :: "'v obj \<Rightarrow> jstr \<Rightarrow> 'v \<Rightarrow> 'v obj" where
  "obj_put [] k v = [(k, v)]"
| "obj_put ((k', v') # ob) k v = (if k' = k then (k, v) # ob else (k', v') # obj_put ob k v)"

text \<open>\<open>{...a, ...b}\<close>: the properties of \<open>b\<close> override those of \<open>a\<close>.\<close>

definition obj_spread :: "'v obj \<Rightarrow> 'v obj \<Rightarrow> 'v obj" where
  "obj_spread a b = fold (\<lambda>(k, v) ob. obj_put ob k v) b a"

lemma map_of_obj_put [simp]: "map_of (obj_put ob k v) = (map_of ob)(k \<mapsto> v)"
  by (induction ob) auto

lemma obj_get_put [simp]:
  "obj_get (obj_put ob k v) k' = (if k' = k then Own v else obj_get ob k')"
  by (simp add: obj_get_def)

lemma obj_get_Own_iff [simp]: "obj_get ob k = Own v \<longleftrightarrow> map_of ob k = Some v"
  by (auto simp: obj_get_def split: option.splits)

lemma map_fst_obj_put:
  "map fst (obj_put ob k v) = (if k \<in> set (map fst ob) then map fst ob else map fst ob @ [k])"
  by (induction ob) (auto simp: rev_image_eqI)

lemma distinct_obj_put: "distinct (map fst ob) \<Longrightarrow> distinct (map fst (obj_put ob k v))"
  by (simp add: map_fst_obj_put del: set_map)

lemma map_of_obj_spread:
  "distinct (map fst b) \<Longrightarrow> map_of (obj_spread a b) = map_of a ++ map_of b"
proof (induction b arbitrary: a)
  case Nil
  then show ?case by (simp add: obj_spread_def)
next
  case (Cons p b)
  obtain k v where p: "p = (k, v)" by (cases p)
  from Cons have "map_of (obj_spread (obj_put a k v) b) = map_of (obj_put a k v) ++ map_of b"
    by simp
  moreover have "k \<notin> dom (map_of b)" using Cons.prems p by (simp add: dom_map_of_conv_image_fst)
  ultimately show ?case
    by (auto simp: obj_spread_def p map_add_def fun_eq_iff split: option.splits)
qed

text \<open>
  Keys of an object in property order: array indices ascending, then the other keys in insertion
  order. An array index is a canonical decimal numeral below \<open>2 ^ 32 - 1\<close>.
\<close>

definition array_index :: "jstr \<Rightarrow> bool" where
  "array_index k \<longleftrightarrow> k \<noteq> [] \<and> list_all (\<lambda>c. 48 \<le> c \<and> c \<le> 57) k \<and> (hd k \<noteq> 48 \<or> k = [48])
     \<and> undec k < 2 ^ 32 - 1"

definition obj_keys :: "'v obj \<Rightarrow> jstr list" where
  "obj_keys ob = (let ks = map fst ob
     in sort_key undec (filter array_index ks) @ filter (\<lambda>k. \<not> array_index k) ks)"

lemma set_obj_keys [simp]: "set (obj_keys ob) = fst ` set ob"
  by (auto simp: obj_keys_def Let_def)

lemma distinct_obj_keys: "distinct (map fst ob) \<Longrightarrow> distinct (obj_keys ob)"
  by (auto simp: obj_keys_def Let_def)

section \<open>JSON values\<close>

datatype json =
    JUndef
  | JNull
  | JBool bool
  | JNum jstr
  | JStr jstr
  | JArr "json list"
  | JObj "(jstr \<times> json) list"

fun json_truthy :: "json \<Rightarrow> bool" where
  "json_truthy JUndef = False"
| "json_truthy JNull = False"
| "json_truthy (JBool b) = b"
| "json_truthy (JNum t) = (t \<noteq> [48])"
| "json_truthy (JStr s) = (s \<noteq> [])"
| "json_truthy (JArr xs) = True"
| "json_truthy (JObj ps) = True"

text \<open>\<open>v?.k\<close> for a key that strings and arrays do not have themselves.\<close>

fun jget :: "json \<Rightarrow> jstr \<Rightarrow> json" where
  "jget (JObj ps) k = (case map_of ps k of Some v \<Rightarrow> v | None \<Rightarrow> JUndef)"
| "jget v k = JUndef"

definition json_or :: "json \<Rightarrow> json \<Rightarrow> json" where
  "json_or a b = (if json_truthy a then a else b)"

text \<open>
  \<open>String(v)\<close>. An object prints as \<open>[object Object]\<close> unless it has a member of its own
  named \<open>toString\<close>: JSON data is never callable, so the conversion then raises a TypeError.
\<close>

fun seq_results :: "(js_error + 'a) list \<Rightarrow> js_error + 'a list" where
  "seq_results [] = Inr []"
| "seq_results (Inl e # xs) = Inl e"
| "seq_results (Inr x # xs) = map_sum id ((#) x) (seq_results xs)"

fun to_string :: "json \<Rightarrow> js_error + jstr" where
  "to_string JUndef = Inr (js ''undefined'')"
| "to_string JNull = Inr (js ''null'')"
| "to_string (JBool b) = Inr (if b then js ''true'' else js ''false'')"
| "to_string (JNum t) = Inr t"
| "to_string (JStr s) = Inr s"
| "to_string (JArr xs) = map_sum id (join (js '',''))
     (seq_results (map (\<lambda>x. if x = JNull \<or> x = JUndef then Inr [] else to_string x) xs))"
| "to_string (JObj ps) =
     (if js ''toString'' \<in> set (map fst ps) then Inl TypeError else Inr (js ''[object Object]''))"

text \<open>\<open>JSON.stringify\<close>: \<open>gap\<close> is the indentation unit, empty for the compact form.\<close>

definition hex_digit :: "nat \<Rightarrow> nat" where
  "hex_digit d = (if d < 10 then 48 + d else 87 + d)"

definition unicode_escape :: "nat \<Rightarrow> jstr" where
  "unicode_escape c = [92, 117, hex_digit (c div 4096), hex_digit (c div 256 mod 16),
     hex_digit (c div 16 mod 16), hex_digit (c mod 16)]"

definition lead_surrogate :: "nat \<Rightarrow> bool" where
  "lead_surrogate c \<longleftrightarrow> 0xD800 \<le> c \<and> c \<le> 0xDBFF"

definition trail_surrogate :: "nat \<Rightarrow> bool" where
  "trail_surrogate c \<longleftrightarrow> 0xDC00 \<le> c \<and> c \<le> 0xDFFF"

definition quote_unit :: "nat \<Rightarrow> jstr" where
  "quote_unit c =
    (if c = 34 then [92, 34] else if c = 92 then [92, 92]
     else if c = 8 then [92, 98] else if c = 9 then [92, 116] else if c = 10 then [92, 110]
     else if c = 12 then [92, 102] else if c = 13 then [92, 114]
     else if c < 32 \<or> lead_surrogate c \<or> trail_surrogate c then unicode_escape c else [c])"

fun quote_units :: "jstr \<Rightarrow> jstr" where
  "quote_units [] = []"
| "quote_units [c] = quote_unit c"
| "quote_units (c # d # s) =
     (if lead_surrogate c \<and> trail_surrogate d then c # d # quote_units s
      else quote_unit c @ quote_units (d # s))"

definition json_quote :: "jstr \<Rightarrow> jstr" where
  "json_quote s = [34] @ quote_units s @ [34]"

definition bracketed :: "jstr \<Rightarrow> jstr \<Rightarrow> nat \<Rightarrow> nat \<Rightarrow> jstr list \<Rightarrow> jstr" where
  "bracketed gap ind l r parts =
    (if parts = [] then [l, r]
     else if gap = [] then [l] @ join [44] parts @ [r]
     else [l, 10] @ ind @ gap @ join ([44, 10] @ ind @ gap) parts @ [10] @ ind @ [r])"

fun stringify :: "jstr \<Rightarrow> jstr \<Rightarrow> json \<Rightarrow> jstr" where
  "stringify gap ind JUndef = js ''null''"
| "stringify gap ind JNull = js ''null''"
| "stringify gap ind (JBool b) = (if b then js ''true'' else js ''false'')"
| "stringify gap ind (JNum t) = t"
| "stringify gap ind (JStr s) = json_quote s"
| "stringify gap ind (JArr xs) = bracketed gap ind 91 93 (map (stringify gap (ind @ gap)) xs)"
| "stringify gap ind (JObj ps) = bracketed gap ind 123 125
     (map (\<lambda>p. json_quote (fst p) @ (if gap = [] then [58] else [58, 32])
          @ stringify gap (ind @ gap) (snd p))
       (filter (\<lambda>p. snd p \<noteq> JUndef) ps))"

definition json_text :: "json \<Rightarrow> jstr" where
  "json_text v = stringify [] [] v"

definition json_pretty :: "json \<Rightarrow> jstr" where
  "json_pretty v = stringify [32, 32] [] v"

end
