(* ===== verification/Uri.thy ===== *)
theory Uri
  imports JsValue
begin

text \<open>
  \<open>encodeURIComponent\<close> of the language, which every handler that puts an identifier into a path
  uses: UTF-8 with percent escapes, a URIError for a lone surrogate.
\<close>

definition uri_unreserved :: "nat \<Rightarrow> bool" where
  "uri_unreserved c \<longleftrightarrow> 48 \<le> c \<and> c \<le> 57 \<or> 65 \<le> c \<and> c \<le> 90 \<or> 97 \<le> c \<and> c \<le> 122
     \<or> c \<in> {33, 39, 40, 41, 42, 45, 46, 95, 126}"

definition utf8 :: "nat \<Rightarrow> nat list" where
  "utf8 p =
    (if p < 0x80 then [p]
     else if p < 0x800 then [0xC0 + p div 64, 0x80 + p mod 64]
     else if p < 0x10000 then [0xE0 + p div 4096, 0x80 + p div 64 mod 64, 0x80 + p mod 64]
     else [0xF0 + p div 0x40000, 0x80 + p div 4096 mod 64, 0x80 + p div 64 mod 64, 0x80 + p mod 64])"

definition upper_hex :: "nat \<Rightarrow> nat" where
  "upper_hex d = (if d < 10 then 48 + d else 55 + d)"

definition percent :: "nat \<Rightarrow> jstr" where
  "percent b = [37, upper_hex (b div 16 mod 16), upper_hex (b mod 16)]"

definition escape_point :: "nat \<Rightarrow> jstr" where
  "escape_point p = concat (map percent (utf8 p))"

fun encodeURIComponent :: "jstr \<Rightarrow> js_error + jstr" where
  "encodeURIComponent [] = Inr []"
| "encodeURIComponent [c] =
     (if uri_unreserved c then Inr [c]
      else if lead_surrogate c \<or> trail_surrogate c then Inl URIError else Inr (escape_point c))"
| "encodeURIComponent (c # d # s) =
     (if uri_unreserved c then map_sum id ((#) c) (encodeURIComponent (d # s))
      else if trail_surrogate c then Inl URIError
      else if lead_surrogate c then
        if trail_surrogate d
        then map_sum id ((@) (escape_point (0x10000 + (c - 0xD800) * 1024 + (d - 0xDC00)))) (encodeURIComponent s)
        else Inl URIError
      else map_sum id ((@) (escape_point c)) (encodeURIComponent (d # s)))"

text \<open>The characters of an encoded text: nothing that ends a path segment or starts a query.\<close>

definition uri_safe :: "nat \<Rightarrow> bool" where
  "uri_safe c \<longleftrightarrow> uri_unreserved c \<or> c = 37"

lemma upper_hex_safe: "d < 16 \<Longrightarrow> uri_safe (upper_hex d)"
  by (auto simp: upper_hex_def uri_safe_def uri_unreserved_def)

lemma escape_point_safe: "\<forall>c \<in> set (escape_point p). uri_safe c"
  by (auto simp: escape_point_def percent_def upper_hex_safe) (simp add: uri_safe_def)

lemma encode_safe: "encodeURIComponent s = Inr t \<Longrightarrow> \<forall>c \<in> set t. uri_safe c"
proof (induction s arbitrary: t rule: encodeURIComponent.induct)
  case (2 c)
  then show ?case using escape_point_safe by (auto simp: uri_safe_def split: if_splits)
next
  case (3 c d s)
  have cons: "\<forall>c \<in> set t. uri_safe c" if "map_sum id ((@) u) r = Inr t"
    "\<forall>c \<in> set u. uri_safe c" "\<And>t. r = Inr t \<Longrightarrow> \<forall>c \<in> set t. uri_safe c" for u r
    using that by (cases r) auto
  show ?case
  proof (cases "uri_unreserved c")
    case True
    with "3.prems" "3.IH"(1) [OF True] show ?thesis
      by (cases "encodeURIComponent (d # s)") (auto simp: uri_safe_def)
  next
    case False
    show ?thesis
    proof (cases "lead_surrogate c")
      case True
      with "3.prems" False have "\<not> trail_surrogate c" "trail_surrogate d"
        and "map_sum id ((@) (escape_point (0x10000 + (c - 0xD800) * 1024 + (d - 0xDC00)))) (encodeURIComponent s) = Inr t"
        by (auto split: if_splits)
      from cons [OF this(3) escape_point_safe "3.IH"(2) [OF False this(1) True this(2)]] show ?thesis by blast
    next
      case lead: False
      with "3.prems" False have "\<not> trail_surrogate c"
        and "map_sum id ((@) (escape_point c)) (encodeURIComponent (d # s)) = Inr t"
        by (auto split: if_splits)
      from cons [OF this(2) escape_point_safe "3.IH"(3) [OF False this(1) lead]] show ?thesis by blast
    qed
  qed
qed simp

lemma uri_safe_not: "uri_safe c \<Longrightarrow> c \<notin> {32, 35, 47, 63}"
  by (auto simp: uri_safe_def uri_unreserved_def)

end
