(* ===== verification/Dom.thy ===== *)
theory Dom
  imports JsRegex JsValue
begin

text \<open>
  The document tree that \<open>el\<close> builds, and the HTML escaping of \<open>escapeHtml\<close>. A node keeps its
  class, attributes and listeners; \<open>textContent\<close> and \<open>innerHTML\<close> replace its children, the
  latter by raw markup. Listeners are labels of an arbitrary type \<open>'h\<close>.
\<close>

section \<open>Nodes\<close>

datatype 'h node =
    TextNode jstr
  | RawHtml jstr
  | Element (tag_of: jstr) (class_of: "jstr option") (attrs_of: "jstr obj")
      (listeners_of: "(jstr \<times> 'h) list") (kids_of: "'h node list")

text \<open>The values an attribute of \<open>el\<close>'s second argument takes.\<close>

datatype 'h attr = AStr jstr | ANull | AUndef | ABool bool | AFun 'h

fun attr_string :: "'h attr \<Rightarrow> jstr" where
  "attr_string (AStr s) = s"
| "attr_string ANull = js ''null''"
| "attr_string AUndef = js ''undefined''"
| "attr_string (ABool b) = (if b then js ''true'' else js ''false'')"
| "attr_string (AFun h) = js ''function''"

fun attr_nullable :: "'h attr \<Rightarrow> jstr" where
  "attr_nullable ANull = []"
| "attr_nullable AUndef = []"
| "attr_nullable a = attr_string a"

definition set_text :: "'h attr \<Rightarrow> 'h node list" where
  "set_text a = (let t = attr_nullable a in if t = [] then [] else [TextNode t])"

text \<open>The text of \<open>innerHTML = v\<close>: null is the empty string there, undefined is not.\<close>

definition set_html :: "'h attr \<Rightarrow> 'h node list" where
  "set_html a = (let t = (if a = ANull then [] else attr_string a)
     in if t = [] then [] else [RawHtml t])"

fun set_attr :: "'h node \<Rightarrow> jstr \<Rightarrow> 'h attr \<Rightarrow> 'h node" where
  "set_attr (Element tg cl at ls ks) k v =
     (if k = js ''class'' then Element tg (Some (attr_string v)) at ls ks
      else if k = js ''text'' then Element tg cl at ls (set_text v)
      else if k = js ''html'' then Element tg cl at ls (set_html v)
      else case v of
        AFun h \<Rightarrow> if starts_with k (js ''on'') then Element tg cl at (ls @ [(drop 2 k, h)]) ks
                  else Element tg cl (obj_put at k (attr_string v)) ls ks
      | ANull \<Rightarrow> Element tg cl at ls ks
      | AUndef \<Rightarrow> Element tg cl at ls ks
      | _ \<Rightarrow> Element tg cl (obj_put at k (attr_string v)) ls ks)"
| "set_attr n k v = n"

text \<open>
  The third argument: a child, a string, null, undefined or false, or an array of these, nested
  to any depth (\<open>[].concat(children || []).flat(Infinity)\<close>).
\<close>

datatype 'h child = CNode "'h node" | CStr jstr | CNull | CFalse | CList "'h child list"

fun flat_children :: "'h child \<Rightarrow> 'h node list" where
  "flat_children (CNode n) = [n]"
| "flat_children (CStr s) = [TextNode s]"
| "flat_children CNull = []"
| "flat_children CFalse = []"
| "flat_children (CList cs) = concat (map flat_children cs)"

fun append_kids :: "'h node \<Rightarrow> 'h node list \<Rightarrow> 'h node" where
  "append_kids (Element tg cl at ls ks) ns = Element tg cl at ls (ks @ ns)"
| "append_kids n ns = n"

definition el :: "jstr \<Rightarrow> (jstr \<times> 'h attr) list \<Rightarrow> 'h child list \<Rightarrow> 'h node" where
  "el tg as cs =
     append_kids (fold (\<lambda>(k, v) n. set_attr n k v) as (Element tg None [] [] []))
       (flat_children (CList cs))"

text \<open>What a reader of the page sees: the text of all descendants; raw markup is opaque.\<close>

fun text_of :: "'h node \<Rightarrow> jstr" where
  "text_of (TextNode s) = s"
| "text_of (RawHtml s) = []"
| "text_of (Element tg cl at ls ks) = concat (map text_of ks)"

text \<open>The raw markup a node contains anywhere.\<close>

fun raw_of :: "'h node \<Rightarrow> jstr list" where
  "raw_of (TextNode s) = []"
| "raw_of (RawHtml s) = [s]"
| "raw_of (Element tg cl at ls ks) = concat (map raw_of ks)"

text \<open>What the attribute list of \<open>el\<close> amounts to, without running it.\<close>

definition put_attr :: "jstr \<Rightarrow> 'h attr \<Rightarrow> jstr obj \<Rightarrow> jstr obj" where
  "put_attr k v ob = (if k \<in> {js ''class'', js ''text'', js ''html''} then ob else case v of
     ANull \<Rightarrow> ob
   | AUndef \<Rightarrow> ob
   | AFun h \<Rightarrow> if starts_with k (js ''on'') then ob else obj_put ob k (attr_string v)
   | _ \<Rightarrow> obj_put ob k (attr_string v))"

lemma map_of_put_attr [simp]:
  "map_of (put_attr k (AStr s) ob) k' =
    (if k' = k \<and> k \<notin> {js ''class'', js ''text'', js ''html''} then Some s else map_of ob k')"
  by (simp add: put_attr_def)

lemma set_attr_fields:
  "\<exists>cl' ls' ks'. set_attr (Element tg cl at ls ks) k v = Element tg cl' (put_attr k v at) ls' ks'
     \<and> (k \<noteq> js ''html'' \<longrightarrow> (\<forall>x \<in> set ks. raw_of x = []) \<longrightarrow> (\<forall>x \<in> set ks'. raw_of x = []))"
  by (cases v) (auto simp: put_attr_def js_inj set_text_def Let_def)

lemma fold_set_attr:
  "\<exists>cl' ls' ks'. fold (\<lambda>(k, v) n. set_attr n k v) as (Element tg cl at ls ks)
      = Element tg cl' (fold (\<lambda>(k, v). put_attr k v) as at) ls' ks'
    \<and> (list_all (\<lambda>a. fst a \<noteq> js ''html'') as \<longrightarrow> (\<forall>x \<in> set ks. raw_of x = []) \<longrightarrow> (\<forall>x \<in> set ks'. raw_of x = []))"
proof (induction as arbitrary: cl at ls ks)
  case Nil
  then show ?case by simp
next
  case (Cons a as)
  obtain k v where a: "a = (k, v)" by (cases a)
  obtain cl1 ls1 ks1 where one: "set_attr (Element tg cl at ls ks) k v = Element tg cl1 (put_attr k v at) ls1 ks1"
    "k \<noteq> js ''html'' \<longrightarrow> (\<forall>x \<in> set ks. raw_of x = []) \<longrightarrow> (\<forall>x \<in> set ks1. raw_of x = [])"
    using set_attr_fields [of tg cl at ls ks k v] by blast
  obtain cl' ls' ks' where rest:
    "fold (\<lambda>(k, v) n. set_attr n k v) as (Element tg cl1 (put_attr k v at) ls1 ks1)
      = Element tg cl' (fold (\<lambda>(k, v). put_attr k v) as (put_attr k v at)) ls' ks'"
    "list_all (\<lambda>a. fst a \<noteq> js ''html'') as \<longrightarrow> (\<forall>x \<in> set ks1. raw_of x = []) \<longrightarrow> (\<forall>x \<in> set ks'. raw_of x = [])"
    using Cons.IH by blast
  have "fold (\<lambda>(k, v) n. set_attr n k v) (a # as) (Element tg cl at ls ks)
      = Element tg cl' (fold (\<lambda>(k, v). put_attr k v) (a # as) at) ls' ks'"
    by (simp only: a fold_simps prod.case comp_apply one(1) rest(1))
  moreover have "list_all (\<lambda>a. fst a \<noteq> js ''html'') (a # as) \<longrightarrow> (\<forall>x \<in> set ks. raw_of x = []) \<longrightarrow> (\<forall>x \<in> set ks'. raw_of x = [])"
    using one(2) rest(2) by (simp add: a)
  ultimately show ?case by blast
qed

lemma el_fields:
  "tag_of (el tg as cs) = tg" "attrs_of (el tg as cs) = fold (\<lambda>(k, v). put_attr k v) as []"
  using fold_set_attr [of as tg None "[]" "[]" "[]"] by (auto simp: el_def)

lemma put_attr_other: "k' \<noteq> k \<Longrightarrow> map_of (put_attr k v ob) k' = map_of ob k'"
  by (cases v) (simp_all add: put_attr_def)

lemma attrs_no_key:
  assumes "list_all (\<lambda>a. fst a \<noteq> k) as"
  shows "map_of (attrs_of (el tg as cs)) k = None"
proof -
  have "map_of (fold (\<lambda>(k, v). put_attr k v) as ob) k = map_of ob k" for ob
    using assms by (induction as arbitrary: ob) (auto simp: put_attr_other)
  then show ?thesis by (simp add: el_fields)
qed

lemma attr_if: "map_of (attrs_of (if c then x else y)) k = (if c then map_of (attrs_of x) k else map_of (attrs_of y) k)"
  by simp

lemma raw_of_el:
  "list_all (\<lambda>a. fst a \<noteq> js ''html'') as \<Longrightarrow>
   raw_of (el tg as cs) = concat (map raw_of (concat (map flat_children cs)))"
  using fold_set_attr [of as tg None "[]" "[]" "[]"] by (auto simp: el_def)

section \<open>Escaping\<close>

definition html_entity :: "nat \<Rightarrow> jstr" where
  "html_entity c =
    (if c = 38 then js ''&amp;'' else if c = 60 then js ''&lt;'' else if c = 62 then js ''&gt;''
     else if c = 34 then js ''&quot;'' else if c = 39 then js ''&#39;'' else [c])"

text \<open>\<open>String(s ?? "").replace(...)\<close>: null and undefined are the empty string.\<close>

definition escapeHtml :: "jstr option \<Rightarrow> jstr" where
  "escapeHtml s = concat (map html_entity (case s of None \<Rightarrow> [] | Some t \<Rightarrow> t))"

text \<open>The browser's reading of the five character references.\<close>

fun html_decode :: "jstr \<Rightarrow> jstr" where
  "html_decode [] = []"
| "html_decode (c # s) =
    (if starts_with (c # s) (js ''&amp;'') then 38 # html_decode (drop 4 s)
     else if starts_with (c # s) (js ''&lt;'') then 60 # html_decode (drop 3 s)
     else if starts_with (c # s) (js ''&gt;'') then 62 # html_decode (drop 3 s)
     else if starts_with (c # s) (js ''&quot;'') then 34 # html_decode (drop 5 s)
     else if starts_with (c # s) (js ''&#39;'') then 39 # html_decode (drop 4 s)
     else c # html_decode s)"

lemma starts_with_append [simp]: "starts_with (p @ s) p"
  by (auto simp: starts_with_iff)

lemma html_decode_entity: "html_decode (html_entity c @ s) = c # html_decode s"
  by (auto simp: html_entity_def texts)

lemma html_decode_escape: "html_decode (concat (map html_entity s)) = s"
  by (induction s) (simp_all add: html_decode_entity)

lemma html_entity_safe: "set (html_entity c) \<inter> {60, 62, 34, 39} = {}"
  by (auto simp: html_entity_def texts)

text \<open>C40: escaping removes every character that could open or close a tag or an attribute value, and
  loses nothing: the browser reads the escaped text back as the original.\<close>

theorem escapeHtml_correct:
  "set (escapeHtml s) \<inter> {60, 62, 34, 39} = {} \<and> html_decode (escapeHtml (Some t)) = t"
  using html_entity_safe by (fastforce simp: escapeHtml_def html_decode_escape)

end
