(* ===== verification/Format.thy ===== *)
theory Format
  imports Complex_Main JsRegex
begin

text \<open>
  The formatting helpers of \<open>app.js\<close>: \<open>fmtBytes\<close>, \<open>fmtTime\<close>, \<open>shortId\<close>, \<open>fileFormat\<close>
  and \<open>newPackageId\<close>. Numbers that are not integers are rationals (a double is a rational, and the
  divisions by 1024 used here are exact). The clock, the time zone and the random source are
  parameters.
\<close>

section \<open>Number.prototype.toFixed\<close>

text \<open>
  For \<open>0 \<le> x\<close>: the integer nearest to \<open>x * 10 ^ f\<close> (the larger of two), printed with \<open>f\<close>
  digits after the point.
\<close>

definition fixed_digits :: "nat \<Rightarrow> nat \<Rightarrow> jstr" where
  "fixed_digits f k =
    (if f = 0 then dec k
     else let d = dec k; p = replicate (Suc f - length d) 48 @ d
          in take (length p - f) p @ [46] @ drop (length p - f) p)"

definition to_fixed :: "nat \<Rightarrow> rat \<Rightarrow> jstr" where
  "to_fixed f x = fixed_digits f (nat \<lfloor>x * 10 ^ f + 1 / 2\<rfloor>)"

lemma floor_half: "\<bar>of_int \<lfloor>y + 1 / 2\<rfloor> - y\<bar> \<le> (1 / 2 :: rat)"
  by linarith

lemma fixed_nearest:
  "0 \<le> x \<Longrightarrow> \<bar>of_nat (nat \<lfloor>x * 10 ^ f + 1 / 2\<rfloor>) - x * 10 ^ f\<bar> \<le> (1 / 2 :: rat)"
proof -
  assume "0 \<le> x"
  then have "0 \<le> x * 10 ^ f + 1 / 2" by simp
  then have "0 \<le> \<lfloor>x * 10 ^ f + 1 / 2\<rfloor>" by linarith
  then show ?thesis using floor_half [of "x * 10 ^ f"] by (simp only: of_nat_nat)
qed

section \<open>fmtBytes\<close>

definition fmtBytes :: "nat option \<Rightarrow> jstr" where
  "fmtBytes n = (case n of None \<Rightarrow> js ''-'' | Some n \<Rightarrow>
     if n < 1024 then dec n @ js '' B''
     else if n < 1024 * 1024 then to_fixed 1 (of_nat n / 1024) @ js '' KB''
     else to_fixed 2 (of_nat n / 1024 / 1024) @ js '' MB'')"

section \<open>Dates\<close>

record datetime =
  year :: nat
  month :: nat
  day :: nat
  hours :: nat
  minutes :: nat
  seconds :: nat

text \<open>\<open>parse stamp\<close> is what \<open>new Date(iso)\<close> reads in the host's time zone, or None when invalid.\<close>

definition fmtTime :: "(jstr \<Rightarrow> datetime option) \<Rightarrow> jstr option \<Rightarrow> jstr" where
  "fmtTime parse stamp = (if \<not> truthy stamp then js ''-'' else
     case parse (the stamp) of None \<Rightarrow> the stamp | Some d \<Rightarrow>
       dec (year d) @ js ''-'' @ pad2 (month d) @ js ''-'' @ pad2 (day d) @ js '' '' @
       pad2 (hours d) @ js '':'' @ pad2 (minutes d) @ js '':'' @ pad2 (seconds d))"

text \<open>\<open>rnd\<close> is \<open>Math.random().toString(36)\<close>.\<close>

definition newPackageId :: "datetime \<Rightarrow> jstr \<Rightarrow> jstr" where
  "newPackageId d rnd =
     js ''pkg-'' @ (dec (year d) @ pad2 (month d) @ pad2 (day d)) @ js ''-'' @
     (pad2 (hours d) @ pad2 (minutes d) @ pad2 (seconds d)) @ js ''-'' @ take 4 (drop 2 rnd)"

definition valid_datetime :: "datetime \<Rightarrow> bool" where
  "valid_datetime d \<longleftrightarrow> month d < 100 \<and> day d < 100 \<and> hours d < 100 \<and> minutes d < 100 \<and> seconds d < 100"

section \<open>shortId and fileFormat\<close>

definition shortId :: "jstr option \<Rightarrow> jstr option" where
  "shortId i = (if truthy i \<and> length (the i) > 12 then Some (take 12 (the i) @ [0x2026]) else i)"

definition alnum :: "(nat \<times> nat) list" where
  "alnum = [(65, 90), (97, 122), (48, 57)]"

text \<open>The pattern \<open>/\.([A-Za-z0-9]+)$/\<close>.\<close>

definition ext_re :: re where
  "ext_re = Cat (one 46) (Cat (Grp 1 (Plus (Cls alnum))) Eol)"

definition fileFormat :: "jstr option \<Rightarrow> jstr" where
  "fileFormat filename = (case re_exec ext_re (str_or filename []) of
     Some (b, c, m, t) \<Rightarrow> to_upper (str_or (capture c 1) [])
   | None \<Rightarrow> js ''unknown'')"

section \<open>Facts\<close>

lemma pad2_len: "n < 100 \<Longrightarrow> length (pad2 n) = 2"
proof -
  assume "n < 100"
  then have "n < 10 \<or> (\<not> n < 10 \<and> n div 10 < 10)" by auto
  then show ?thesis by (auto simp: pad2_def dec.simps [of n])
qed

lemma undec_zeros [simp]: "undec (replicate k 48 @ s) = undec s"
proof -
  have "fold (\<lambda>c a. 10 * a + (c - 48)) (replicate k 48) 0 = (0::nat)"
    by (induction k) auto
  then show ?thesis by (simp add: undec_def)
qed

lemma undec_pad2 [simp]: "undec (pad2 n) = n"
  by (simp add: pad2_def Let_def)

lemma pad2_inj [simp]: "pad2 m = pad2 n \<longleftrightarrow> m = n"
  by (metis undec_pad2)

lemma pad2_split: "m < 100 \<Longrightarrow> m' < 100 \<Longrightarrow> pad2 m @ a = pad2 m' @ b \<longleftrightarrow> m = m' \<and> a = b"
  using pad2_len [of m] pad2_len [of m'] by (metis append_eq_append_conv pad2_inj)

lemma pad2_split_end:
  "m < 100 \<Longrightarrow> m' < 100 \<Longrightarrow> a @ pad2 m = b @ pad2 m' \<longleftrightarrow> a = b \<and> m = m'"
  using pad2_len [of m] pad2_len [of m'] by (metis append_eq_append_conv pad2_inj)

lemma no_dash_in_digits: "45 \<notin> set (dec n)" "45 \<notin> set (pad2 n)"
  using dec_digits [of n] by (auto simp: pad2_def Let_def)

lemma dash_split: "45 \<notin> set a \<Longrightarrow> 45 \<notin> set b \<Longrightarrow> a @ 45 # x = b @ 45 # y \<longleftrightarrow> a = b \<and> x = y"
proof (induction a arbitrary: b)
  case Nil
  then show ?case by (cases b) auto
next
  case (Cons u a)
  then show ?case by (cases b) auto
qed

lemma newPackageId_inj:
  assumes "valid_datetime d" "valid_datetime e"
  shows "newPackageId d r = newPackageId e s \<longleftrightarrow> d = e \<and> take 4 (drop 2 r) = take 4 (drop 2 s)"
proof -
  let ?date = "\<lambda>d. (dec (year d) @ pad2 (month d)) @ pad2 (day d)"
  let ?time = "\<lambda>d. pad2 (hours d) @ pad2 (minutes d) @ pad2 (seconds d)"
  have nd: "45 \<notin> set (?date d)" "45 \<notin> set (?time d)" for d
    by (auto simp: no_dash_in_digits)
  have shape: "newPackageId d r = js ''pkg-'' @ ?date d @ 45 # ?time d @ 45 # take 4 (drop 2 r)" for d r
    by (simp add: newPackageId_def js_eval)
  have "newPackageId d r = newPackageId e s \<longleftrightarrow>
     ?date d = ?date e \<and> ?time d = ?time e \<and> take 4 (drop 2 r) = take 4 (drop 2 s)"
    by (simp only: shape same_append_eq dash_split [OF nd(1) nd(1)] dash_split [OF nd(2) nd(2)])
  also have "?date d = ?date e \<longleftrightarrow> year d = year e \<and> month d = month e \<and> day d = day e"
    using assms by (auto simp: valid_datetime_def pad2_split_end simp del: append_assoc)
  also have "?time d = ?time e \<longleftrightarrow> hours d = hours e \<and> minutes d = minutes e \<and> seconds d = seconds e"
    using assms by (auto simp: valid_datetime_def pad2_split)
  finally show ?thesis by (auto intro: datetime.equality)
qed

lemma in_alnum: "in_ranges alnum c \<longleftrightarrow> 65 \<le> c \<and> c \<le> 90 \<or> 97 \<le> c \<and> c \<le> 122 \<or> 48 \<le> c \<and> c \<le> 57"
  by (auto simp: in_ranges_def alnum_def)

lemma ext_matches:
  "matches n ext_re s t \<longleftrightarrow> t = [] \<and> (\<exists>e. s = 46 # e \<and> e \<noteq> [] \<and> (\<forall>c \<in> set e. in_ranges alnum c))"
  by (force simp: ext_re_def neq_Nil_conv Cons_eq_append_conv)

end
