(* ===== verification/ApiClient.thy ===== *)
theory ApiClient
  imports JsValue JsRegex
begin

text \<open>
  The API client of \<open>app.js\<close> (the object \<open>api\<close>) and the persistence of its configuration:
  base address in \<open>localStorage\<close>, token in \<open>sessionStorage\<close>, the authentication header's
  name that the health check reports, request headers, error bodies and response unwrapping.
  The network is outside: a request is a value, and a response is what arrived for it.
\<close>

section \<open>State\<close>

record client =
  localStore :: "jstr \<rightharpoonup> jstr"
  sessionStore :: "jstr \<rightharpoonup> jstr"
  authHeaderName :: jstr

definition DEFAULT_API_BASE :: jstr where
  "DEFAULT_API_BASE = js ''/api/v1''"

definition DEFAULT_AUTH_HEADER_NAME :: jstr where
  "DEFAULT_AUTH_HEADER_NAME = js ''X-API-Token''"

definition TOKEN_STORAGE_KEY :: jstr where
  "TOKEN_STORAGE_KEY = js ''contract_api_token''"

definition BASE_STORAGE_KEY :: jstr where
  "BASE_STORAGE_KEY = js ''contract_api_base''"

definition init_client :: client where
  "init_client = \<lparr>localStore = Map.empty, sessionStore = Map.empty,
     authHeaderName = DEFAULT_AUTH_HEADER_NAME\<rparr>"

section \<open>Requests\<close>

definition api_base :: "client \<Rightarrow> jstr" where
  "api_base st = str_or (localStore st BASE_STORAGE_KEY) DEFAULT_API_BASE"

definition api_headers :: "client \<Rightarrow> jstr obj \<Rightarrow> jstr obj" where
  "api_headers st extra =
    (let token = map_option trim (sessionStore st TOKEN_STORAGE_KEY);
         auth = (if truthy token then [(authHeaderName st, the token)] else [])
     in obj_spread auth extra)"

definition trailing_slash_re :: re where
  "trailing_slash_re = Cat (one 47) Eol"

definition api_url :: "client \<Rightarrow> jstr \<Rightarrow> jstr" where
  "api_url st path = re_replace trailing_slash_re (\<lambda>_ _. []) (api_base st) @ path"

datatype 'f body = NoBody | JsonBody json | FormBody "(jstr \<times> 'f) list"

record 'f request =
  meth :: jstr
  url :: jstr
  hdrs :: "jstr obj"
  payload :: "'f body"

definition json_headers :: "jstr obj" where
  "json_headers = [(js ''Content-Type'', js ''application/json'')]"

definition api_request :: "client \<Rightarrow> jstr \<Rightarrow> jstr \<Rightarrow> jstr obj \<Rightarrow> 'f body \<Rightarrow> 'f request" where
  "api_request st m path extra b =
     \<lparr>meth = m, url = api_url st path, hdrs = api_headers st extra, payload = b\<rparr>"

definition api_get :: "client \<Rightarrow> jstr \<Rightarrow> 'f request" where
  "api_get st path = api_request st (js ''GET'') path [] NoBody"

definition api_post :: "client \<Rightarrow> jstr \<Rightarrow> json \<Rightarrow> 'f request" where
  "api_post st path b = api_request st (js ''POST'') path json_headers (JsonBody b)"

definition api_put :: "client \<Rightarrow> jstr \<Rightarrow> json \<Rightarrow> 'f request" where
  "api_put st path b = api_request st (js ''PUT'') path json_headers (JsonBody b)"

definition api_del :: "client \<Rightarrow> jstr \<Rightarrow> 'f request" where
  "api_del st path = api_request st (js ''DELETE'') path [] NoBody"

definition api_upload :: "client \<Rightarrow> jstr \<Rightarrow> (jstr \<times> 'f) list \<Rightarrow> 'f request" where
  "api_upload st path form =
     \<lparr>meth = js ''POST'', url = api_url st path, hdrs = api_headers st [], payload = FormBody form\<rparr>"

section \<open>Errors\<close>

text \<open>The \<open>Error\<close> object: an absent status is a failure before any response arrived.\<close>

record api_error =
  err_status :: "nat option"
  err_code :: json
  err_message :: json

definition http_failed :: "nat \<Rightarrow> json" where
  "http_failed status = JStr ([0x8BF7, 0x6C42, 0x5931, 0x8D25, 0x0020, 0x0028, 0x0048, 0x0054, 0x0054, 0x0050, 0x0020] @ dec status @ js '')'')"

definition redis_hint :: json where
  "redis_hint = JStr [0x65E0, 0x6CD5, 0x8FDE, 0x63A5, 0x0020, 0x0052, 0x0065, 0x0064, 0x0069, 0x0073, 0xFF1A, 0x5F02, 0x6B65, 0x4EFB, 0x52A1, 0x529F, 0x80FD, 0x4F9D, 0x8D56, 0x0020, 0x0052, 0x0065, 0x0064, 0x0069, 0x0073, 0x0020, 0x670D, 0x52A1, 0xFF0C, 0x8BF7, 0x786E, 0x8BA4, 0x0020, 0x0052, 0x0065, 0x0064, 0x0069, 0x0073, 0x0020, 0x5DF2, 0x542F, 0x52A8, 0xFF08, 0x540C, 0x6B65, 0x5BA1, 0x67E5, 0x4E0D, 0x53D7, 0x5F71, 0x54CD, 0xFF09]"

definition network_error :: api_error where
  "network_error = \<lparr>err_status = None, err_code = JUndef, err_message = JStr [0x7F51, 0x7EDC, 0x9519, 0x8BEF, 0xFF0C, 0x65E0, 0x6CD5, 0x8FDE, 0x63A5, 0x670D, 0x52A1]\<rparr>"

text \<open>\<open>/connecting to (localhost|127\.0\.0\.1|redis)/i\<close>, on the lower-cased text.\<close>

definition redis_re :: re where
  "redis_re = Cat (lit (js ''connecting to ''))
     (alts [js ''localhost'', js ''127.0.0.1'', js ''redis''])"

text \<open>The \<open>try\<close> block of \<open>errorFrom\<close>: code and message, or the exception it raised.\<close>

definition error_fields :: "json \<Rightarrow> nat \<Rightarrow> js_error + (json \<times> json)" where
  "error_fields body status =
    (let err = jget (jget body (js ''Response'')) (js ''Error'') in
     if json_truthy err then
       Inr (jget err (js ''Code''), json_or (jget err (js ''Message'')) (jget err (js ''Code'')))
     else if json_truthy (jget body (js ''detail'')) then
       map_sum id (\<lambda>s. (JUndef, JStr s)) (to_string (jget body (js ''detail'')))
     else if json_truthy (jget body (js ''message'')) then
       map_sum id (\<lambda>s. (JUndef, JStr s)) (to_string (jget body (js ''message'')))
     else Inr (JUndef, http_failed status))"

definition errorFrom :: "json \<Rightarrow> nat \<Rightarrow> js_error + api_error" where
  "errorFrom body status =
    (let (code, msg) = (case error_fields body status of Inr cm \<Rightarrow> cm
                        | Inl _ \<Rightarrow> (JUndef, http_failed status)) in
     case to_string msg of
       Inl e \<Rightarrow> Inl e
     | Inr text \<Rightarrow> Inr \<lparr>err_status = Some status, err_code = code,
         err_message = (if re_test redis_re (to_lower text) then redis_hint else msg)\<rparr>)"

section \<open>Responses\<close>

text \<open>
  What came back: a status and the body as JSON (None when it does not parse), or nothing at all.
  A promise is settled with a failure or a value. \<open>Raised\<close> is an exception of the engine with
  the engine's text.
\<close>

datatype response = Response nat "json option" | NoResponse jstr

datatype failure = ApiFail api_error | Raised jstr

type_synonym outcome = "failure + json"

fun body_json :: "json option \<Rightarrow> json" where
  "body_json None = JNull"
| "body_json (Some v) = v"

definition ok_status :: "nat \<Rightarrow> bool" where
  "ok_status s \<longleftrightarrow> 200 \<le> s \<and> s < 300"

definition unwrap :: "nat \<Rightarrow> json option \<Rightarrow> (js_error + api_error) + json" where
  "unwrap status b = (if ok_status status then Inr (body_json b)
     else Inl (errorFrom (body_json b) status))"

text \<open>
  \<open>request\<close>: \<open>fetch\<close> and then \<open>unwrap\<close>; an exception of \<open>errorFrom\<close> rejects the promise
  (\<open>engine_text\<close> is what the engine writes in it).
\<close>

fun fetch_outcome :: "(js_error \<Rightarrow> jstr) \<Rightarrow> response \<Rightarrow> outcome" where
  "fetch_outcome engine_text (Response status b) = (case unwrap status b of
     Inr v \<Rightarrow> Inr v
   | Inl (Inr e) \<Rightarrow> Inl (ApiFail e)
   | Inl (Inl x) \<Rightarrow> Inl (Raised (engine_text x)))"
| "fetch_outcome engine_text (NoResponse m) = Inl (Raised m)"

text \<open>
  \<open>upload\<close>: the \<open>XMLHttpRequest\<close> path. An exception of \<open>errorFrom\<close> escapes from the event
  handler and leaves the promise pending for ever: None.
\<close>

fun upload_outcome :: "response \<Rightarrow> outcome option" where
  "upload_outcome (Response status b) =
    (if 200 \<le> status \<and> status < 300 then Some (Inr (body_json b))
     else case errorFrom (body_json b) status of
       Inr e \<Rightarrow> Some (Inl (ApiFail e)) | Inl _ \<Rightarrow> None)"
| "upload_outcome (NoResponse m) = Some (Inl (ApiFail network_error))"

text \<open>\<open>e.message\<close> in a template literal.\<close>

fun failure_text :: "failure \<Rightarrow> jstr" where
  "failure_text (ApiFail e) = (case to_string (err_message e) of Inr s \<Rightarrow> s | Inl _ \<Rightarrow> [])"
| "failure_text (Raised m) = m"

section \<open>Configuration\<close>

definition trailing_slashes_re :: re where
  "trailing_slashes_re = Cat (Plus (one 47)) Eol"

text \<open>
  \<open>applyConfig\<close> reads the two input fields; the token field may be missing from the page. It
  returns the new state and whether the token field is marked empty.
\<close>

definition normal_base :: "jstr \<Rightarrow> jstr" where
  "normal_base v = (let base = re_replace trailing_slashes_re (\<lambda>_ _. []) (trim v)
     in if base = [] then DEFAULT_API_BASE else base)"

definition applyConfig :: "jstr \<Rightarrow> jstr option \<Rightarrow> client \<Rightarrow> client \<times> bool option" where
  "applyConfig base_value token_value st =
    (let st1 = st\<lparr>localStore := (localStore st)(BASE_STORAGE_KEY \<mapsto> normal_base base_value)\<rparr> in
     case token_value of
       None \<Rightarrow> (st1, None)
     | Some v \<Rightarrow> (let token = trim v in
         (st1\<lparr>sessionStore := (if token \<noteq> [] then (sessionStore st1)(TOKEN_STORAGE_KEY \<mapsto> token)
                              else (sessionStore st1)(TOKEN_STORAGE_KEY := None))\<rparr>,
          Some (token = []))))"

text \<open>\<open>loadConfigUI\<close>: what the two fields show.\<close>

definition loadConfigUI :: "client \<Rightarrow> jstr \<times> jstr" where
  "loadConfigUI st = (if api_base st = DEFAULT_API_BASE then [] else api_base st,
     str_or (sessionStore st TOKEN_STORAGE_KEY) [])"

text \<open>The header name that a healthy answer of \<open>GET /health\<close> announces (\<open>refreshHealth\<close>).\<close>

definition learn_auth_header :: "jstr option \<Rightarrow> client \<Rightarrow> client" where
  "learn_auth_header name st = st\<lparr>authHeaderName := str_or name DEFAULT_AUTH_HEADER_NAME\<rparr>"

section \<open>Facts about addresses\<close>

definition strip_slashes :: "jstr \<Rightarrow> jstr" where
  "strip_slashes s = rev (dropWhile (\<lambda>c. c = 47) (rev s))"

lemma takeWhile_replicate:
  "takeWhile (\<lambda>c. c = x) s = replicate (length (takeWhile (\<lambda>c. c = x) s)) x"
  by (induction s) auto

lemma strip_slashes_split: "\<exists>k. s = strip_slashes s @ replicate k 47"
proof -
  define k where "k = length (takeWhile (\<lambda>c. c = 47) (rev s))"
  have "rev s = replicate k 47 @ rev (strip_slashes s)"
    using takeWhile_replicate [of 47 "rev s"] takeWhile_dropWhile_id [of "\<lambda>c. c = 47" "rev s"]
    by (simp add: strip_slashes_def k_def)
  then have "s = strip_slashes s @ replicate k 47"
    by (metis rev_append rev_replicate rev_rev_ident)
  then show ?thesis ..
qed

lemma strip_slashes_last: "strip_slashes s \<noteq> [] \<Longrightarrow> last (strip_slashes s) \<noteq> 47"
  using hd_dropWhile [of "\<lambda>c. c = 47" "rev s"] by (auto simp: strip_slashes_def last_rev)

lemma slashes_matches:
  "matches n trailing_slashes_re s t \<longleftrightarrow> t = [] \<and> (\<exists>k. s = replicate (Suc k) 47)"
proof -
  have "(\<exists>u. s = 47 # u \<and> (\<forall>c \<in> set u. c = 47)) \<longleftrightarrow> (\<exists>k. s = replicate (Suc k) 47)"
    by (auto intro: replicate_eqI)
  then show ?thesis by (auto simp: trailing_slashes_re_def)
qed

lemma replace_slashes: "re_replace trailing_slashes_re (\<lambda>_ _. []) s = strip_slashes s"
proof -
  obtain k where k: "s = strip_slashes s @ replicate k 47" using strip_slashes_split by blast
  show ?thesis
  proof (cases "re_exec trailing_slashes_re s")
    case None
    then have "\<not> re_test trailing_slashes_re s" by (simp add: re_test_def)
    then have "k = 0" using k unfolding re_test_iff slashes_matches by (metis not0_implies_Suc)
    with None k show ?thesis by (simp add: re_replace_def)
  next
    case (Some x)
    obtain b c m t where x: "x = (b, c, m, t)" by (cases x) auto
    from re_exec_Some [OF Some [unfolded x]] obtain j where
      s: "s = b @ m" and t: "t = []" and m: "m = replicate (Suc j) 47"
      unfolding slashes_matches by auto
    have "b = [] \<or> last b \<noteq> 47"
    proof (rule ccontr)
      assume "\<not> (b = [] \<or> last b \<noteq> 47)"
      then obtain b' where b': "b = b' @ [47]" by (metis append_butlast_last_id)
      have "matches (length s) trailing_slashes_re (47 # m) []"
        using m by (auto simp: slashes_matches intro: exI [of _ "Suc j"])
      moreover have "s = b' @ (47 # m)" by (simp add: s b')
      ultimately show False
        using re_exec_leftmost [OF Some [unfolded x], of b' "47 # m" "[]"] b' by simp
    qed
    then have "strip_slashes s = b"
      by (cases b rule: rev_cases) (auto simp: strip_slashes_def s m dropWhile_append3 rev_replicate
          dropWhile_replicate simp flip: replicate_Suc)
    with Some x t show ?thesis by (simp add: re_replace_def)
  qed
qed

lemma slash_matches: "matches n trailing_slash_re s t \<longleftrightarrow> s = [47] \<and> t = []"
  by (auto simp: trailing_slash_re_def)

lemma replace_slash_id: "s = [] \<or> last s \<noteq> 47 \<Longrightarrow> re_replace trailing_slash_re (\<lambda>_ _. []) s = s"
  by (rule re_replace_id) (auto simp: re_test_iff slash_matches)

lemma normal_base_eq:
  "normal_base v = (if strip_slashes (trim v) = [] then DEFAULT_API_BASE else strip_slashes (trim v))"
  by (simp add: normal_base_def replace_slashes Let_def)

lemma default_base_last: "DEFAULT_API_BASE \<noteq> []" "last DEFAULT_API_BASE \<noteq> 47"
  by (simp_all add: DEFAULT_API_BASE_def texts)

lemma normal_base_last: "normal_base v \<noteq> []" "last (normal_base v) \<noteq> 47"
  using strip_slashes_last [of "trim v"] default_base_last by (simp_all add: normal_base_eq)

lemma keys_differ: "TOKEN_STORAGE_KEY \<noteq> BASE_STORAGE_KEY"
  by (simp add: TOKEN_STORAGE_KEY_def BASE_STORAGE_KEY_def js_inj)

lemma stored_base: "api_base (fst (applyConfig b tok st)) = normal_base b"
  using normal_base_last(1) [of b]
  by (auto simp: applyConfig_def api_base_def Let_def split: option.splits)

lemma stored_token:
  "str_or (sessionStore (fst (applyConfig b (Some v) st)) TOKEN_STORAGE_KEY) [] = trim v"
  by (simp add: applyConfig_def Let_def)

lemma normal_base_idem:
  assumes "\<not> js_space (last (normal_base b))"
  shows "normal_base (if normal_base b = DEFAULT_API_BASE then [] else normal_base b) = normal_base b"
proof (cases "normal_base b = DEFAULT_API_BASE")
  case True
  then show ?thesis by (simp add: normal_base_eq strip_slashes_def)
next
  case False
  define s where "s = strip_slashes (trim b)"
  have s: "normal_base b = s" "s \<noteq> []"
    using False by (auto simp: normal_base_eq s_def split: if_splits)
  obtain k where k: "trim b = s @ replicate k 47" using strip_slashes_split s_def by blast
  then have "\<not> js_space (hd s)" using trim_ends(1) [of b] s(2) by simp
  then have "trim s = s" using assms s by (simp add: trim_fix)
  moreover have "strip_slashes s = s"
    using s normal_base_last(2) [of b]
    by (cases s rule: rev_cases) (simp_all add: strip_slashes_def)
  ultimately have "normal_base s = s" using s by (simp add: normal_base_eq)
  with False s show ?thesis by simp
qed

lemma error_fields_text:
  assumes "\<not> json_truthy (jget (jget body (js ''Response'')) (js ''Error''))"
    and "error_fields body status = Inr (c, m)"
  shows "\<exists>s. to_string m = Inr s"
proof -
  have "\<exists>s. to_string m = Inr s" if "map_sum id (\<lambda>s. (JUndef, JStr s)) (to_string v) = Inr (c, m)" for v
    using that by (cases "to_string v") auto
  with assms show ?thesis
    by (auto simp: error_fields_def Let_def http_failed_def split: if_splits)
qed

lemma errorFrom_raises:
  "(\<exists>x. errorFrom body status = Inl x) \<longleftrightarrow>
     (let err = jget (jget body (js ''Response'')) (js ''Error'') in json_truthy err
        \<and> (\<exists>x. to_string (json_or (jget err (js ''Message'')) (jget err (js ''Code''))) = Inl x))"
proof (cases "json_truthy (jget (jget body (js ''Response'')) (js ''Error''))")
  case True
  then show ?thesis
    by (auto simp: errorFrom_def error_fields_def Let_def split: sum.splits)
next
  case False
  then show ?thesis
  proof (cases "error_fields body status")
    case (Inl x)
    with False show ?thesis by (simp add: errorFrom_def http_failed_def Let_def)
  next
    case (Inr p)
    obtain c m where "p = (c, m)" by (cases p)
    with False Inr error_fields_text [OF False, of status c m] show ?thesis
      by (auto simp: errorFrom_def Let_def)
  qed
qed

text \<open>The error body of the service: \<open>make_error_response\<close> in \<open>errors.py\<close>.\<close>

definition error_envelope :: "jstr \<Rightarrow> jstr \<Rightarrow> json \<Rightarrow> json" where
  "error_envelope code msg request_id =
     JObj [(js ''Response'', JObj [(js ''Error'', JObj [(js ''Code'', JStr code), (js ''Message'', JStr msg)]),
       (js ''RequestId'', request_id)])]"

section \<open>Properties\<close>

text \<open>Whatever address is typed into the configuration field, requests go to the trimmed address
  with all trailing slashes removed (the default when nothing is left), followed by the path: there is
  never a double slash at the joint and the address is never empty.\<close>

theorem api_url_after_config:
  "api_url (fst (applyConfig b tok st)) path = normal_base b @ path
   \<and> normal_base b = (if strip_slashes (trim b) = [] then DEFAULT_API_BASE else strip_slashes (trim b))
   \<and> normal_base b \<noteq> [] \<and> last (normal_base b) \<noteq> 47"
  using normal_base_last [of b]
  by (simp add: api_url_def stored_base replace_slash_id normal_base_eq [symmetric])

text \<open>The configuration round trip: the fields show the stored address (nothing for the default)
  and the trimmed token, and saving what they show stores the same configuration again.\<close>

theorem config_roundtrip:
  assumes "st' = fst (applyConfig b (Some v) st)" and "\<not> js_space (last (normal_base b))"
  shows "loadConfigUI st' = (if normal_base b = DEFAULT_API_BASE then [] else normal_base b, trim v)
    \<and> fst (applyConfig (fst (loadConfigUI st')) (Some (snd (loadConfigUI st'))) st') = st'"
proof -
  have shown: "loadConfigUI st' = (if normal_base b = DEFAULT_API_BASE then [] else normal_base b, trim v)"
    by (simp add: loadConfigUI_def assms(1) stored_base stored_token)
  have "normal_base (fst (loadConfigUI st')) = normal_base b"
    using normal_base_idem [OF assms(2)] shown by simp
  then have "fst (applyConfig (fst (loadConfigUI st')) (Some (snd (loadConfigUI st'))) st') = st'"
    using shown by (simp add: assms(1) applyConfig_def Let_def fun_upd_idem_iff)
  with shown show ?thesis by blast
qed

theorem config_roundtrip_witness:
  "loadConfigUI (fst (applyConfig (js '' http://h:8090// '') (Some (js '' tok '')) init_client))
     = (js ''http://h:8090'', js ''tok'')"
proof -
  have nb: "normal_base (js '' http://h:8090// '') = js ''http://h:8090''"
    by (simp add: normal_base_eq strip_slashes_def trim_def js_space_def texts)
  have "trim (js '' tok '') = js ''tok''" by (simp add: trim_def js_space_def texts)
  with nb config_roundtrip [OF refl, of "js '' http://h:8090// ''" "js '' tok ''" init_client]
  show ?thesis by (simp add: js_space_def DEFAULT_API_BASE_def texts)
qed

text \<open>Every request carries the stored token, trimmed, under the header name that the service
  announced, exactly when the token is not blank, and the request's own headers are kept.\<close>

theorem api_headers_token:
  assumes "distinct (map fst extra)" "authHeaderName st \<notin> fst ` set extra"
  shows "map_of (api_headers st extra) (authHeaderName st)
      = (case sessionStore st TOKEN_STORAGE_KEY of None \<Rightarrow> None
         | Some t \<Rightarrow> if trim t = [] then None else Some (trim t))
    \<and> (\<forall>k \<in> fst ` set extra. map_of (api_headers st extra) k = map_of extra k)"
proof -
  have "map_of extra (authHeaderName st) = None"
    using assms(2) by (simp add: map_of_eq_None_iff)
  moreover have "\<exists>v. map_of extra k = Some v" if "k \<in> fst ` set extra" for k
    using that by (metis map_of_eq_None_iff not_None_eq)
  ultimately show ?thesis
    using assms by (auto simp: api_headers_def Let_def map_of_obj_spread map_add_def
        split: option.splits dest!: bspec)
qed

theorem api_headers_token_witness:
  "map_of (api_headers (init_client\<lparr>sessionStore := [TOKEN_STORAGE_KEY \<mapsto> js '' t '']\<rparr>) json_headers)
     DEFAULT_AUTH_HEADER_NAME = Some (js ''t'')"
proof -
  have tr: "trim (js '' t '') = js ''t''" "js ''t'' \<noteq> []"
    by (simp_all add: trim_def js_space_def texts)
  show ?thesis
    using api_headers_token [of json_headers "init_client\<lparr>sessionStore := [TOKEN_STORAGE_KEY \<mapsto> js '' t '']\<rparr>"]
    by (simp add: init_client_def json_headers_def DEFAULT_AUTH_HEADER_NAME_def js_inj tr)
qed

text \<open>An error body of the service (code and message in its envelope) becomes an error with that
  status, code and message; only a message about connecting to Redis is replaced by the hint.\<close>

theorem errorFrom_envelope:
  assumes "msg \<noteq> []"
  shows "errorFrom (error_envelope code msg rid) status
    = Inr \<lparr>err_status = Some status, err_code = JStr code,
        err_message = (if re_test redis_re (to_lower msg) then redis_hint else JStr msg)\<rparr>"
  using assms by (simp add: errorFrom_def error_fields_def error_envelope_def json_or_def js_inj Let_def)

theorem errorFrom_envelope_witness:
  "errorFrom (error_envelope (js ''C'') (js ''m'') JNull) 404
     = Inr \<lparr>err_status = Some 404, err_code = JStr (js ''C''),
         err_message = (if re_test redis_re (to_lower (js ''m'')) then redis_hint else JStr (js ''m''))\<rparr>"
  by (rule errorFrom_envelope) (simp add: js_eval)

text \<open>The body of a request validation error (a list of objects under \<open>detail\<close>) loses all its
  information: the message shown is the text \<open>[object Object]\<close> once per entry.\<close>

theorem errorFrom_validation_detail:
  assumes "\<forall>ps \<in> set entries. js ''toString'' \<notin> fst ` set ps" "entries \<noteq> []"
    and "\<not> re_test redis_re (to_lower (join (js '','') (map (\<lambda>_. js ''[object Object]'') entries)))"
  shows "errorFrom (JObj [(js ''detail'', JArr (map JObj entries))]) 422
    = Inr \<lparr>err_status = Some 422, err_code = JUndef,
        err_message = JStr (join (js '','') (map (\<lambda>_. js ''[object Object]'') entries))\<rparr>"
proof -
  have "seq_results (map (\<lambda>x. if x = JNull \<or> x = JUndef then Inr [] else to_string x) (map JObj entries))
      = Inr (map (\<lambda>_. js ''[object Object]'') entries)"
    using assms(1) by (induction entries) auto
  then have "to_string (JArr (map JObj entries))
      = Inr (join (js '','') (map (\<lambda>_. js ''[object Object]'') entries))" by simp
  then show ?thesis
    using assms(3) by (simp add: errorFrom_def error_fields_def js_inj Let_def del: to_string.simps(6))
qed

theorem errorFrom_validation_detail_witness:
  "errorFrom (JObj [(js ''detail'', JArr [JObj [(js ''msg'', JStr (js ''field required''))]])]) 422
    = Inr \<lparr>err_status = Some 422, err_code = JUndef, err_message = JStr (js ''[object Object]'')\<rparr>"
proof -
  have "\<not> str_includes (js ''[object object]'') (js ''connecting to '')" by (simp add: texts)
  moreover have "to_lower (js ''[object Object]'') = js ''[object object]''"
    by (simp add: to_lower_def ascii_lower_def texts)
  ultimately have "\<not> re_test redis_re (to_lower (js ''[object Object]''))"
    by (auto simp: re_test_iff redis_re_def matches_lit str_includes_iff)
  then show ?thesis
    using errorFrom_validation_detail [of "[[(js ''msg'', JStr (js ''field required''))]]"]
    by (simp add: js_inj)
qed

text \<open>C24: an upload's promise stays pending for ever exactly when the service answers with an error
  status and a body whose error message cannot be converted to a text; every other answer, and the
  loss of the connection, settles it.\<close>

theorem upload_settles_iff:
  "upload_outcome (Response status b) = None \<longleftrightarrow> \<not> ok_status status
     \<and> (let err = jget (jget (body_json b) (js ''Response'')) (js ''Error'') in
        json_truthy err \<and> (\<exists>x. to_string (json_or (jget err (js ''Message'')) (jget err (js ''Code''))) = Inl x))"
proof -
  have "upload_outcome (Response status b) = None
      \<longleftrightarrow> \<not> ok_status status \<and> (\<exists>x. errorFrom (body_json b) status = Inl x)"
    by (auto simp: ok_status_def split: sum.splits)
  then show ?thesis unfolding errorFrom_raises .
qed

end
