(* ===== verification/Verdict.thy ===== *)
theory Verdict
  imports Dom
begin

text \<open>
  The status tables and badges of \<open>app.js\<close> (\<open>STATUS_META\<close> to \<open>badge\<close>) and the
  classification of a checklist item as not conforming, to be confirmed, or conforming
  (\<open>itemVerdict\<close>). The abstract type \<open>verdict\<close>, ordered as \<open>VERDICT_ORDER\<close> lists it, is the
  specification the string code is compared with; \<open>verdict_of\<close> is the back end's own classification
  of the same findings.
\<close>

section \<open>Tables\<close>

record meta =
  label :: jstr
  cls :: jstr

abbreviation meta_row :: "string \<Rightarrow> jstr \<Rightarrow> string \<Rightarrow> jstr \<times> meta" where
  "meta_row k l c \<equiv> (js k, \<lparr>label = l, cls = js c\<rparr>)"

definition STATUS_META :: "meta obj" where
  "STATUS_META = [
     meta_row ''PENDING'' [0x6392, 0x961F, 0x4E2D] ''gray'',
     meta_row ''RUNNING'' [0x6267, 0x884C, 0x4E2D] ''blue'',
     meta_row ''SUCCEEDED'' [0x6210, 0x529F] ''green'',
     meta_row ''FAILED'' [0x5931, 0x8D25] ''red'',
     meta_row ''CANCELED'' [0x5DF2, 0x53D6, 0x6D88] ''gray'',
     meta_row ''EXPIRED'' [0x5DF2, 0x8FC7, 0x671F] ''orange'']"

definition REVIEW_STATUS_META :: "jstr obj" where
  "REVIEW_STATUS_META = [
     (js ''RECEIVED'', [0x5DF2, 0x63A5, 0x6536]),
     (js ''PARSED'', [0x5DF2, 0x89E3, 0x6790]),
     (js ''QUALITY_GATED'', [0x5DF2, 0x8FC7, 0x8D28, 0x91CF, 0x95E8, 0x7981]),
     (js ''INDEXED'', [0x5DF2, 0x5EFA, 0x7D22, 0x5F15]),
     (js ''EXTRACTED'', [0x8981, 0x7D20, 0x5DF2, 0x62BD, 0x53D6]),
     (js ''RULE_CHECKED'', [0x89C4, 0x5219, 0x5DF2, 0x5224, 0x5B9A]),
     (js ''SEMANTIC_REVIEWED'', [0x8BED, 0x4E49, 0x5DF2, 0x5224, 0x5B9A]),
     (js ''HUMAN_REVIEW'', [0x5206, 0x6790, 0x5B8C, 0x6210, 0x0020, 0x00B7, 0x0020, 0x5F85, 0x4EBA, 0x5DE5, 0x590D, 0x6838]),
     (js ''FINALIZED'', [0x5DF2, 0x5B9A, 0x7A3F]),
     (js ''FAILED'', [0x5931, 0x8D25])]"

text \<open>A member of \<open>Object.prototype\<close> that a table read returns is not a text.\<close>

datatype shown = Shown jstr | ProtoMember jstr

definition statusText :: "jstr option \<Rightarrow> shown" where
  "statusText status = (if \<not> truthy status then Shown (js ''-'') else
     case obj_get REVIEW_STATUS_META (the status) of
       Own t \<Rightarrow> Shown t
     | Inherited \<Rightarrow> ProtoMember (the status)
     | Missing \<Rightarrow> (case obj_get STATUS_META (the status) of
         Own m \<Rightarrow> Shown (label m)
       | _ \<Rightarrow> Shown (the status)))"

definition FINDING_META :: "meta obj" where
  "FINDING_META = [
     meta_row ''PASS'' [0x901A, 0x8FC7] ''green'',
     meta_row ''WARN'' [0x8B66, 0x544A] ''yellow'',
     meta_row ''BLOCK'' [0x62E6, 0x622A] ''red'',
     meta_row ''UNKNOWN'' [0x672A, 0x77E5] ''gray'',
     meta_row ''NOT_APPLICABLE'' [0x4E0D, 0x9002, 0x7528] ''gray'']"

definition RISK_META :: "meta obj" where
  "RISK_META = [
     meta_row ''critical'' [0x4E25, 0x91CD] ''red'',
     meta_row ''high'' [0x9AD8] ''orange'',
     meta_row ''medium'' [0x4E2D] ''yellow'',
     meta_row ''low'' [0x4F4E] ''blue'',
     meta_row ''unclassified'' [0x672A, 0x5206, 0x7EA7] ''gray'']"

definition AI_LEVEL_META :: "meta obj" where
  "AI_LEVEL_META = [
     meta_row ''BLOCK'' [0x91CD, 0x5927, 0x98CE, 0x9669] ''red'',
     meta_row ''WARN'' [0x9700, 0x5173, 0x6CE8] ''yellow'',
     meta_row ''INFO'' [0x63D0, 0x793A] ''blue'',
     meta_row ''UNKNOWN'' [0x672A, 0x77E5] ''gray'',
     meta_row ''PASS'' [0x7B26, 0x5408] ''green'',
     meta_row ''NOT_APPLICABLE'' [0x7B26, 0x5408] ''green'']"

definition V_MISMATCH :: jstr where "V_MISMATCH = [0x4E0D, 0x7B26]"
definition V_PENDING :: jstr where "V_PENDING = [0x5F85, 0x786E, 0x8BA4]"
definition V_CONFORM :: jstr where "V_CONFORM = [0x7B26, 0x5408]"

text \<open>\<open>VERDICT_META\<close>: label, class and the risk levels of each verdict.\<close>

definition VERDICT_META :: "(meta \<times> jstr list) obj" where
  "VERDICT_META = [
     (V_MISMATCH, \<lparr>label = V_MISMATCH, cls = js ''red''\<rparr>, [js ''BLOCK'', js ''WARN'']),
     (V_PENDING, \<lparr>label = V_PENDING, cls = js ''gray''\<rparr>, [js ''UNKNOWN'', js ''INFO'']),
     (V_CONFORM, \<lparr>label = V_CONFORM, cls = js ''green''\<rparr>, [js ''PASS'', js ''NOT_APPLICABLE''])]"

definition VERDICT_ORDER :: "jstr list" where
  "VERDICT_ORDER = [V_MISMATCH, V_PENDING, V_CONFORM]"

definition VERDICT_ALIASES :: "jstr obj" where
  "VERDICT_ALIASES = [([0x4E0D, 0x901A, 0x8FC7], V_MISMATCH), ([0x4E0D, 0x6E05, 0x695A], V_PENDING), ([0x901A, 0x8FC7], V_CONFORM)]"

definition badge :: "jstr \<Rightarrow> meta obj \<Rightarrow> 'h node" where
  "badge key table = (case obj_get table key of
     Own m \<Rightarrow> el (js ''span'')
       [(js ''class'', AStr (js ''badge '' @ cls m)), (js ''text'', AStr (label m))] []
   | Inherited \<Rightarrow> el (js ''span'')
       [(js ''class'', AStr (js ''badge undefined'')), (js ''text'', AUndef)] []
   | Missing \<Rightarrow> el (js ''span'')
       [(js ''class'', AStr (js ''badge gray'')), (js ''text'', AStr key)] [])"

section \<open>itemVerdict\<close>

text \<open>
  The three fields of an item that the classification reads. An alias whose key is a member of
  \<open>Object.prototype\<close> has already been returned as the verdict itself by the first test.
\<close>

definition level_verdict :: "jstr option \<Rightarrow> jstr option \<Rightarrow> jstr" where
  "level_verdict risk status =
    (let level = to_upper (str_or risk (str_or status (js ''UNKNOWN''))) in
     if level = js ''PASS'' \<or> level = js ''NOT_APPLICABLE'' then V_CONFORM
     else if level = js ''BLOCK'' \<or> level = js ''WARN'' then V_MISMATCH
     else V_PENDING)"

definition verdict_for :: "jstr option \<Rightarrow> jstr option \<Rightarrow> jstr option \<Rightarrow> jstr" where
  "verdict_for raw risk status =
    (if truthy raw \<and> obj_has VERDICT_META (the raw) then the raw
     else if truthy raw \<and> obj_has VERDICT_ALIASES (the raw) then
       (case obj_get VERDICT_ALIASES (the raw) of Own v \<Rightarrow> v | _ \<Rightarrow> the raw)
     else level_verdict risk status)"

section \<open>The specification\<close>

datatype verdict = Mismatch | Pending | Conform

instantiation verdict :: linorder
begin

fun rank_verdict :: "verdict \<Rightarrow> nat" where
  "rank_verdict Mismatch = 0"
| "rank_verdict Pending = 1"
| "rank_verdict Conform = 2"

definition less_eq_verdict :: "verdict \<Rightarrow> verdict \<Rightarrow> bool" where
  "v \<le> w \<longleftrightarrow> rank_verdict v \<le> rank_verdict w"

definition less_verdict :: "verdict \<Rightarrow> verdict \<Rightarrow> bool" where
  "v < w \<longleftrightarrow> rank_verdict v < rank_verdict w"

instance
proof
  fix v w :: verdict
  show "v \<le> w \<Longrightarrow> w \<le> v \<Longrightarrow> v = w"
    by (cases v; cases w) (auto simp: less_eq_verdict_def)
qed (auto simp: less_eq_verdict_def less_verdict_def)

end

fun verdict_name :: "verdict \<Rightarrow> jstr" where
  "verdict_name Mismatch = V_MISMATCH"
| "verdict_name Pending = V_PENDING"
| "verdict_name Conform = V_CONFORM"

text \<open>The classes of the documented risk levels (\<open>VERDICT_META\<close>'s third column).\<close>

definition spec_verdict :: "jstr \<Rightarrow> verdict" where
  "spec_verdict level =
    (if level \<in> {js ''BLOCK'', js ''WARN''} then Mismatch
     else if level \<in> {js ''PASS'', js ''NOT_APPLICABLE''} then Conform else Pending)"

text \<open>
  The back end's classification (\<open>verdict_of\<close> in \<open>risk_analysis.py\<close>): the finding's risk level,
  or its status, is looked up in the passing and the failing set.
\<close>

definition verdict_of :: "jstr option \<Rightarrow> jstr \<Rightarrow> jstr" where
  "verdict_of risk status =
    (let level = str_or risk status;
         pass = {js ''PASS'', js ''NOT_APPLICABLE''}; fail = {js ''BLOCK'', js ''WARN''} in
     if level \<in> pass \<or> status \<in> pass then V_CONFORM
     else if level \<in> fail \<or> status \<in> fail then V_MISMATCH else V_PENDING)"

definition server_statuses :: "jstr list" where
  "server_statuses = [js ''PASS'', js ''WARN'', js ''BLOCK'', js ''UNKNOWN'', js ''NOT_APPLICABLE'']"

definition server_risks :: "jstr list" where
  "server_risks = map js [''unclassified'', ''low'', ''medium'', ''high'', ''critical'']"

section \<open>Facts\<close>

lemmas verdict_texts = V_MISMATCH_def V_PENDING_def V_CONFORM_def

lemma verdicts_distinct [simp]:
  "V_MISMATCH \<noteq> V_PENDING" "V_MISMATCH \<noteq> V_CONFORM" "V_PENDING \<noteq> V_MISMATCH"
  "V_PENDING \<noteq> V_CONFORM" "V_CONFORM \<noteq> V_MISMATCH" "V_CONFORM \<noteq> V_PENDING"
  by (simp_all add: verdict_texts)

lemma distinct_VERDICT_ORDER [simp]: "distinct VERDICT_ORDER"
  by (simp add: VERDICT_ORDER_def)

lemma set_VERDICT_ORDER: "set VERDICT_ORDER = {V_MISMATCH, V_PENDING, V_CONFORM}"
  by (simp add: VERDICT_ORDER_def)

lemma verdict_name_inj [simp]: "verdict_name v = verdict_name w \<longleftrightarrow> v = w"
  by (cases v; cases w) simp_all

lemma map_of_VERDICT_META: "dom (map_of VERDICT_META) = set VERDICT_ORDER"
  by (auto simp: VERDICT_META_def VERDICT_ORDER_def dom_map_of_conv_image_fst)

lemma verdict_not_proto: "v \<in> set VERDICT_ORDER \<Longrightarrow> v \<notin> set proto_names"
  by (auto simp: VERDICT_ORDER_def verdict_texts proto_names_def texts)

lemma obj_has_VERDICT_META:
  "k \<notin> set proto_names \<Longrightarrow> obj_has VERDICT_META k \<longleftrightarrow> k \<in> set VERDICT_ORDER"
  unfolding map_of_VERDICT_META [symmetric]
  by (auto simp: obj_has_def obj_get_def split: option.splits)

lemma level_verdict_spec:
  "level_verdict risk status
     = verdict_name (spec_verdict (to_upper (str_or risk (str_or status (js ''UNKNOWN'')))))"
  by (simp add: level_verdict_def spec_verdict_def Let_def js_inj)

lemma level_verdict_range: "level_verdict risk status \<in> set VERDICT_ORDER"
  by (simp add: level_verdict_def set_VERDICT_ORDER Let_def)

lemma verdict_for_None [simp]: "verdict_for None risk status = level_verdict risk status"
  by (simp add: verdict_for_def)

lemma verdict_for_fixed: "v \<in> set VERDICT_ORDER \<Longrightarrow> verdict_for (Some v) risk status = v"
  using obj_has_VERDICT_META [of v] verdict_not_proto [of v]
  by (auto simp: verdict_for_def set_VERDICT_ORDER verdict_texts)

lemma aliases_range:
  "map_of VERDICT_ALIASES k = Some v \<Longrightarrow> v \<in> set VERDICT_ORDER"
  by (auto simp: VERDICT_ALIASES_def set_VERDICT_ORDER split: if_splits)

lemma verdict_for_range:
  assumes "raw \<notin> Some ` set proto_names"
  shows "verdict_for raw risk status \<in> set VERDICT_ORDER"
proof (cases raw)
  case None
  then show ?thesis by (simp add: level_verdict_range)
next
  case (Some k)
  then have k: "k \<notin> set proto_names" using assms by auto
  show ?thesis
  proof (cases "obj_get VERDICT_ALIASES k")
    case (Own v)
    then show ?thesis
      using k Some aliases_range [of k v] obj_has_VERDICT_META [OF k]
      by (auto simp: verdict_for_def level_verdict_range obj_get_def split: option.splits)
  next
    case Inherited
    then show ?thesis using k by (auto simp: obj_get_def split: option.splits)
  next
    case Missing
    then show ?thesis
      using k Some obj_has_VERDICT_META [OF k]
      by (auto simp: verdict_for_def level_verdict_range obj_has_def)
  qed
qed

lemma verdict_of_spec:
  assumes "status \<in> set server_statuses" "risk \<in> set server_risks"
  shows "verdict_of (Some risk) status = verdict_name (spec_verdict status)"
  using assms unfolding server_statuses_def server_risks_def
  by (auto simp: verdict_of_def spec_verdict_def js_inj)

end
