(* ===== verification/Grouping.thy ===== *)
theory Grouping
  imports Prelude "HOL-Library.Multiset"
begin

text \<open>
  Two contracts the page's lists rely on, stated as locales: a classifier that sends every item to
  one of a fixed list of columns, and a stable sort by rank. \<open>group_into\<close> is the loop the code
  writes for columns: prepare an empty array per name, then push every item on the array of its
  class; a push on a name that is not there raises.
\<close>

section \<open>Columns\<close>

fun push_to :: "('c \<times> 'a list) list \<Rightarrow> 'c \<Rightarrow> 'a \<Rightarrow> js_error + ('c \<times> 'a list) list" where
  "push_to [] c x = Inl TypeError"
| "push_to ((c', xs) # g) c x =
     (if c' = c then Inr ((c', xs @ [x]) # g) else map_sum id ((#) (c', xs)) (push_to g c x))"

fun push_all :: "('a \<Rightarrow> 'c) \<Rightarrow> 'a list \<Rightarrow> ('c \<times> 'a list) list \<Rightarrow> js_error + ('c \<times> 'a list) list" where
  "push_all f [] g = Inr g"
| "push_all f (x # xs) g = (case push_to g (f x) x of Inl e \<Rightarrow> Inl e | Inr g' \<Rightarrow> push_all f xs g')"

definition group_into :: "'c list \<Rightarrow> ('a \<Rightarrow> 'c) \<Rightarrow> 'a list \<Rightarrow> js_error + ('c \<times> 'a list) list" where
  "group_into names f xs = push_all f xs (map (\<lambda>c. (c, [])) names)"

definition column :: "('c \<times> 'a list) list \<Rightarrow> 'c \<Rightarrow> 'a list" where
  "column g c = (case map_of g c of None \<Rightarrow> [] | Some xs \<Rightarrow> xs)"

lemma push_to_map:
  "distinct cs \<Longrightarrow> f x \<in> set cs \<Longrightarrow>
   push_to (map (\<lambda>c. (c, filter (\<lambda>y. f y = c) xs)) cs) (f x) x
     = Inr (map (\<lambda>c. (c, filter (\<lambda>y. f y = c) (xs @ [x]))) cs)"
  by (induction cs) auto

lemma push_all_map:
  "distinct cs \<Longrightarrow> \<forall>y \<in> set ys. f y \<in> set cs \<Longrightarrow>
   push_all f ys (map (\<lambda>c. (c, filter (\<lambda>y. f y = c) xs)) cs)
     = Inr (map (\<lambda>c. (c, filter (\<lambda>y. f y = c) (xs @ ys))) cs)"
proof (induction ys arbitrary: xs)
  case Nil
  then show ?case by simp
next
  case (Cons y ys)
  then have "push_all f ys (map (\<lambda>c. (c, filter (\<lambda>z. f z = c) (xs @ [y]))) cs)
      = Inr (map (\<lambda>c. (c, filter (\<lambda>z. f z = c) ((xs @ [y]) @ ys))) cs)"
    by (intro Cons.IH) auto
  with Cons.prems push_to_map [of cs f y xs] show ?case by simp
qed

lemma mset_columns:
  assumes "distinct cs" "\<forall>x \<in> set xs. f x \<in> set cs"
  shows "mset (concat (map (\<lambda>c. filter (\<lambda>x. f x = c) xs) cs)) = mset xs"
  using assms
proof (induction cs arbitrary: xs)
  case Nil
  then show ?case by simp
next
  case (Cons c cs)
  let ?ys = "filter (\<lambda>x. f x \<noteq> c) xs"
  have "filter (\<lambda>x. f x = d) ?ys = filter (\<lambda>x. f x = d) xs" if "d \<in> set cs" for d
    using that Cons.prems by (auto simp: filter_filter intro: filter_cong)
  then have "concat (map (\<lambda>d. filter (\<lambda>x. f x = d) ?ys) cs)
      = concat (map (\<lambda>d. filter (\<lambda>x. f x = d) xs) cs)"
    by (intro arg_cong [where f = concat] map_cong) auto
  moreover have "mset (concat (map (\<lambda>d. filter (\<lambda>x. f x = d) ?ys) cs)) = mset ?ys"
    using Cons by (intro Cons.IH) auto
  ultimately show ?case by (simp add: multiset_partition [symmetric])
qed

locale classifier =
  fixes classes :: "'c list" and classify :: "'a \<Rightarrow> 'c" and ok :: "'a \<Rightarrow> bool"
  assumes distinct_classes: "distinct classes"
    and classify_in: "ok x \<Longrightarrow> classify x \<in> set classes"
begin

lemma group_into_eq:
  assumes "\<forall>x \<in> set xs. ok x"
  shows "group_into classes classify xs = Inr (map (\<lambda>c. (c, filter (\<lambda>x. classify x = c) xs)) classes)"
proof -
  have "\<forall>x \<in> set xs. classify x \<in> set classes" using assms classify_in by blast
  from push_all_map [OF distinct_classes this, of "[]"] show ?thesis
    by (simp add: group_into_def)
qed

lemma column_eq:
  assumes "\<forall>x \<in> set xs. ok x" "c \<in> set classes" "group_into classes classify xs = Inr g"
  shows "column g c = filter (\<lambda>x. classify x = c) xs"
  using assms group_into_eq [OF assms(1)]
  by (auto simp: column_def map_of_map_restrict split: option.splits)

lemma columns_partition:
  assumes "\<forall>x \<in> set xs. ok x" "group_into classes classify xs = Inr g"
  shows "map fst g = classes" "mset (concat (map snd g)) = mset xs"
    "(\<Sum>c\<leftarrow>g. length (snd c)) = length xs"
proof -
  have g: "g = map (\<lambda>c. (c, filter (\<lambda>x. classify x = c) xs)) classes"
    using group_into_eq [OF assms(1)] assms(2) by simp
  have range: "\<forall>x \<in> set xs. classify x \<in> set classes" using assms(1) classify_in by blast
  show "map fst g = classes" by (simp add: g comp_def)
  show "mset (concat (map snd g)) = mset xs"
    using mset_columns [OF distinct_classes range] by (simp add: g comp_def)
  show "(\<Sum>c\<leftarrow>g. length (snd c)) = length xs"
    using sum_count_filter [OF distinct_classes range] by (simp add: g comp_def)
qed

end

section \<open>Stable sorting by rank\<close>

locale ranked_sort =
  fixes rank :: "'a \<Rightarrow> int" and sorter :: "'a list \<Rightarrow> 'a list"
  assumes sorter_mset: "mset (sorter xs) = mset xs"
    and sorter_sorted: "sorted_wrt (\<lambda>a b. rank b \<le> rank a) (sorter xs)"
    and sorter_stable: "filter (\<lambda>a. rank a = k) (sorter xs) = filter (\<lambda>a. rank a = k) xs"
begin

lemma sorter_set: "set (sorter xs) = set xs"
  using sorter_mset by (metis set_mset_mset)

lemma sorter_Nil_iff: "sorter xs = [] \<longleftrightarrow> xs = []"
  using sorter_set by (metis set_empty)

lemma hd_is_worst: "x \<in> set xs \<Longrightarrow> rank x \<le> rank (hd (sorter xs))"
proof -
  assume "x \<in> set xs"
  then have x: "x \<in> set (sorter xs)" by (simp add: sorter_set)
  then obtain y ys where s: "sorter xs = y # ys" by (cases "sorter xs") auto
  with x sorter_sorted [of xs] show ?thesis by auto
qed

lemma ordered_pair:
  assumes "i < j" "j < length (sorter xs)"
  shows "rank (sorter xs ! j) \<le> rank (sorter xs ! i)"
  using sorter_sorted [of xs] assms by (simp add: sorted_wrt_iff_nth_less)

end

end
