(* ===== verification/Items.thy ===== *)
theory Items
  imports Complex_Main Verdict Grouping
begin

text \<open>
  The checklist of a review (\<open>reviewItems\<close> and its helpers): every finding of the rule bundle is
  projected to an item, the risk analysis of the model is laid over it by rule id or title, and
  the list is sorted by severity. The records hold the fields of the server's answer that the page
  reads; absent and null fields are None, absent lists are empty.
\<close>

section \<open>Data\<close>

record finding =
  f_finding_id :: jstr
  f_rule_id :: jstr
  f_rule_version :: "jstr option"
  f_status :: "jstr option"
  f_risk_level :: "jstr option"
  f_title :: "jstr option"
  f_reason :: "jstr option"
  f_confidence :: "rat option"
  f_recommended_action :: "jstr option"
  f_clause_ids :: "jstr list"
  f_evidence_ids :: "jstr list"
  f_fact_ids :: "jstr list"

record ai_result =
  a_item_id :: jstr
  a_rule_id :: "jstr option"
  a_title :: "jstr option"
  a_risk_level :: "jstr option"
  a_reason :: "jstr option"
  a_quote :: "jstr option"
  a_module :: "jstr option"
  a_confidence :: "rat option"
  a_evidence_ids :: "jstr list"

record evidence =
  e_evidence_id :: jstr
  e_evidence_type :: "jstr option"
  e_document_id :: "jstr option"
  e_display_excerpt :: "jstr option"
  e_raw_excerpt :: "jstr option"

record fact =
  fact_id :: jstr
  fact_value :: json

record clause =
  clause_id :: jstr
  clause_number :: "jstr option"

record rule =
  rule_id :: jstr
  rule_category :: "jstr option"

record review_result =
  rr_rules :: "rule list"
  rr_findings :: "finding list"
  rr_evidence :: "evidence list"
  rr_facts :: "fact list"
  rr_clauses :: "clause list"
  rr_semantic_rule_ids :: "jstr list"
  rr_risk_items :: "ai_result list"

text \<open>
  An item of the list: the union of what \<open>{...finding, ...}\<close> and \<open>{...item, ...}\<close> carry.
\<close>

record item =
  i_rule_id :: "jstr option"
  i_risk_id :: "jstr option"
  i_status :: "jstr option"
  i_risk_level :: "jstr option"
  i_verdict :: "jstr option"
  i_title :: "jstr option"
  i_reason :: "jstr option"
  i_quote :: "jstr option"
  i_confidence :: "rat option"
  i_suggested_action :: "jstr option"
  i_recommended_action :: "jstr option"
  i_source :: jstr
  i_module :: "jstr option"
  i_category :: "jstr option"
  i_metric :: "jstr option"
  i_value :: "jstr option"
  i_section :: "jstr option"
  i_evidence_ids :: "jstr list"
  i_ai_risk_level :: "jstr option"
  i_ai_reason :: "jstr option"

definition itemVerdict :: "item \<Rightarrow> jstr" where
  "itemVerdict it = verdict_for (i_verdict it) (i_risk_level it) (i_status it)"

section \<open>Severity\<close>

definition severity_table :: "nat obj" where
  "severity_table = [(js ''BLOCK'', 5), (js ''WARN'', 4), (js ''INFO'', 3), (js ''UNKNOWN'', 2),
     (js ''PASS'', 1), (js ''NOT_APPLICABLE'', 1)]"

text \<open>
  The lookup \<open>{...}[status] || 0\<close>. A level that names a member of \<open>Object.prototype\<close> (the
  comparison is NaN then) is outside the model: levels are the server's enumeration.
\<close>

definition findingSeverity :: "jstr option \<Rightarrow> nat" where
  "findingSeverity status = (case map_of severity_table (str_or status []) of
     Some n \<Rightarrow> n | None \<Rightarrow> 0)"

text \<open>\<open>Array.prototype.sort\<close> is stable; the comparison is by falling severity.\<close>

definition sortBySeverity :: "item list \<Rightarrow> item list" where
  "sortBySeverity items = sort_key (\<lambda>it. - int (findingSeverity (i_risk_level it))) items"

section \<open>Projection of a finding\<close>

definition M_INTERNAL :: jstr where "M_INTERNAL = [0x5185, 0x63A7]"
definition M_REASON :: jstr where "M_REASON = [0x5408, 0x7406, 0x6027]"
definition M_RISK :: jstr where "M_RISK = [0x98CE, 0x9669, 0x70B9]"
definition M_CREDIT :: jstr where "M_CREDIT = [0x8D44, 0x4FE1]"

definition reasonable_re :: re where
  "reasonable_re = alts [[0x5408, 0x7406, 0x6027], [0x4FE1, 0x521B], [0x56FD, 0x4EA7, 0x5316], [0x4E91, 0x67B6, 0x6784], [0x6570, 0x636E, 0x6CBB, 0x7406]]"

definition credit_re :: re where
  "credit_re = alts [[0x8D44, 0x4FE1], [0x5F81, 0x4FE1], [0x6CE8, 0x518C, 0x8D44, 0x672C], [0x8BC9, 0x8BBC]]"

definition reviewModule :: "rule option \<Rightarrow> jstr \<Rightarrow> jstr" where
  "reviewModule r text =
    (let category = str_or (Option.bind r rule_category) [] in
     if category = [0x5408, 0x540C, 0x7C7B, 0x578B] \<or> str_includes text [0x5408, 0x540C, 0x7C7B, 0x578B] then M_RISK
     else if starts_with category (js ''Qx'') \<or> re_test reasonable_re text then M_REASON
     else if category \<in> set [[0x8D44, 0x4FE1], [0x5BA2, 0x6237, 0x8D44, 0x4FE1, 0x98CE, 0x9669]] \<or> re_test credit_re text then M_CREDIT
     else M_INTERNAL)"

definition metric_mappings :: "(jstr \<times> re) list" where
  "metric_mappings = [
     ([0x5229, 0x6DA6, 0x7387], alts [[0x5229, 0x6DA6]]),
     ([0x8D44, 0x91D1, 0x8981, 0x6C42], alts [[0x8D44, 0x91D1]]),
     ([0x9879, 0x76EE, 0x9884, 0x7B97], alts [[0x9884, 0x7B97]]),
     ([0x6536, 0x6B3E, 0x8FDB, 0x5EA6], alts [[0x6536, 0x6B3E], [0x8FDB, 0x5EA6]]),
     ([0x5C65, 0x884C, 0x671F, 0x9650], alts [[0x671F, 0x9650], [0x5DE5, 0x671F], [0x7B7E, 0x8BA2, 0x65F6, 0x95F4]]),
     ([0x6743, 0x5C5E, 0x8303, 0x56F4], alts [[0x6743, 0x5C5E], [0x77E5, 0x8BC6, 0x4EA7, 0x6743], [0x6E90, 0x4EE3, 0x7801]]),
     ([0x6CE8, 0x518C, 0x8D44, 0x672C], alts [[0x6CE8, 0x518C, 0x8D44, 0x672C]]),
     ([0x5408, 0x4F5C, 0x5386, 0x53F2], alts [[0x5408, 0x4F5C, 0x5386, 0x53F2]]),
     ([0x5F53, 0x524D, 0x5408, 0x540C], alts [[0x5F53, 0x524D, 0x5408, 0x540C]]),
     ([0x7ECF, 0x8425, 0x72B6, 0x51B5], alts [[0x7ECF, 0x8425, 0x72B6, 0x51B5], [0x7ECF, 0x8425]])]"

definition reviewMetric :: "jstr \<Rightarrow> jstr option" where
  "reviewMetric text = map_option fst (find_js (\<lambda>(_, p). re_test p text) metric_mappings)"

text \<open>
  \<open>Object.fromEntries\<close> followed by reads: the last entry of a key wins. A member of
  \<open>Object.prototype\<close> has none of the fields the searches ask for, so it is never chosen.
\<close>

definition by_id :: "('a \<Rightarrow> jstr) \<Rightarrow> 'a list \<Rightarrow> jstr \<Rightarrow> 'a option" where
  "by_id key xs k = map_of (rev (map (\<lambda>x. (key x, x)) xs)) k"

definition clause_section :: "review_result \<Rightarrow> finding \<Rightarrow> jstr option" where
  "clause_section rr f =
    (case find_js (\<lambda>c. case c of None \<Rightarrow> False | Some c \<Rightarrow> truthy (clause_number c))
       (map (by_id clause_id (rr_clauses rr)) (f_clause_ids f)) of
       Some (Some c) \<Rightarrow> clause_number c | _ \<Rightarrow> None)"

definition usable_evidence :: "evidence \<Rightarrow> bool" where
  "usable_evidence e \<longleftrightarrow> e_evidence_type e \<noteq> Some (js ''missing_artifact'')
     \<and> (truthy (e_display_excerpt e) \<or> truthy (e_raw_excerpt e))"

definition evidence_quote :: "review_result \<Rightarrow> finding \<Rightarrow> jstr option" where
  "evidence_quote rr f =
    (case find_js (\<lambda>e. case e of None \<Rightarrow> False | Some e \<Rightarrow> usable_evidence e)
       (map (by_id e_evidence_id (rr_evidence rr)) (f_evidence_ids f)) of
       Some (Some e) \<Rightarrow> opt_or (e_display_excerpt e) (opt_or (e_raw_excerpt e) None)
     | _ \<Rightarrow> None)"

text \<open>The first fact value that is not absent, null or empty, as text; the conversion may raise.\<close>

definition fact_text :: "review_result \<Rightarrow> finding \<Rightarrow> js_error + jstr option" where
  "fact_text rr f =
    (case find_js (\<lambda>v. v \<noteq> JUndef \<and> v \<noteq> JNull \<and> v \<noteq> JStr [])
       (map (\<lambda>i. case by_id fact_id (rr_facts rr) i of None \<Rightarrow> JUndef | Some x \<Rightarrow> fact_value x)
         (f_fact_ids f)) of
       None \<Rightarrow> Inr None
     | Some v \<Rightarrow> map_sum id (\<lambda>t. opt_or (Some t) None) (to_string v))"

definition finding_text :: "finding \<Rightarrow> jstr" where
  "finding_text f = str_or (f_title f) [] @ [32] @ str_or (f_reason f) []"

definition finding_item :: "finding \<Rightarrow> review_result \<Rightarrow> jstr option \<Rightarrow> item" where
  "finding_item f rr val =
    (let r = find_js (\<lambda>x. rule_id x = f_rule_id f) (rr_rules rr);
         status = str_or (f_status f) (js ''UNKNOWN'');
         text = finding_text f in
     \<lparr>i_rule_id = Some (f_rule_id f), i_risk_id = Some (f_finding_id f), i_status = f_status f,
      i_risk_level = Some status,
      i_verdict = Some (verdict_for None (Some status) (f_status f)),
      i_title = f_title f, i_reason = f_reason f,
      i_quote = evidence_quote rr f, i_confidence = f_confidence f,
      i_suggested_action = f_recommended_action f, i_recommended_action = f_recommended_action f,
      i_source = (if f_rule_id f \<in> set (rr_semantic_rule_ids rr) then js ''ai'' else js ''rule''),
      i_module = Some (reviewModule r text),
      i_category = opt_or (Option.bind r rule_category) None,
      i_metric = reviewMetric text, i_value = val, i_section = clause_section rr f,
      i_evidence_ids = f_evidence_ids f, i_ai_risk_level = None, i_ai_reason = None\<rparr>)"

definition projectReviewFinding :: "finding \<Rightarrow> review_result \<Rightarrow> js_error + item" where
  "projectReviewFinding f rr = map_sum id (finding_item f rr) (fact_text rr f)"

section \<open>Laying the risk analysis over the rules\<close>

definition ai_item :: "ai_result \<Rightarrow> item" where
  "ai_item a =
     \<lparr>i_rule_id = a_rule_id a, i_risk_id = Some (a_item_id a), i_status = None,
      i_risk_level = a_risk_level a,
      i_verdict = Some (verdict_for None (a_risk_level a) None),
      i_title = a_title a, i_reason = a_reason a, i_quote = opt_or (a_quote a) None,
      i_confidence = a_confidence a, i_suggested_action = None, i_recommended_action = None,
      i_source = js ''ai'', i_module = Some (str_or (a_module a) M_RISK), i_category = None,
      i_metric = None, i_value = None, i_section = None, i_evidence_ids = a_evidence_ids a,
      i_ai_risk_level = None, i_ai_reason = None\<rparr>"

text \<open>The \<open>Map\<close> from a title to the id of the first rule that bears it.\<close>

fun title_index :: "item list \<Rightarrow> (jstr \<times> jstr option) list" where
  "title_index [] = []"
| "title_index (it # its) =
    (let t = trim (str_or (i_title it) []) in
     if t = [] then title_index its
     else (t, i_rule_id it) # filter (\<lambda>p. fst p \<noteq> t) (title_index its))"

definition id_key :: "jstr \<Rightarrow> jstr" where
  "id_key r = js ''id:'' @ r"

definition matchKey :: "(jstr \<times> jstr option) list \<Rightarrow> item \<Rightarrow> jstr" where
  "matchKey index it =
    (if truthy (i_rule_id it) then id_key (the (i_rule_id it))
     else let title = trim (str_or (i_title it) []) in
       case map_of index title of
         Some (Some r) \<Rightarrow> if r \<noteq> [] then id_key r else js ''title:'' @ title
       | _ \<Rightarrow> js ''title:'' @ title)"

text \<open>The \<open>Map\<close> of the results waiting for a rule: keys in insertion order, each with its queue.\<close>

type_synonym pending = "(jstr \<times> item list) list"

fun enqueue :: "pending \<Rightarrow> jstr \<Rightarrow> item \<Rightarrow> pending" where
  "enqueue [] k x = [(k, [x])]"
| "enqueue ((k', q) # p) k x = (if k' = k then (k', q @ [x]) # p else (k', q) # enqueue p k x)"

definition pending_of :: "(jstr \<times> jstr option) list \<Rightarrow> item list \<Rightarrow> pending" where
  "pending_of index ais = fold (\<lambda>x p. enqueue p (matchKey index x) x) ais []"

fun dequeue :: "pending \<Rightarrow> jstr \<Rightarrow> (item \<times> pending) option" where
  "dequeue [] k = None"
| "dequeue ((k', q) # p) k =
    (if k' = k then (case q of [] \<Rightarrow> None | x # q' \<Rightarrow> Some (x, if q' = [] then p else (k', q') # p))
     else map_option (\<lambda>(x, p'). (x, (k', q) # p')) (dequeue p k))"

definition overlay :: "item \<Rightarrow> item \<Rightarrow> item" where
  "overlay base ai =
    (let level = opt_or (i_risk_level ai) (i_risk_level base) in
     base\<lparr>i_risk_level := level,
       i_verdict := Some (verdict_for None level None),
       i_reason := opt_or (i_reason ai) (i_reason base),
       i_quote := opt_or (i_quote ai) (i_quote base),
       i_confidence := (if i_confidence ai \<noteq> None then i_confidence ai else i_confidence base),
       i_ai_risk_level := opt_or (i_risk_level ai) None,
       i_ai_reason := opt_or (i_reason ai) None\<rparr>)"

fun merge_rules :: "pending \<Rightarrow> item list \<Rightarrow> item list \<times> pending" where
  "merge_rules p [] = ([], p)"
| "merge_rules p (base # bs) =
    (case dequeue p (id_key (case i_rule_id base of None \<Rightarrow> js ''undefined'' | Some r \<Rightarrow> r)) of
       None \<Rightarrow> (let (ms, p') = merge_rules p bs in (base # ms, p'))
     | Some (ai, p1) \<Rightarrow> (let (ms, p') = merge_rules p1 bs in (overlay base ai # ms, p')))"

definition extras_of :: "pending \<Rightarrow> item list" where
  "extras_of p = concat (map snd p)"

definition merge_items :: "item list \<Rightarrow> item list \<Rightarrow> item list" where
  "merge_items ruleItems aiItems =
    (if aiItems = [] then sortBySeverity ruleItems
     else let (merged, p) = merge_rules (pending_of (title_index ruleItems) aiItems) ruleItems
          in sortBySeverity (merged @ extras_of p))"

definition reviewItems :: "review_result option \<Rightarrow> js_error + item list" where
  "reviewItems rr = (case rr of None \<Rightarrow> Inr []
     | Some r \<Rightarrow> map_sum id (\<lambda>rs. merge_items rs (map ai_item (rr_risk_items r)))
         (seq_results (map (\<lambda>f. projectReviewFinding f r) (rr_findings r))))"

section \<open>The result: every rule once, every model result once, worst first\<close>

lemma mset_sortBySeverity [simp]: "mset (sortBySeverity xs) = mset xs"
  by (simp add: sortBySeverity_def)

interpretation severity: ranked_sort "\<lambda>it. int (findingSeverity (i_risk_level it))" sortBySeverity
proof
  fix xs k
  show "mset (sortBySeverity xs) = mset xs" by simp
  show "sorted_wrt (\<lambda>a b. int (findingSeverity (i_risk_level b)) \<le> int (findingSeverity (i_risk_level a)))
      (sortBySeverity xs)"
    using sorted_sort_key [of "\<lambda>it. - int (findingSeverity (i_risk_level it))" xs]
    unfolding sortBySeverity_def sorted_map by simp
  show "filter (\<lambda>a. int (findingSeverity (i_risk_level a)) = k) (sortBySeverity xs)
      = filter (\<lambda>a. int (findingSeverity (i_risk_level a)) = k) xs"
    using sort_key_stable [of "\<lambda>it. - int (findingSeverity (i_risk_level it))" "- k" xs]
    unfolding sortBySeverity_def by (simp add: eq_commute [of k] minus_equation_iff)
qed

text \<open>What a run of \<open>merge_rules\<close> did: for each rule either nothing or one queued result.\<close>

definition apply_overlay :: "item \<Rightarrow> item option \<Rightarrow> item" where
  "apply_overlay b u = (case u of None \<Rightarrow> b | Some a \<Rightarrow> overlay b a)"

lemma dequeue_mset:
  "dequeue p k = Some (x, p') \<Longrightarrow> mset (extras_of p) = add_mset x (mset (extras_of p'))"
proof (induction p arbitrary: p')
  case Nil
  then show ?case by simp
next
  case (Cons e p)
  then show ?case
    by (cases e) (auto simp: extras_of_def split: if_splits list.splits)
qed

lemma merge_rules_overlay:
  "merge_rules p bs = (ms, p') \<Longrightarrow>
   \<exists>us. length us = length bs \<and> ms = map2 apply_overlay bs us
     \<and> mset (extras_of p) = mset (concat (map (case_option [] (\<lambda>a. [a])) us)) + mset (extras_of p')"
proof (induction bs arbitrary: p ms)
  case Nil
  then show ?case by simp
next
  case (Cons b bs)
  define k where "k = id_key (case i_rule_id b of None \<Rightarrow> js ''undefined'' | Some r \<Rightarrow> r)"
  show ?case
  proof (cases "dequeue p k")
    case None
    with Cons.prems obtain ms0 where m: "merge_rules p bs = (ms0, p')" "ms = b # ms0"
      by (auto simp: k_def split: prod.splits)
    from Cons.IH [OF m(1)] obtain us where "length us = length bs" "ms0 = map2 apply_overlay bs us"
      "mset (extras_of p) = mset (concat (map (case_option [] (\<lambda>a. [a])) us)) + mset (extras_of p')"
      by blast
    with m show ?thesis by (intro exI [of _ "None # us"]) (simp add: apply_overlay_def)
  next
    case (Some xp)
    obtain x p1 where xp: "xp = (x, p1)" by (cases xp)
    with Some Cons.prems obtain ms0 where m: "merge_rules p1 bs = (ms0, p')" "ms = overlay b x # ms0"
      by (auto simp: k_def split: prod.splits)
    from Cons.IH [OF m(1)] obtain us where "length us = length bs" "ms0 = map2 apply_overlay bs us"
      "mset (extras_of p1) = mset (concat (map (case_option [] (\<lambda>a. [a])) us)) + mset (extras_of p')"
      by blast
    with m dequeue_mset [OF Some [unfolded xp]] show ?thesis
      by (intro exI [of _ "Some x # us"]) (simp add: apply_overlay_def)
  qed
qed

lemma enqueue_mset: "mset (extras_of (enqueue p k x)) = add_mset x (mset (extras_of p))"
  by (induction p k x rule: enqueue.induct) (simp_all add: extras_of_def)

lemma pending_of_mset: "mset (extras_of (pending_of index ais)) = mset ais"
proof -
  have "mset (extras_of (fold (\<lambda>x p. enqueue p (matchKey index x) x) ais p))
      = mset ais + mset (extras_of p)" for p
    by (induction ais arbitrary: p) (simp_all add: enqueue_mset)
  then show ?thesis by (simp add: pending_of_def extras_of_def)
qed

lemma merge_items_overlay:
  "\<exists>us ex. length us = length rs \<and> mset (merge_items rs ais) = mset (map2 apply_overlay rs us) + mset ex
     \<and> mset ais = mset (concat (map (case_option [] (\<lambda>a. [a])) us)) + mset ex"
proof (cases "ais = []")
  case True
  have "map2 apply_overlay rs (replicate (length rs) None) = rs"
    by (induction rs) (simp_all add: apply_overlay_def)
  then show ?thesis
    using True by (intro exI [of _ "replicate (length rs) None"] exI [of _ "[]"])
      (simp add: merge_items_def map_replicate_const)
next
  case False
  obtain ms p where m: "merge_rules (pending_of (title_index rs) ais) rs = (ms, p)"
    by (cases "merge_rules (pending_of (title_index rs) ais) rs")
  from merge_rules_overlay [OF m] obtain us where
    "length us = length rs" "ms = map2 apply_overlay rs us"
    "mset ais = mset (concat (map (case_option [] (\<lambda>a. [a])) us)) + mset (extras_of p)"
    by (auto simp: pending_of_mset)
  with False m show ?thesis
    by (intro exI [of _ us] exI [of _ "extras_of p"]) (simp add: merge_items_def)
qed

lemma seq_results_Inr: "seq_results ys = Inr xs \<Longrightarrow> ys = map Inr xs"
proof (induction ys arbitrary: xs rule: seq_results.induct)
  case (3 x ys)
  then show ?case by (cases "seq_results ys") auto
qed auto

lemma seq_results_map_Inr [simp]: "seq_results (map (\<lambda>x. Inr (g x)) xs) = Inr (map g xs)"
  by (induction xs) auto

lemma project_Inr:
  "projectReviewFinding f rr = Inr it \<longleftrightarrow> (\<exists>v. fact_text rr f = Inr v \<and> it = finding_item f rr v)"
  by (cases "fact_text rr f") (auto simp: projectReviewFinding_def)

lemma reviewItems_Inr:
  "reviewItems (Some r) = Inr its \<Longrightarrow> \<exists>vs. length vs = length (rr_findings r)
     \<and> its = merge_items (map2 (\<lambda>f v. finding_item f r v) (rr_findings r) vs) (map ai_item (rr_risk_items r))"
proof -
  assume "reviewItems (Some r) = Inr its"
  then obtain rs where rs: "seq_results (map (\<lambda>f. projectReviewFinding f r) (rr_findings r)) = Inr rs"
    and its: "its = merge_items rs (map ai_item (rr_risk_items r))"
    by (cases "seq_results (map (\<lambda>f. projectReviewFinding f r) (rr_findings r))")
      (auto simp: reviewItems_def)
  have eq: "map (\<lambda>f. projectReviewFinding f r) (rr_findings r) = map Inr rs"
    using seq_results_Inr [OF rs] .
  have "\<exists>vs. length vs = length fs \<and> rs = map2 (\<lambda>f v. finding_item f r v) fs vs"
    if "map (\<lambda>f. projectReviewFinding f r) fs = map Inr rs" for fs rs
    using that
  proof (induction fs arbitrary: rs)
    case (Cons f fs)
    then obtain x xs where x: "rs = x # xs" "projectReviewFinding f r = Inr x"
      and "map (\<lambda>f. projectReviewFinding f r) fs = map Inr xs" by (cases rs) auto
    from Cons.IH [OF this(3)] obtain vs where
      "length vs = length fs" "xs = map2 (\<lambda>f v. finding_item f r v) fs vs" by blast
    moreover from x(2) obtain v where "x = finding_item f r v" by (auto simp: project_Inr)
    ultimately show ?case using x(1) by (intro exI [of _ "v # vs"]) simp
  qed auto
  from this [OF eq] its show ?thesis by blast
qed

lemma overlay_fields [simp]:
  "i_rule_id (apply_overlay b u) = i_rule_id b" "i_risk_id (apply_overlay b u) = i_risk_id b"
  "i_category (apply_overlay b u) = i_category b" "i_section (apply_overlay b u) = i_section b"
  "i_module (apply_overlay b u) = i_module b" "i_title (apply_overlay b u) = i_title b"
  "i_status (apply_overlay b u) = i_status b" "i_source (apply_overlay b u) = i_source b"
  by (auto simp: apply_overlay_def overlay_def Let_def split: option.splits)

lemma finding_item_fields [simp]:
  "i_rule_id (finding_item f rr v) = Some (f_rule_id f)"
  "i_risk_id (finding_item f rr v) = Some (f_finding_id f)"
  "i_status (finding_item f rr v) = f_status f"
  "i_title (finding_item f rr v) = f_title f"
  "i_risk_level (finding_item f rr v) = Some (str_or (f_status f) (js ''UNKNOWN''))"
  by (simp_all add: finding_item_def Let_def)

text \<open>A queue only holds results whose key is the queue's.\<close>

definition keyed :: "(item \<Rightarrow> jstr) \<Rightarrow> pending \<Rightarrow> bool" where
  "keyed key p \<longleftrightarrow> (\<forall>(k, q) \<in> set p. \<forall>x \<in> set q. key x = k)"

definition rule_key :: "item \<Rightarrow> jstr" where
  "rule_key b = id_key (case i_rule_id b of None \<Rightarrow> js ''undefined'' | Some r \<Rightarrow> r)"

lemma keyed_simps [simp]:
  "keyed key []" "keyed key ((k, q) # p) \<longleftrightarrow> (\<forall>x \<in> set q. key x = k) \<and> keyed key p"
  by (simp_all add: keyed_def)

lemma keyed_enqueue: "keyed key p \<Longrightarrow> keyed key (enqueue p (key x) x)"
  by (induction p "key x" x rule: enqueue.induct) auto

lemma keyed_pending: "keyed (matchKey index) (pending_of index ais)"
proof -
  have "keyed (matchKey index) (fold (\<lambda>x p. enqueue p (matchKey index x) x) ais p)"
    if "keyed (matchKey index) p" for p
    using that by (induction ais arbitrary: p) (simp_all add: keyed_enqueue)
  then show ?thesis by (simp add: pending_of_def)
qed

lemma keyed_dequeue: "keyed key p \<Longrightarrow> dequeue p k = Some (x, p') \<Longrightarrow> key x = k \<and> keyed key p'"
proof (induction p arbitrary: p')
  case Nil
  then show ?case by simp
next
  case (Cons e p)
  then show ?case
    by (cases e) (auto split: if_splits list.splits)
qed

lemma dequeue_set:
  "dequeue p k = Some (x, p') \<Longrightarrow> set (extras_of p) = insert x (set (extras_of p'))"
  using dequeue_mset [of p k x p'] by (metis set_mset_add_mset_insert set_mset_mset)

lemma merge_rules_keyed:
  "merge_rules p bs = (ms, p') \<Longrightarrow> keyed key p \<Longrightarrow>
   \<forall>m \<in> set ms. m \<in> set bs \<or> (\<exists>b \<in> set bs. \<exists>a \<in> set (extras_of p). m = overlay b a \<and> key a = rule_key b)"
proof (induction bs arbitrary: p ms)
  case Nil
  then show ?case by simp
next
  case (Cons b bs)
  show ?case
  proof (cases "dequeue p (rule_key b)")
    case None
    with Cons.prems obtain ms0 where "merge_rules p bs = (ms0, p')" "ms = b # ms0"
      by (auto simp: rule_key_def split: prod.splits)
    with Cons.IH [of p ms0] Cons.prems(2) show ?thesis by auto
  next
    case (Some xp)
    obtain x p1 where xp: "xp = (x, p1)" by (cases xp)
    with Some Cons.prems obtain ms0 where "merge_rules p1 bs = (ms0, p')" "ms = overlay b x # ms0"
      by (auto simp: rule_key_def split: prod.splits)
    moreover have "key x = rule_key b" "keyed key p1"
      using keyed_dequeue [OF Cons.prems(2) Some [unfolded xp]] by auto
    ultimately show ?thesis
      using Cons.IH [of p1 ms0] dequeue_set [OF Some [unfolded xp]] by fastforce
  qed
qed

text \<open>Every item of the list, wherever it came from, carries the verdict of its own risk level.\<close>

definition consistent :: "item \<Rightarrow> bool" where
  "consistent it \<longleftrightarrow> i_verdict it
     = Some (verdict_name (spec_verdict (to_upper (str_or (i_risk_level it) (js ''UNKNOWN'')))))"

lemma str_or_ne: "d \<noteq> [] \<Longrightarrow> str_or x d \<noteq> []"
  by (cases x) auto

lemma consistent_finding_item: "consistent (finding_item f rr v)"
  by (simp add: consistent_def finding_item_def level_verdict_spec Let_def str_or_ne js_def)

lemma consistent_ai_item: "consistent (ai_item a)"
  by (simp add: consistent_def ai_item_def level_verdict_spec)

lemma consistent_overlay: "consistent (overlay b a)"
  by (simp add: consistent_def overlay_def level_verdict_spec Let_def)

lemma consistent_apply: "consistent b \<Longrightarrow> consistent (apply_overlay b u)"
  by (simp add: apply_overlay_def consistent_overlay split: option.splits)

lemma verdict_name_range: "verdict_name v \<in> set VERDICT_ORDER"
  by (cases v) (simp_all add: set_VERDICT_ORDER)

lemma itemVerdict_consistent:
  "consistent it \<Longrightarrow> itemVerdict it
     = verdict_name (spec_verdict (to_upper (str_or (i_risk_level it) (js ''UNKNOWN''))))"
  by (simp add: itemVerdict_def consistent_def verdict_for_fixed verdict_name_range)

lemma set_map2_subset: "set (map2 g xs ys) \<subseteq> (\<Union>x \<in> set xs. range (g x))"
  by (auto dest: set_zip_leftD)

lemma merge_items_all:
  assumes "\<forall>b \<in> set rs. consistent b" "\<forall>a \<in> set ais. consistent a" "it \<in> set (merge_items rs ais)"
  shows "consistent it"
proof -
  obtain us ex where "length us = length rs"
    and m: "mset (merge_items rs ais) = mset (map2 apply_overlay rs us) + mset ex"
    and a: "mset ais = mset (concat (map (case_option [] (\<lambda>a. [a])) us)) + mset ex"
    using merge_items_overlay by blast
  have "it \<in> set (map2 apply_overlay rs us) \<or> it \<in> set ex"
    using assms(3) m by (metis Un_iff set_mset_mset set_mset_union)
  moreover have "set ex \<subseteq> set ais" using a by (metis Un_iff set_mset_mset set_mset_union subsetI)
  ultimately show ?thesis
    using assms(1,2) set_map2_subset [of apply_overlay rs us] by (auto simp: consistent_apply)
qed

lemma reviewItems_consistent:
  assumes "reviewItems (Some r) = Inr its" "it \<in> set its"
  shows "consistent it"
proof -
  obtain vs where "its = merge_items (map2 (\<lambda>f v. finding_item f r v) (rr_findings r) vs)
      (map ai_item (rr_risk_items r))"
    using reviewItems_Inr [OF assms(1)] by blast
  moreover have "\<forall>b \<in> set (map2 (\<lambda>f v. finding_item f r v) (rr_findings r) vs). consistent b"
    by (auto simp: consistent_finding_item)
  moreover have "\<forall>a \<in> set (map ai_item (rr_risk_items r)). consistent a"
    by (simp add: consistent_ai_item)
  ultimately show ?thesis using merge_items_all assms(2) by blast
qed

section \<open>A small review, for evaluation\<close>

definition demo_finding :: "string \<Rightarrow> string \<Rightarrow> finding" where
  "demo_finding i st =
     \<lparr>f_finding_id = js (CHR ''F'' # i), f_rule_id = js (CHR ''R'' # i), f_rule_version = None,
      f_status = Some (js st), f_risk_level = Some (js ''medium''), f_title = Some (js (CHR ''T'' # i)),
      f_reason = Some (js ''why''), f_confidence = None, f_recommended_action = None,
      f_clause_ids = [], f_evidence_ids = [], f_fact_ids = []\<rparr>"

definition demo_ai :: "string option \<Rightarrow> string \<Rightarrow> string \<Rightarrow> ai_result" where
  "demo_ai rid title level =
     \<lparr>a_item_id = js ''A1'', a_rule_id = map_option js rid, a_title = Some (js title),
      a_risk_level = Some (js level), a_reason = Some (js ''because''), a_quote = None,
      a_module = None, a_confidence = None, a_evidence_ids = []\<rparr>"

definition demo_review :: review_result where
  "demo_review =
     \<lparr>rr_rules = [], rr_findings = [demo_finding ''1'' ''PASS'', demo_finding ''2'' ''UNKNOWN''],
      rr_evidence = [], rr_facts = [], rr_clauses = [], rr_semantic_rule_ids = [],
      rr_risk_items = [demo_ai (Some ''R2'') ''other'' ''BLOCK'', demo_ai None ''T1'' ''WARN'',
        demo_ai None ''new'' ''INFO'']\<rparr>"

definition demo_items :: "item list" where
  "demo_items = projr (reviewItems (Some demo_review))"

lemmas demo_defs = demo_review_def demo_finding_def demo_ai_def reviewItems_def
  projectReviewFinding_def fact_text_def finding_item_def reviewMetric_def metric_mappings_def
  reviewModule_def reasonable_re_def credit_re_def evidence_quote_def clause_section_def
  finding_text_def verdict_for_def level_verdict_def to_upper_def ascii_upper_def

lemma demo_run: "reviewItems (Some demo_review) = Inr demo_items"
proof -
  have "\<exists>its. reviewItems (Some demo_review) = Inr its" by (simp add: demo_defs)
  then show ?thesis by (auto simp: demo_items_def)
qed

lemma demo_items_levels:
  "map i_risk_level demo_items = map (Some \<circ> js) [''BLOCK'', ''WARN'', ''INFO'']"
  by (simp add: demo_items_def demo_defs merge_items_def title_index.simps texts js_space_def
      trim_def matchKey_def id_key_def pending_of_def ai_item_def extras_of_def sortBySeverity_def
      findingSeverity_def severity_table_def overlay_def Let_def)

section \<open>Properties\<close>

text \<open>C1: the list shows every finding of the review exactly once, with the rule, id, title and status the
  engine gave it, and every result of the model exactly once: either laid over one finding or appended.
  Nothing is lost or shown twice. (Rules of the bundle for which the engine made no finding, as in a
  review limited to a scope, are not in the list.)\<close>

theorem reviewItems_conserves:
  assumes "reviewItems (Some r) = Inr its"
  shows "\<exists>bs us ex. length bs = length (rr_findings r) \<and> length us = length bs
    \<and> list_all2 (\<lambda>f b. \<exists>v. b = finding_item f r v) (rr_findings r) bs
    \<and> mset its = mset (map2 apply_overlay bs us) + mset ex
    \<and> mset (map ai_item (rr_risk_items r)) = mset (concat (map (case_option [] (\<lambda>a. [a])) us)) + mset ex
    \<and> map i_rule_id (map2 apply_overlay bs us) = map (Some \<circ> f_rule_id) (rr_findings r)
    \<and> map i_risk_id (map2 apply_overlay bs us) = map (Some \<circ> f_finding_id) (rr_findings r)
    \<and> map i_title (map2 apply_overlay bs us) = map f_title (rr_findings r)
    \<and> map i_status (map2 apply_overlay bs us) = map f_status (rr_findings r)
    \<and> length its = length (rr_findings r) + length ex"
proof -
  obtain vs where vs: "length vs = length (rr_findings r)"
    and its: "its = merge_items (map2 (\<lambda>f v. finding_item f r v) (rr_findings r) vs)
      (map ai_item (rr_risk_items r))"
    using reviewItems_Inr [OF assms] by blast
  define bs where "bs = map2 (\<lambda>f v. finding_item f r v) (rr_findings r) vs"
  have bs: "length bs = length (rr_findings r)" by (simp add: bs_def vs)
  have proj: "list_all2 (\<lambda>f b. \<exists>v. b = finding_item f r v) (rr_findings r) bs"
    using vs by (auto simp: bs_def list_all2_conv_all_nth)
  obtain us ex where us: "length us = length bs"
    and m: "mset its = mset (map2 apply_overlay bs us) + mset ex"
    and a: "mset (map ai_item (rr_risk_items r))
      = mset (concat (map (case_option [] (\<lambda>a. [a])) us)) + mset ex"
    using merge_items_overlay [of bs] its unfolding bs_def by blast
  have fields: "map i_rule_id (map2 apply_overlay bs us) = map (Some \<circ> f_rule_id) (rr_findings r)"
    "map i_risk_id (map2 apply_overlay bs us) = map (Some \<circ> f_finding_id) (rr_findings r)"
    "map i_title (map2 apply_overlay bs us) = map f_title (rr_findings r)"
    "map i_status (map2 apply_overlay bs us) = map f_status (rr_findings r)"
    using us bs vs by (auto simp: bs_def intro!: nth_equalityI)
  have "length its = length (rr_findings r) + length ex"
    using arg_cong [OF m, of size] us bs by simp
  with bs us proj m a fields show ?thesis by blast
qed

theorem reviewItems_conserves_witness:
  "length demo_items = 3 \<and> (\<exists>ex. length demo_items = length (rr_findings demo_review) + length ex
     \<and> mset ex \<subseteq># mset (map ai_item (rr_risk_items demo_review)))"
proof -
  have "length (map i_risk_level demo_items) = 3" unfolding demo_items_levels by simp
  then show ?thesis using reviewItems_conserves [OF demo_run] by fastforce
qed

text \<open>C31: a result of the model changes the item of a rule only if its key, the rule id it names or
  the rule whose title it repeats, is that rule's; every other rule keeps the deterministic result.\<close>

theorem overlay_only_on_own_rule:
  assumes "merge_rules (pending_of (title_index rs) ais) rs = (ms, p)" and "m \<in> set ms"
  shows "m \<in> set rs \<or> (\<exists>b \<in> set rs. \<exists>a \<in> set ais. m = overlay b a
    \<and> matchKey (title_index rs) a = rule_key b)"
proof -
  have "set (extras_of (pending_of (title_index rs) ais)) = set ais"
    by (metis pending_of_mset set_mset_mset)
  with merge_rules_keyed [OF assms(1) keyed_pending] assms(2) show ?thesis by auto
qed

theorem overlay_only_on_own_rule_witness:
  "let b = finding_item (demo_finding ''2'' ''UNKNOWN'') demo_review None;
       a = ai_item (demo_ai (Some ''R2'') ''other'' ''BLOCK'') in
   overlay b a \<in> set [b] \<or> matchKey (title_index [b]) a = rule_key b"
proof -
  define b where "b = finding_item (demo_finding ''2'' ''UNKNOWN'') demo_review None"
  define a where "a = ai_item (demo_ai (Some ''R2'') ''other'' ''BLOCK'')"
  have "matchKey ix a = id_key (js ''R2'')" for ix
    by (simp add: a_def ai_item_def demo_ai_def matchKey_def texts)
  moreover have "i_rule_id b = Some (js ''R2'')" by (simp add: b_def demo_finding_def)
  ultimately have "merge_rules (pending_of (title_index [b]) [a]) [b] = ([overlay b a], [])"
    by (simp add: pending_of_def)
  from overlay_only_on_own_rule [OF this, of "overlay b a"] show ?thesis
    by (auto simp: b_def a_def)
qed

text \<open>The list is sorted by falling severity, and items of equal severity stay in the order in
  which they were put together, so the first row is the worst one.\<close>

theorem reviewItems_sorted:
  assumes "reviewItems (Some r) = Inr its" "i < j" "j < length its"
  shows "findingSeverity (i_risk_level (its ! j)) \<le> findingSeverity (i_risk_level (its ! i))"
proof -
  obtain ys where "its = sortBySeverity ys"
    using reviewItems_Inr [OF assms(1)] by (auto simp: merge_items_def split: if_splits prod.splits)
  with severity.ordered_pair [of i j ys] assms(2,3) show ?thesis by simp
qed

theorem reviewItems_sorted_witness:
  "findingSeverity (i_risk_level (demo_items ! 2)) \<le> findingSeverity (i_risk_level (demo_items ! 0))"
proof -
  have "length (map i_risk_level demo_items) = 3" unfolding demo_items_levels by simp
  then show ?thesis using reviewItems_sorted [OF demo_run, of 0 2] by simp
qed

text \<open>C6: the verdict shown for an item is always the class of the risk level shown with it, also
  where the model's level replaced the rule's: no stale verdict survives the overlay.\<close>

theorem reviewItems_verdicts:
  assumes "reviewItems (Some r) = Inr its" "it \<in> set its"
  shows "itemVerdict it
    = verdict_name (spec_verdict (to_upper (str_or (i_risk_level it) (js ''UNKNOWN''))))"
  using reviewItems_consistent [OF assms] by (rule itemVerdict_consistent)

theorem reviewItems_verdicts_witness:
  "itemVerdict (hd demo_items)
     = verdict_name (spec_verdict (to_upper (str_or (i_risk_level (hd demo_items)) (js ''UNKNOWN''))))"
proof -
  have "length (map i_risk_level demo_items) = 3" unfolding demo_items_levels by simp
  then have "hd demo_items \<in> set demo_items" by (intro hd_in_set) auto
  then show ?thesis by (rule reviewItems_verdicts [OF demo_run])
qed

text \<open>C7: for a finding with the server's statuses and risk levels, the page's verdict is the one the
  back end computes for the same finding.\<close>

theorem finding_verdict_agrees_with_server:
  assumes "f_status f = Some status" "status \<in> set server_statuses"
    and "f_risk_level f = Some risk" "risk \<in> set server_risks"
  shows "itemVerdict (finding_item f rr v) = verdict_of (f_risk_level f) status"
proof -
  have st: "status \<noteq> [] \<and> to_upper status = status"
    using assms(2) by (auto simp: server_statuses_def to_upper_def ascii_upper_def texts)
  have "itemVerdict (finding_item f rr v) = verdict_name (spec_verdict status)"
    using itemVerdict_consistent [OF consistent_finding_item, of f rr v] assms(1) st by simp
  with verdict_of_spec [OF assms(2,4)] assms(3) show ?thesis by simp
qed

theorem finding_verdict_agrees_with_server_witness:
  "itemVerdict (finding_item (demo_finding ''1'' ''PASS'') demo_review None)
     = verdict_of (Some (js ''medium'')) (js ''PASS'')"
  using finding_verdict_agrees_with_server
    [of "demo_finding ''1'' ''PASS''" "js ''PASS''" "js ''medium''" demo_review None]
  by (simp add: demo_finding_def server_statuses_def server_risks_def)

end
