(* ===== verification/AppState.thy ===== *)
theory AppState
  imports ApiClient Format
begin

text \<open>
  The page's module-level state (\<open>reviewState\<close>, \<open>compareState\<close>, \<open>elementsState\<close>,
  \<open>currentPage\<close>) and what its handlers do to the outside: messages, requests, buttons, and the
  parts of the page they redraw. A handler returns the new state and its effects in order. An
  asynchronous handler is cut at every \<open>await\<close>: the part before it ends in the request, the part
  after it takes the settled outcome.
\<close>

section \<open>Files\<close>

text \<open>A \<open>File\<close>; \<open>fblob\<close> stands for the identity of the object.\<close>

record jsfile =
  fname :: jstr
  fsize :: nat
  flastModified :: int
  ftype :: jstr
  fblob :: nat

datatype formval = FFile jsfile | FText jstr | FBlob json jstr

text \<open>What an event handler reads from the host: the clock and \<open>Math.random().toString(36)\<close>.\<close>

record env =
  now :: datetime
  rnd :: jstr

definition fresh_id :: "env \<Rightarrow> jstr" where
  "fresh_id e = newPackageId (now e) (rnd e)"

section \<open>State\<close>

record review_state =
  files :: "jsfile list"
  packageId :: jstr
  contractType :: jstr
  partyPosition :: jstr
  jurisdiction :: jstr
  transactionContext :: jstr
  reviewScope :: jstr
  result :: json

record compare_state =
  baseFile :: "jsfile option"
  compareFile :: "jsfile option"
  compareResult :: json
  compareOptions :: "jstr \<Rightarrow> bool"

text \<open>\<open>previewUrl\<close> is an object URL; URLs are numbered in the order the browser hands them out.\<close>

record elements_state =
  elFiles :: "jsfile list"
  elPackageId :: jstr
  elForm :: json
  elCatalog :: json
  elOverrides :: "json obj"
  previewUrl :: "nat option"
  previewHtml :: jstr
  previewText :: jstr
  previewKind :: jstr
  previewMessage :: jstr

record app =
  review :: review_state
  compare :: compare_state
  elements :: elements_state
  currentPage :: "jstr option"
  client_of :: client

definition init_review :: "env \<Rightarrow> review_state" where
  "init_review e = \<lparr>files = [], packageId = fresh_id e, contractType = [], partyPosition = [],
     jurisdiction = [], transactionContext = [], reviewScope = [], result = JNull\<rparr>"

definition init_compare :: compare_state where
  "init_compare = \<lparr>baseFile = None, compareFile = None, compareResult = JNull,
     compareOptions = (\<lambda>_. False)\<rparr>"

definition init_elements :: "env \<Rightarrow> elements_state" where
  "init_elements e = \<lparr>elFiles = [], elPackageId = fresh_id e, elForm = JNull, elCatalog = JNull,
     elOverrides = [], previewUrl = None, previewHtml = [], previewText = [], previewKind = [],
     previewMessage = []\<rparr>"

definition init_app :: "env \<Rightarrow> app" where
  "init_app e = \<lparr>review = init_review e, compare = init_compare, elements = init_elements e,
     currentPage = None, client_of = init_client\<rparr>"

section \<open>Effects\<close>

datatype toast_kind = Ok | Warn | Err

text \<open>What a part of the page shows after being redrawn.\<close>

datatype view =
    VEmpty
  | VProgress
  | VFiles "jsfile list"
  | VReview json
  | VCompare json
  | VForm
  | VStart
  | VError jstr
  | VCredit json
  | VPreview

datatype effect =
    Toast jstr toast_kind
  | Send "formval request"
  | Disable jstr bool
  | Draw jstr view
  | ModalOpen jstr
  | ModalClose
  | Navigate jstr
  | CreateUrl nat
  | RevokeUrl nat
  | AppendView jstr view
  | FieldValue jstr jstr
  | OpenTask json
  | SaveFile nat jstr
  | Clipboard jstr

text \<open>Whether a button is disabled after the effects.\<close>

fun disabled_after :: "jstr \<Rightarrow> effect list \<Rightarrow> bool \<Rightarrow> bool" where
  "disabled_after b [] d = d"
| "disabled_after b (Disable b' v # es) d = disabled_after b es (if b' = b then v else d)"
| "disabled_after b (_ # es) d = disabled_after b es d"

lemma disabled_after_append [simp]:
  "disabled_after b (es @ fs) d = disabled_after b fs (disabled_after b es d)"
  by (induction b es d rule: disabled_after.induct) auto

definition requests_in :: "effect list \<Rightarrow> formval request list" where
  "requests_in es = concat (map (\<lambda>e. case e of Send r \<Rightarrow> [r] | _ \<Rightarrow> []) es)"

lemma requests_in_simps [simp]:
  "requests_in [] = []"
  "requests_in (e # es) = (case e of Send r \<Rightarrow> [r] | _ \<Rightarrow> []) @ requests_in es"
  "requests_in (es @ fs) = requests_in es @ requests_in fs"
  by (simp_all add: requests_in_def)

text \<open>
  A click and the answer to its upload, with nothing in between: the handler's start, and its
  continuation when the promise settles (\<open>upload_outcome\<close>).
\<close>

definition run_upload ::
    "('s \<Rightarrow> 's \<times> effect list) \<Rightarrow> (outcome \<Rightarrow> 's \<Rightarrow> 's \<times> effect list) \<Rightarrow> response \<Rightarrow> 's
     \<Rightarrow> 's \<times> effect list" where
  "run_upload start finish r s =
    (let (s1, es1) = start s in
     if requests_in es1 = [] then (s1, es1)
     else case upload_outcome r of
       None \<Rightarrow> (s1, es1)
     | Some out \<Rightarrow> let (s2, es2) = finish out s1 in (s2, es1 @ es2))"

text \<open>What a box of the page shows after the effects, given what it showed before.\<close>

fun shown_in :: "jstr \<Rightarrow> effect list \<Rightarrow> view list \<Rightarrow> view list" where
  "shown_in b [] vs = vs"
| "shown_in b (Draw b' v # es) vs = shown_in b es (if b' = b then (if v = VEmpty then [] else [v]) else vs)"
| "shown_in b (AppendView b' v # es) vs = shown_in b es (if b' = b then vs @ [v] else vs)"
| "shown_in b (_ # es) vs = shown_in b es vs"

text \<open>The object URLs that are alive after the effects.\<close>

fun live_urls :: "effect list \<Rightarrow> nat set \<Rightarrow> nat set" where
  "live_urls [] L = L"
| "live_urls (CreateUrl u # es) L = live_urls es (insert u L)"
| "live_urls (RevokeUrl u # es) L = live_urls es (L - {u})"
| "live_urls (_ # es) L = live_urls es L"

lemma live_urls_append [simp]: "live_urls (es @ fs) L = live_urls fs (live_urls es L)"
  by (induction es L rule: live_urls.induct) auto

section \<open>The contract of a button that waits\<close>

text \<open>
  A handler behind a button either declines (it leaves the button alone and sends nothing) or
  disables the button and sends; its continuation always releases the button. Then a click that was
  accepted is followed by exactly one release, whatever the outcome.
\<close>

locale busy_button =
  fixes button :: jstr
    and start :: "'s \<Rightarrow> 's \<times> effect list"
    and finish :: "outcome \<Rightarrow> 's \<Rightarrow> 's \<times> effect list"
    and accepts :: "'s \<Rightarrow> bool"
  assumes declines: "\<not> accepts s \<Longrightarrow> fst (start s) = s
      \<and> disabled_after button (snd (start s)) d = d \<and> requests_in (snd (start s)) = []"
    and takes: "accepts s \<Longrightarrow> disabled_after button (snd (start s)) d
      \<and> length (requests_in (snd (start s))) = 1"
    and releases: "\<not> disabled_after button (snd (finish out s)) d"
begin

lemma released_after_run: "\<not> disabled_after button (snd (start s) @ snd (finish out t)) d"
  by (simp add: releases)

lemma stuck_iff_unsettled:
  "accepts s \<Longrightarrow> disabled_after button (snd (run_upload start finish r s)) False
    \<longleftrightarrow> upload_outcome r = None"
  using takes [of s] releases
  by (auto simp: run_upload_def case_prod_beta Let_def split: option.splits)

lemma disabled_iff_waiting:
  "disabled_after button (snd (start s)) False \<longleftrightarrow> requests_in (snd (start s)) \<noteq> []"
  using declines [of s False] takes [of s False] by (cases "accepts s") auto

end

end
