(* ===== verification/FilePool.thy ===== *)
theory FilePool
  imports AppState "HOL-Library.Sublist"
begin

text \<open>
  The two attachment pools: the files of the review page (\<open>setReviewFiles\<close>) and those of the draft
  page (\<open>setElementFiles\<close>), both built on \<open>fileKey\<close> and \<open>mergeFiles\<close>. The contract a user
  relies on (adding keeps each file once, removing removes it) is the locale \<open>attachment_pool\<close>; the
  draft page meets it. The review page does not: its handler ignores the \<open>replace\<close> option that the
  chip's remove button passes.
\<close>

section \<open>Keys and merging\<close>

definition fileKey :: "jsfile \<Rightarrow> jstr" where
  "fileKey f = fname f @ js '':'' @ dec (fsize f) @ js '':'' @ dec_int (flastModified f)"

fun merge_loop :: "jstr set \<Rightarrow> jsfile list \<Rightarrow> jsfile list \<Rightarrow> jsfile list" where
  "merge_loop seen merged [] = merged"
| "merge_loop seen merged (f # fs) =
    (if fileKey f \<in> seen then merge_loop seen merged fs
     else merge_loop (insert (fileKey f) seen) (merged @ [f]) fs)"

definition mergeFiles :: "jsfile list \<Rightarrow> jsfile list \<Rightarrow> jsfile list" where
  "mergeFiles current incoming = merge_loop (set (map fileKey current)) current incoming"

text \<open>Splitting at the last colons shows that the key determines name, size and date.\<close>

lemma colon_split: "58 \<notin> set x \<Longrightarrow> 58 \<notin> set y \<Longrightarrow> a @ 58 # x = b @ 58 # y \<longleftrightarrow> a = b \<and> x = (y::jstr)"
proof (induction a arbitrary: b)
  case Nil
  then show ?case by (cases b) auto
next
  case (Cons u a)
  show ?case
  proof (cases b)
    case Nil
    with Cons.prems show ?thesis by auto
  next
    case b: (Cons v b')
    from Cons.IH [OF Cons.prems, of b'] show ?thesis by (simp only: b append_Cons list.inject) blast
  qed
qed

lemma dec_not_mem [simp]: "d < 48 \<or> 57 < d \<Longrightarrow> d \<notin> set (dec n)"
  using dec_digits [of n] by (meson not_le)

lemma dec_no_colon: "58 \<notin> set (dec n)" "58 \<notin> set (dec_int i)"
  by (simp_all add: dec_int_def)

lemma dec_ne_minus [simp]: "dec n \<noteq> 45 # x" "45 # x \<noteq> dec n"
proof -
  show "dec n \<noteq> 45 # x"
  proof
    assume "dec n = 45 # x"
    with dec_digits [of n] show False by simp
  qed
  then show "45 # x \<noteq> dec n" by simp
qed

lemma dec_int_inj [simp]: "dec_int i = dec_int j \<longleftrightarrow> i = j"
  by (simp add: dec_int_def eq_nat_nat_iff)

lemma fileKey_eq:
  "fileKey f = fileKey g \<longleftrightarrow> fname f = fname g \<and> fsize f = fsize g \<and> flastModified f = flastModified g"
proof -
  have key: "fileKey f = (fname f @ 58 # dec (fsize f)) @ 58 # dec_int (flastModified f)" for f
    by (simp add: fileKey_def js_eval)
  show ?thesis by (simp only: key colon_split dec_no_colon not_False_eq_True dec_inj dec_int_inj) auto
qed

text \<open>The loop as a specification: the incoming files whose key is new, each key once.\<close>

fun fresh_files :: "jstr set \<Rightarrow> jsfile list \<Rightarrow> jsfile list" where
  "fresh_files seen [] = []"
| "fresh_files seen (f # fs) =
    (if fileKey f \<in> seen then fresh_files seen fs else f # fresh_files (insert (fileKey f) seen) fs)"

lemma merge_loop_eq: "merge_loop seen merged fs = merged @ fresh_files seen fs"
  by (induction seen merged fs rule: merge_loop.induct) auto

lemma mergeFiles_eq: "mergeFiles cur inc = cur @ fresh_files (fileKey ` set cur) inc"
  by (simp add: mergeFiles_def merge_loop_eq)

lemma fresh_files_keys: "fileKey ` set (fresh_files seen fs) = fileKey ` set fs - seen"
  by (induction seen fs rule: fresh_files.induct) auto

lemma fresh_files_distinct: "distinct (map fileKey (fresh_files seen fs))"
proof (induction seen fs rule: fresh_files.induct)
  case (2 seen f fs)
  then show ?case using fresh_files_keys [of "insert (fileKey f) seen" fs] by auto
qed simp

lemma fresh_files_none: "fileKey ` set fs \<subseteq> seen \<Longrightarrow> fresh_files seen fs = []"
  by (induction fs) auto

lemma mergeFiles_distinct:
  "distinct (map fileKey cur) \<Longrightarrow> distinct (map fileKey (mergeFiles cur inc))"
  using fresh_files_keys [of "fileKey ` set cur" inc] fresh_files_distinct
  by (auto simp: mergeFiles_eq)

lemma mergeFiles_keys: "fileKey ` set (mergeFiles cur inc) = fileKey ` set cur \<union> fileKey ` set inc"
  using fresh_files_keys [of "fileKey ` set cur" inc] by (auto simp: mergeFiles_eq image_Un)

lemma mergeFiles_absorb: "fileKey ` set inc \<subseteq> fileKey ` set cur \<Longrightarrow> mergeFiles cur inc = cur"
  by (simp add: mergeFiles_eq fresh_files_none)

lemma fresh_files_subseq: "subseq (fresh_files seen fs) fs"
  by (induction seen fs rule: fresh_files.induct) auto

section \<open>Handlers\<close>

text \<open>The options object: each of its two fields may be missing.\<close>

record file_options =
  append_opt :: "bool option"
  replace_opt :: "bool option"

definition no_options :: file_options where
  "no_options = \<lparr>append_opt = None, replace_opt = None\<rparr>"

definition replace_options :: file_options where
  "replace_options = \<lparr>append_opt = None, replace_opt = Some True\<rparr>"

definition setReviewFiles ::
    "env \<Rightarrow> jsfile list \<Rightarrow> file_options \<Rightarrow> review_state \<Rightarrow> review_state \<times> effect list" where
  "setReviewFiles e incoming opts st =
    (let clearing = (incoming = []);
         append = (\<not> clearing \<and> append_opt opts \<noteq> Some False \<and> files st \<noteq> []);
         fs = (if append then mergeFiles (files st) incoming else incoming);
         pkg = (if append then packageId st else fresh_id e);
         st' = st\<lparr>files := fs, packageId := pkg, result := JNull\<rparr>
     in (st',
         (if append then [] else [FieldValue (js ''review-pkg'') pkg]) @
         [Draw (js ''review-result'') VEmpty, Draw (js ''review-files'') (VFiles fs),
          Toast (if clearing then [0x5DF2, 0x6E05, 0x7A7A, 0x5408, 0x540C, 0x6587, 0x4EF6]
                 else if append then [0x5DF2, 0x8FFD, 0x52A0, 0x9644, 0x4EF6, 0xFF0C, 0x5F53, 0x524D, 0x5171, 0x0020] @ dec (length fs) @ [0x0020, 0x4E2A, 0x6587, 0x4EF6]
                 else [0x5DF2, 0x9009, 0x62E9, 0x0020] @ dec (length fs) @ [0x0020, 0x4E2A, 0x6587, 0x4EF6, 0xFF0C, 0x5F00, 0x59CB, 0x65B0, 0x7684, 0x5BA1, 0x67E5]) Ok]))"

text \<open>The remove button of a file chip (\<open>renderReviewFiles\<close>), and the clear button.\<close>

definition removeReviewFile :: "env \<Rightarrow> jsfile \<Rightarrow> review_state \<Rightarrow> review_state \<times> effect list" where
  "removeReviewFile e f st =
     setReviewFiles e (filter (\<lambda>x. fileKey x \<noteq> fileKey f) (files st)) replace_options st"

definition clearReviewFiles :: "env \<Rightarrow> review_state \<Rightarrow> review_state \<times> effect list" where
  "clearReviewFiles e st = setReviewFiles e [] replace_options st"

text \<open>\<open>resetElementPreview\<close>: the object URL is revoked before it is forgotten.\<close>

definition revokeElementPreview :: "elements_state \<Rightarrow> elements_state \<times> effect list" where
  "revokeElementPreview st = (case previewUrl st of
     None \<Rightarrow> (st, []) | Some u \<Rightarrow> (st\<lparr>previewUrl := None\<rparr>, [RevokeUrl u]))"

definition resetElementPreview :: "elements_state \<Rightarrow> elements_state \<times> effect list" where
  "resetElementPreview st = (let (st', es) = revokeElementPreview st in
     (st'\<lparr>previewHtml := [], previewText := [], previewKind := [], previewMessage := []\<rparr>, es))"

definition setElementFiles ::
    "env \<Rightarrow> jsfile list \<Rightarrow> file_options \<Rightarrow> elements_state \<Rightarrow> elements_state \<times> effect list" where
  "setElementFiles e incoming opts st =
    (let replace = (replace_opt opts = Some True \<or> incoming = []);
         append = (\<not> replace \<and> append_opt opts \<noteq> Some False \<and> elFiles st \<noteq> []);
         fs = (if append then mergeFiles (elFiles st) incoming else incoming);
         pkg = (if append then elPackageId st else fresh_id e);
         (st', es) = resetElementPreview (st\<lparr>elFiles := fs, elPackageId := pkg\<rparr>)
     in (st', es @ [Draw (js ''elements-files'') (VFiles fs)]))"

definition removeElementFile :: "env \<Rightarrow> jsfile \<Rightarrow> elements_state \<Rightarrow> elements_state \<times> effect list" where
  "removeElementFile e f st =
     setElementFiles e (filter (\<lambda>x. fileKey x \<noteq> fileKey f) (elFiles st)) replace_options st"

section \<open>The contract\<close>

lemma resetElementPreview_files [simp]:
  "elFiles (fst (resetElementPreview st)) = elFiles st"
  "elPackageId (fst (resetElementPreview st)) = elPackageId st"
  "elForm (fst (resetElementPreview st)) = elForm st"
  "elCatalog (fst (resetElementPreview st)) = elCatalog st"
  "elOverrides (fst (resetElementPreview st)) = elOverrides st"
  by (auto simp: resetElementPreview_def revokeElementPreview_def split: option.splits prod.splits)

lemma setElementFiles_files:
  "elFiles (fst (setElementFiles e inc opts st)) =
    (if replace_opt opts \<noteq> Some True \<and> inc \<noteq> [] \<and> append_opt opts \<noteq> Some False \<and> elFiles st \<noteq> []
     then mergeFiles (elFiles st) inc else inc)"
  by (simp add: setElementFiles_def Let_def case_prod_beta)

lemma setReviewFiles_files:
  "files (fst (setReviewFiles e inc opts st)) =
    (if inc \<noteq> [] \<and> append_opt opts \<noteq> Some False \<and> files st \<noteq> []
     then mergeFiles (files st) inc else inc)"
  by (auto simp: setReviewFiles_def Let_def)

locale attachment_pool =
  fixes pool :: "'s \<Rightarrow> jsfile list"
    and add_files :: "jsfile list \<Rightarrow> 's \<Rightarrow> 's"
    and remove_file :: "jsfile \<Rightarrow> 's \<Rightarrow> 's"
  assumes pool_add: "inc \<noteq> [] \<Longrightarrow> pool (add_files inc s)
      = (if pool s = [] then inc else mergeFiles (pool s) inc)"
    and pool_remove: "pool (remove_file f s) = filter (\<lambda>x. fileKey x \<noteq> fileKey f) (pool s)"
begin

lemma add_distinct:
  "distinct (map fileKey (pool s)) \<Longrightarrow> distinct (map fileKey inc) \<Longrightarrow> inc \<noteq> [] \<Longrightarrow>
   distinct (map fileKey (pool (add_files inc s)))"
  by (simp add: pool_add mergeFiles_distinct)

lemma remove_distinct:
  "distinct (map fileKey (pool s)) \<Longrightarrow> distinct (map fileKey (pool (remove_file f s)))"
  by (simp add: pool_remove distinct_map_filter)

lemma remove_gone: "fileKey f \<notin> fileKey ` set (pool (remove_file f s))"
  by (auto simp: pool_remove)

lemma add_then_remove:
  assumes "pool s \<noteq> []" "fileKey f \<notin> fileKey ` set (pool s)"
  shows "pool (remove_file f (add_files [f] s)) = pool s"
proof -
  have "filter (\<lambda>x. fileKey x \<noteq> fileKey f) (pool s) = pool s"
    using assms(2) by (auto simp: filter_id_conv image_iff)
  then show ?thesis using assms by (simp add: pool_remove pool_add mergeFiles_eq)
qed

text \<open>Any history of additions and removals keeps every file once.\<close>

lemma history_distinct:
  "distinct (map fileKey (pool s)) \<Longrightarrow> \<forall>h \<in> set hs. case h of Inl inc \<Rightarrow> inc \<noteq> [] \<and> distinct (map fileKey inc) | Inr f \<Rightarrow> True
   \<Longrightarrow> distinct (map fileKey (pool (fold (\<lambda>h. case h of Inl inc \<Rightarrow> add_files inc | Inr f \<Rightarrow> remove_file f) hs s)))"
  by (induction hs arbitrary: s) (auto simp: add_distinct remove_distinct split: sum.splits)

end

interpretation draft_pool: attachment_pool elFiles
    "\<lambda>inc st. fst (setElementFiles e inc no_options st)" "\<lambda>f st. fst (removeElementFile e f st)" for e
  by unfold_locales (auto simp: setElementFiles_files removeElementFile_def no_options_def replace_options_def)

section \<open>Files, for evaluation\<close>

definition demo_file :: "string \<Rightarrow> nat \<Rightarrow> jsfile" where
  "demo_file nm i = \<lparr>fname = js nm, fsize = 10, flastModified = 5, ftype = [], fblob = i\<rparr>"

definition demo_env :: env where
  "demo_env = \<lparr>now = \<lparr>year = 2025, month = 3, day = 4, hours = 5, minutes = 6, seconds = 7\<rparr>,
     rnd = js ''0.abcdef''\<rparr>"

section \<open>Properties\<close>

text \<open>C34: merging keeps the current files in place and appends exactly the files whose name, size or
  date is new, each once, in the order they came.\<close>

theorem mergeFiles_correct:
  "\<exists>ex. mergeFiles cur inc = cur @ ex \<and> subseq ex inc \<and> distinct (map fileKey ex)
    \<and> (\<forall>f. f \<in> set ex \<longrightarrow> \<not> (\<exists>g \<in> set cur. fname g = fname f \<and> fsize g = fsize f
          \<and> flastModified g = flastModified f))
    \<and> (\<forall>f. f \<in> set inc \<longrightarrow> (\<exists>g \<in> set (cur @ ex). fname g = fname f \<and> fsize g = fsize f
          \<and> flastModified g = flastModified f))"
proof (intro exI conjI)
  let ?ex = "fresh_files (fileKey ` set cur) inc"
  show "mergeFiles cur inc = cur @ ?ex" by (rule mergeFiles_eq)
  show "subseq ?ex inc" by (rule fresh_files_subseq)
  show "distinct (map fileKey ?ex)" by (rule fresh_files_distinct)
  show "\<forall>f. f \<in> set ?ex \<longrightarrow> \<not> (\<exists>g \<in> set cur. fname g = fname f \<and> fsize g = fsize f
      \<and> flastModified g = flastModified f)"
    using fresh_files_keys [of "fileKey ` set cur" inc] by (auto simp flip: fileKey_eq)
  show "\<forall>f. f \<in> set inc \<longrightarrow> (\<exists>g \<in> set (cur @ ?ex). fname g = fname f \<and> fsize g = fsize f
      \<and> flastModified g = flastModified f)"
  proof (intro allI impI)
    fix f
    assume "f \<in> set inc"
    then have "fileKey f \<in> fileKey ` set (cur @ ?ex)"
      unfolding mergeFiles_eq [symmetric] mergeFiles_keys by blast
    then obtain g where "g \<in> set (cur @ ?ex)" "fileKey g = fileKey f" by (elim imageE) simp
    then show "\<exists>g \<in> set (cur @ ?ex). fname g = fname f \<and> fsize g = fsize f
        \<and> flastModified g = flastModified f"
      unfolding fileKey_eq by blast
  qed
qed

theorem mergeFiles_correct_witness:
  "mergeFiles [demo_file ''a'' 1] [demo_file ''b'' 2, demo_file ''a'' 3, demo_file ''b'' 4]
     = [demo_file ''a'' 1, demo_file ''b'' 2] \<and>
   (\<exists>ex. mergeFiles [demo_file ''a'' 1] [demo_file ''b'' 2] = [demo_file ''a'' 1] @ ex)"
proof
  show "mergeFiles [demo_file ''a'' 1] [demo_file ''b'' 2, demo_file ''a'' 3, demo_file ''b'' 4]
     = [demo_file ''a'' 1, demo_file ''b'' 2]"
    by (simp add: mergeFiles_def fileKey_eq demo_file_def texts)
  show "\<exists>ex. mergeFiles [demo_file ''a'' 1] [demo_file ''b'' 2] = [demo_file ''a'' 1] @ ex"
    using mergeFiles_correct [of "[demo_file ''a'' 1]" "[demo_file ''b'' 2]"] by blast
qed

text \<open>On the draft page, after any sequence of added batches and removed chips no attachment is
  listed twice, and a removed attachment is gone until it is added again.\<close>

theorem draft_attachments:
  assumes "distinct (map fileKey (elFiles st))"
    and "\<forall>h \<in> set hs. case h of Inl inc \<Rightarrow> inc \<noteq> [] \<and> distinct (map fileKey inc) | Inr f \<Rightarrow> True"
  shows "let st' = fold (\<lambda>h. case h of Inl inc \<Rightarrow> (\<lambda>s. fst (setElementFiles e inc no_options s))
      | Inr f \<Rightarrow> (\<lambda>s. fst (removeElementFile e f s))) hs st
    in distinct (map fileKey (elFiles st'))
       \<and> fileKey f \<notin> fileKey ` set (elFiles (fst (removeElementFile e f st')))"
  using draft_pool.history_distinct [OF assms, of e] draft_pool.remove_gone [of f e]
  unfolding Let_def by blast

theorem draft_attachments_witness:
  "let st' = fold (\<lambda>h. case h of Inl inc \<Rightarrow> (\<lambda>s. fst (setElementFiles demo_env inc no_options s))
      | Inr f \<Rightarrow> (\<lambda>s. fst (removeElementFile demo_env f s)))
      [Inl [demo_file ''a'' 1, demo_file ''b'' 2], Inr (demo_file ''a'' 1)] (init_elements demo_env)
    in distinct (map fileKey (elFiles st'))
       \<and> fileKey (demo_file ''b'' 2) \<notin> fileKey ` set (elFiles (fst (removeElementFile demo_env (demo_file ''b'' 2) st')))"
  by (rule draft_attachments) (simp_all add: init_elements_def fileKey_eq demo_file_def texts)

text \<open>C35: on the review page the remove button of a chip does nothing to a selection with another
  file in it: the handler drops the replace option, merges the shorter list into the current one,
  and reports that attachments were added. Only the selection's last file can be removed.\<close>

theorem review_chip_removal_ineffective:
  assumes "g \<in> set (files st)" "fileKey g \<noteq> fileKey f"
  shows "files (fst (removeReviewFile e f st)) = files st
    \<and> packageId (fst (removeReviewFile e f st)) = packageId st
    \<and> result (fst (removeReviewFile e f st)) = JNull
    \<and> last (snd (removeReviewFile e f st)) = Toast ([0x5DF2, 0x8FFD, 0x52A0, 0x9644, 0x4EF6, 0xFF0C, 0x5F53, 0x524D, 0x5171, 0x0020] @ dec (length (files st)) @ [0x0020, 0x4E2A, 0x6587, 0x4EF6]) Ok"
proof -
  let ?inc = "filter (\<lambda>x. fileKey x \<noteq> fileKey f) (files st)"
  have ne: "?inc \<noteq> []" "files st \<noteq> []" using assms by (auto simp: filter_empty_conv)
  have "mergeFiles (files st) ?inc = files st" by (rule mergeFiles_absorb) auto
  with ne show ?thesis
    by (simp add: removeReviewFile_def setReviewFiles_def replace_options_def Let_def)
qed

theorem review_chip_removal_ineffective_witness:
  "let st = (init_review demo_env)\<lparr>files := [demo_file ''a'' 1, demo_file ''b'' 2]\<rparr>
   in files (fst (removeReviewFile demo_env (demo_file ''a'' 1) st)) = files st"
  using review_chip_removal_ineffective
    [of "demo_file ''b'' 2" "(init_review demo_env)\<lparr>files := [demo_file ''a'' 1, demo_file ''b'' 2]\<rparr>"
       "demo_file ''a'' 1" demo_env]
  by (simp add: fileKey_eq demo_file_def texts)

end
