(* ===== verification/ReviewFlow.thy ===== *)
theory ReviewFlow
  imports FilePool
begin

text \<open>
  The review page's requests: \<open>validateReview\<close>, the form data, the synchronous and the
  asynchronous submission, and the document comparison. Each handler is its part before the
  \<open>await\<close> and its continuation. After that come the entries of the page and the page as a state machine:
  entries, clicks, reviewing again, answers in any order, dialogs, and leaving and re-entering the page. \<open>draw\<close> is the drawing of a
  result: None when it succeeds, the exception's text when it raises.
\<close>

section \<open>Reading members\<close>

text \<open>\<open>v.k\<close> raises on null and undefined; \<open>v?.k\<close> is \<open>jget\<close>.\<close>

definition jmember :: "json \<Rightarrow> jstr \<Rightarrow> js_error + json" where
  "jmember v k = (if v = JNull \<or> v = JUndef then Inl TypeError else Inr (jget v k))"

definition has_review :: "json \<Rightarrow> bool" where
  "has_review v \<longleftrightarrow> json_truthy (jget v (js ''review_result''))"

definition requireReviewResult :: "jstr \<Rightarrow> review_state \<Rightarrow> bool \<times> effect list" where
  "requireReviewResult action st =
    (if has_review (result st) then (True, [])
     else (False, [Toast ([0x8BF7, 0x5148, 0x5B8C, 0x6210, 0x5408, 0x540C, 0x5BA1, 0x67E5, 0x540E, 0x518D] @ action) Warn]))"

section \<open>Submitting a review\<close>

definition validateReview :: "review_state \<Rightarrow> bool \<times> effect list" where
  "validateReview st =
    (if files st = [] then (False, [Toast [0x8BF7, 0x81F3, 0x5C11, 0x9009, 0x62E9, 0x4E00, 0x4E2A, 0x5408, 0x540C, 0x6587, 0x4EF6] Warn])
     else if packageId st = [] then (False, [Toast [0x8BF7, 0x586B, 0x5199, 0x5408, 0x540C, 0x5305, 0x0020, 0x0049, 0x0044] Warn])
     else (True, []))"

definition appendReviewContext :: "review_state \<Rightarrow> (jstr \<times> formval) list \<Rightarrow> (jstr \<times> formval) list" where
  "appendReviewContext st fd = fd @
     map (\<lambda>(name, value). (name, FText value))
       (filter (\<lambda>(name, value). value \<noteq> [])
         [(js ''PartyPosition'', partyPosition st), (js ''Jurisdiction'', jurisdiction st),
          (js ''TransactionContext'', transactionContext st), (js ''ReviewScope'', reviewScope st)])"

definition review_form :: "review_state \<Rightarrow> (jstr \<times> formval) list" where
  "review_form st = appendReviewContext st
     (map (\<lambda>f. (js ''files'', FFile f)) (files st) @ [(js ''PackageId'', FText (packageId st))]
      @ (if contractType st \<noteq> [] then [(js ''ContractType'', FText (contractType st))] else []))"

definition sync_button :: jstr where "sync_button = js ''btn-review-sync''"
definition async_button :: jstr where "async_button = js ''btn-review-async''"
definition review_box :: jstr where "review_box = js ''review-result''"

definition submitReviewSync :: "client \<Rightarrow> review_state \<Rightarrow> review_state \<times> effect list" where
  "submitReviewSync c st = (case validateReview st of
     (False, es) \<Rightarrow> (st, es)
   | (True, es) \<Rightarrow> (st, es @ [Disable sync_button True, Draw review_box VProgress,
       Send (api_upload c (js ''/contract-review'') (review_form st))]))"

text \<open>\<open>renderReviewResult\<close> and \<open>renderReviewViews\<close> empty the box before they draw.\<close>

definition draw_review :: "(json \<Rightarrow> jstr option) \<Rightarrow> json \<Rightarrow> review_state \<Rightarrow> jstr + (review_state \<times> effect list)" where
  "draw_review draw resp st = (case draw resp of
     Some m \<Rightarrow> Inl m
   | None \<Rightarrow> Inr (if has_review resp then st\<lparr>result := resp\<rparr> else st, [Draw review_box (VReview resp)]))"

definition finishReviewSync ::
    "(json \<Rightarrow> jstr option) \<Rightarrow> outcome \<Rightarrow> review_state \<Rightarrow> review_state \<times> effect list" where
  "finishReviewSync draw out st = (case out of
     Inl e \<Rightarrow> (st, [Draw review_box VEmpty, Toast ([0x5BA1, 0x67E5, 0x5931, 0x8D25, 0x003A, 0x0020] @ failure_text e) Err, Disable sync_button False])
   | Inr resp \<Rightarrow> (let st' = st\<lparr>result := resp\<rparr> in
       case draw_review draw resp st' of
         Inr (st'', es) \<Rightarrow> (st'', Draw review_box VEmpty # es @ [Disable sync_button False])
       | Inl m \<Rightarrow> (st', [Draw review_box VEmpty, Draw review_box VEmpty,
           Toast ([0x5BA1, 0x67E5, 0x5931, 0x8D25, 0x003A, 0x0020] @ m) Err, Disable sync_button False])))"

definition submitReviewAsync :: "client \<Rightarrow> review_state \<Rightarrow> review_state \<times> effect list" where
  "submitReviewAsync c st = (case validateReview st of
     (False, es) \<Rightarrow> (st, es)
   | (True, es) \<Rightarrow> (st, es @ [Disable async_button True,
       Send (api_upload c (js ''/contract-review-async'') (review_form st))]))"

definition finishReviewAsync ::
    "(js_error \<Rightarrow> jstr) \<Rightarrow> outcome \<Rightarrow> review_state \<Rightarrow> review_state \<times> effect list" where
  "finishReviewAsync engine out st = (case out of
     Inl e \<Rightarrow> (st, [Toast ([0x521B, 0x5EFA, 0x4EFB, 0x52A1, 0x5931, 0x8D25, 0x003A, 0x0020] @ failure_text e) Err, Disable async_button False])
   | Inr resp \<Rightarrow> (let task = jget (jget resp (js ''Response'')) (js ''task_id'') in
       case to_string task of
         Inr s \<Rightarrow> (st, [Toast ([0x5F02, 0x6B65, 0x5BA1, 0x67E5, 0x4EFB, 0x52A1, 0x5DF2, 0x521B, 0x5EFA, 0x003A, 0x0020] @ s) Ok, OpenTask task, Disable async_button False])
       | Inl x \<Rightarrow> (st, [Toast ([0x521B, 0x5EFA, 0x4EFB, 0x52A1, 0x5931, 0x8D25, 0x003A, 0x0020] @ engine x) Err, Disable async_button False])))"

section \<open>Comparing documents\<close>

definition compareIgnoreFlags :: "(jstr \<times> jstr) list" where
  "compareIgnoreFlags =
    [(js ''ignore_symbols'', [0x5FFD, 0x7565, 0x7B26, 0x53F7]), (js ''ignore_watermark'', [0x5FFD, 0x7565, 0x6C34, 0x5370]),
     (js ''ignore_seals'', [0x5FFD, 0x7565, 0x5370, 0x7AE0]), (js ''ignore_images'', [0x5FFD, 0x7565, 0x56FE, 0x7247]),
     (js ''ignore_header_footer'', [0x5FFD, 0x7565, 0x9875, 0x7709, 0x9875, 0x811A]), (js ''ignore_tables'', [0x5FFD, 0x7565, 0x8868, 0x683C]),
     (js ''ignore_handwriting'', [0x5FFD, 0x7565, 0x624B, 0x5199])]"

definition currentFilePool :: "app \<Rightarrow> jsfile list" where
  "currentFilePool a = (if currentPage a = Some (js ''draft'') then elFiles (elements a) else files (review a))"

text \<open>The dialog's checkboxes are fresh each time it opens; the map says which are ticked.\<close>

type_synonym boxes = "jstr \<Rightarrow> bool"

definition openCompareDialog :: "app \<Rightarrow> app \<times> boxes \<times> effect list" where
  "openCompareDialog a =
    (let pool = currentFilePool a; st = (compare a)\<lparr>compareResult := JNull\<rparr>;
         st' = (if baseFile st = None \<and> pool \<noteq> [] then st\<lparr>baseFile := Some (hd pool)\<rparr> else st)
     in (a\<lparr>compare := st'\<rparr>, (\<lambda>_. False), [ModalOpen [0x6587, 0x6863, 0x5BF9, 0x6BD4]]))"

definition pickCompareFile :: "jstr \<Rightarrow> jsfile option \<Rightarrow> compare_state \<Rightarrow> compare_state" where
  "pickCompareFile kind picked st = (case picked of
     None \<Rightarrow> st
   | Some f \<Rightarrow> if kind = js ''base'' then st\<lparr>baseFile := Some f\<rparr> else st\<lparr>compareFile := Some f\<rparr>)"

definition tickIgnoreFlag :: "jstr \<Rightarrow> bool \<Rightarrow> app \<times> boxes \<Rightarrow> app \<times> boxes" where
  "tickIgnoreFlag k v = (\<lambda>(a, bx). (a\<lparr>compare := (compare a)\<lparr>compareOptions := (compareOptions (compare a))(k := v)\<rparr>\<rparr>,
     bx(k := v)))"

definition compare_form :: "compare_state \<Rightarrow> jsfile \<Rightarrow> jsfile \<Rightarrow> json \<Rightarrow> (jstr \<times> formval) list" where
  "compare_form st b k res =
     [(js ''base_file'', FFile b), (js ''compare_file'', FFile k)]
     @ map (\<lambda>(key, label). (key, FText (js ''true''))) (filter (\<lambda>(key, label). compareOptions st key) compareIgnoreFlags)
     @ (if has_review res then [(js ''ReviewResultPayload'',
          FBlob (jget res (js ''review_result'')) (js ''review-result.json''))] else [])"

definition compare_button :: jstr where "compare_button = js ''btn-compare''"
definition compare_box :: jstr where "compare_box = js ''compare-result''"

definition submitCompare :: "client \<Rightarrow> app \<Rightarrow> app \<times> effect list" where
  "submitCompare c a = (case (baseFile (compare a), compareFile (compare a)) of
     (Some b, Some k) \<Rightarrow> (a, [Disable compare_button True, Draw compare_box VProgress,
       Send (api_upload c (js ''/contract-compare'') (compare_form (compare a) b k (result (review a))))])
   | _ \<Rightarrow> (a, [Toast [0x8BF7, 0x5148, 0x9009, 0x62E9, 0x57FA, 0x51C6, 0x6587, 0x6863, 0x548C, 0x6BD4, 0x5BF9, 0x6587, 0x6863] Warn]))"

definition compare_answer ::
    "(js_error \<Rightarrow> jstr) \<Rightarrow> (json \<Rightarrow> jstr option) \<Rightarrow> json \<Rightarrow> app \<Rightarrow> app \<times> (jstr option)" where
  "compare_answer engine draw resp a =
    (let a1 = a\<lparr>compare := (compare a)\<lparr>compareResult := resp\<rparr>\<rparr> in
     case jmember resp (js ''review_result'') of
       Inl x \<Rightarrow> (a1, Some (engine x))
     | Inr rr \<Rightarrow> (if json_truthy rr
           then a1\<lparr>review := (review a1)\<lparr>result := JObj [(js ''review_result'', rr)]\<rparr>\<rparr> else a1,
         draw resp))"

definition finishCompare ::
    "(js_error \<Rightarrow> jstr) \<Rightarrow> (json \<Rightarrow> jstr option) \<Rightarrow> outcome \<Rightarrow> app \<Rightarrow> app \<times> effect list" where
  "finishCompare engine draw out a = (let failed = (\<lambda>m. [Draw compare_box VEmpty, Toast ([0x6587, 0x6863, 0x5BF9, 0x6BD4, 0x5931, 0x8D25, 0x003A, 0x0020] @ m) Err,
       Disable compare_button False]) in
     case out of
       Inl e \<Rightarrow> (a, failed (failure_text e))
     | Inr resp \<Rightarrow> (case compare_answer engine draw resp a of
         (a', Some m) \<Rightarrow> (a', failed m)
       | (a', None) \<Rightarrow> (a', [Draw compare_box (VCompare resp), Disable compare_button False])))"

section \<open>The buttons\<close>

lemma fresh_id_ne: "fresh_id e \<noteq> []"
  by (simp add: fresh_id_def newPackageId_def js_eval)


definition review_ready :: "review_state \<Rightarrow> bool" where
  "review_ready st \<longleftrightarrow> files st \<noteq> [] \<and> packageId st \<noteq> []"

lemma validateReview_cases:
  "validateReview st = (review_ready st, if review_ready st then [] else snd (validateReview st))"
  "\<not> review_ready st \<Longrightarrow> \<exists>m. snd (validateReview st) = [Toast m Warn]"
  by (auto simp: validateReview_def review_ready_def)

lemma submitReviewSync_eq:
  "submitReviewSync c st = (st, if review_ready st
     then [Disable sync_button True, Draw review_box VProgress,
       Send (api_upload c (js ''/contract-review'') (review_form st))]
     else snd (validateReview st))"
  by (auto simp: submitReviewSync_def validateReview_def review_ready_def)

lemma submitReviewAsync_eq:
  "submitReviewAsync c st = (st, if review_ready st
     then [Disable async_button True, Send (api_upload c (js ''/contract-review-async'') (review_form st))]
     else snd (validateReview st))"
  by (auto simp: submitReviewAsync_def validateReview_def review_ready_def)

lemma finishReviewSync_state:
  "fst (finishReviewSync draw out st) = (case out of Inl _ \<Rightarrow> st | Inr resp \<Rightarrow> st\<lparr>result := resp\<rparr>)"
  by (auto simp: finishReviewSync_def draw_review_def Let_def split: sum.splits option.splits)

lemma finishReviewSync_sends: "requests_in (snd (finishReviewSync draw out st)) = []"
  by (auto simp: finishReviewSync_def draw_review_def Let_def split: sum.splits option.splits)

lemma finishReviewSync_release: "\<not> disabled_after sync_button (snd (finishReviewSync draw out st)) d"
  by (auto simp: finishReviewSync_def draw_review_def Let_def split: sum.splits option.splits)

interpretation sync: busy_button sync_button "submitReviewSync c" "finishReviewSync draw" review_ready
  for c draw
proof unfold_locales
  fix s d
  assume "\<not> review_ready s"
  moreover from validateReview_cases(2) [OF this] obtain m where "snd (validateReview s) = [Toast m Warn]" ..
  ultimately show "fst (submitReviewSync c s) = s
      \<and> disabled_after sync_button (snd (submitReviewSync c s)) d = d
      \<and> requests_in (snd (submitReviewSync c s)) = []"
    by (simp add: submitReviewSync_eq)
qed (simp_all add: submitReviewSync_eq finishReviewSync_release)

interpretation async: busy_button async_button "submitReviewAsync c" "finishReviewAsync engine" review_ready
  for c engine
proof unfold_locales
  fix s d
  assume "\<not> review_ready s"
  moreover from validateReview_cases(2) [OF this] obtain m where "snd (validateReview s) = [Toast m Warn]" ..
  ultimately show "fst (submitReviewAsync c s) = s
      \<and> disabled_after async_button (snd (submitReviewAsync c s)) d = d
      \<and> requests_in (snd (submitReviewAsync c s)) = []"
    by (simp add: submitReviewAsync_eq)
qed (auto simp: submitReviewAsync_eq finishReviewAsync_def Let_def split: sum.splits)

definition compare_ready :: "app \<Rightarrow> bool" where
  "compare_ready a \<longleftrightarrow> baseFile (compare a) \<noteq> None \<and> compareFile (compare a) \<noteq> None"

interpretation comparing: busy_button compare_button "submitCompare c" "finishCompare engine draw" compare_ready
  for c engine draw
  by unfold_locales
    (auto simp: submitCompare_def compare_ready_def finishCompare_def Let_def
      split: option.splits sum.splits prod.splits)

section \<open>The entries of the page\<close>

text \<open>Every control of the review page writes the state at once, trimmed where it is text.\<close>

definition CONTRACT_TYPES :: "jstr list" where
  "CONTRACT_TYPES = [[], [0x8F6F, 0x4EF6, 0x4EA7, 0x54C1, 0x9500, 0x552E], [0x8F6F, 0x4EF6, 0x5F00, 0x53D1, 0x002F, 0x8F6C, 0x8BA9, 0x670D, 0x52A1], [0x4E00, 0x822C, 0x5546, 0x54C1, 0x9500, 0x552E, 0x5408, 0x540C], [0x6DF7, 0x5408, 0x5408, 0x540C], [0x5176, 0x5B83, 0x670D, 0x52A1, 0x5408, 0x540C]]"

definition PARTY_OPTIONS :: "(jstr \<times> jstr) list" where
  "PARTY_OPTIONS = [([], [0x2014, 0x0020, 0x4E0D, 0x6307, 0x5B9A, 0x0020, 0x2014]), (js ''buyer'', [0x7532, 0x65B9, 0x0020, 0x002F, 0x0020, 0x4E70, 0x65B9]), (js ''seller'', [0x4E59, 0x65B9, 0x0020, 0x002F, 0x0020, 0x5356, 0x65B9]), (js ''both'', [0x53CC, 0x65B9])]"

datatype review_input =
    ChooseFiles env "jsfile list" file_options
  | TypePackage jstr | ChooseType nat | ChooseParty nat | TypeJurisdiction jstr | TypeContext jstr | TypeScope jstr

definition review_input :: "review_input \<Rightarrow> review_state \<Rightarrow> review_state \<times> effect list" where
  "review_input ev st = (case ev of
     ChooseFiles e inc opts \<Rightarrow> setReviewFiles e inc opts st
   | TypePackage s \<Rightarrow> (st\<lparr>packageId := trim s\<rparr>, [])
   | ChooseType i \<Rightarrow> (if i < length CONTRACT_TYPES then st\<lparr>contractType := CONTRACT_TYPES ! i\<rparr> else st, [])
   | ChooseParty i \<Rightarrow> (if i < length PARTY_OPTIONS then st\<lparr>partyPosition := fst (PARTY_OPTIONS ! i)\<rparr> else st, [])
   | TypeJurisdiction s \<Rightarrow> (st\<lparr>jurisdiction := trim s\<rparr>, [])
   | TypeContext s \<Rightarrow> (st\<lparr>transactionContext := trim s\<rparr>, [])
   | TypeScope s \<Rightarrow> (st\<lparr>reviewScope := trim s\<rparr>, []))"

definition chooses_files :: "review_input \<Rightarrow> bool" where
  "chooses_files ev = (case ev of ChooseFiles _ _ _ \<Rightarrow> True | _ \<Rightarrow> False)"

lemma review_input_files:
  "\<not> chooses_files ev \<Longrightarrow> files (fst (review_input ev st)) = files st \<and> result (fst (review_input ev st)) = result st"
  "chooses_files ev \<Longrightarrow> result (fst (review_input ev st)) = JNull"
  by (cases ev; simp add: review_input_def chooses_files_def setReviewFiles_def Let_def)+

section \<open>The page as a state machine\<close>

text \<open>
  The review page between loads. \<open>pg_here\<close>: it is the page on show; \<open>pg_gen\<close> counts its renderings
  (coming back, or clicking its entry in the navigation again, builds new, enabled buttons and an
  empty result box). \<open>pg_busy\<close>, \<open>pg_abusy\<close>: the two buttons of this rendering are disabled.
  \<open>pg_jobs\<close>, \<open>pg_ajobs\<close>: the unanswered requests of the two buttons, each with the rendering whose
  button it disabled. \<open>pg_box\<close> is what the result box of this rendering shows, \<open>pg_dialog\<close> the review
  in an open dialog (a task's result), and \<open>pg_log\<close> the history of good answers, with the files
  that were sent; nothing ever shortens it.

  A handler keeps the button and the box it found when it started. An answer to a request of an
  earlier rendering therefore releases a button that is no longer there, and a failure empties a box
  that is no longer there, but a good answer is drawn by \<open>renderReviewResult\<close>, which looks the box
  up again: in the rendering on show. Both the result box and the dialog offer to review again
  (\<open>rerunActiveReview\<close>), and that calls \<open>submitReviewSync\<close> whether the button is disabled or not;
  \<open>again v\<close> says that the drawing of \<open>v\<close>, as far as it gets, has that button (it is in every rule of
  the control panel). While another page is on show the same button goes to the draft review or
  raises (\<open>DraftPage.rerunActiveReview\<close>) and leaves this page alone.
\<close>

record page =
  pg_state :: review_state
  pg_here :: bool
  pg_gen :: nat
  pg_busy :: bool
  pg_abusy :: bool
  pg_jobs :: "(nat \<times> formval request) list"
  pg_ajobs :: "(nat \<times> formval request) list"
  pg_box :: "view list"
  pg_dialog :: "view list"
  pg_log :: "(jsfile list \<times> json) list"

definition sent_files :: "formval request \<Rightarrow> jsfile list" where
  "sent_files r = (case payload r of
     FormBody form \<Rightarrow> concat (map (\<lambda>(k, v). case v of FFile f \<Rightarrow> [f] | _ \<Rightarrow> []) form)
   | _ \<Rightarrow> [])"

definition init_page :: "env \<Rightarrow> page" where
  "init_page e = \<lparr>pg_state = init_review e, pg_here = True, pg_gen = 0, pg_busy = False, pg_abusy = False,
     pg_jobs = [], pg_ajobs = [], pg_box = [], pg_dialog = [], pg_log = []\<rparr>"

text \<open>\<open>PDialog v\<close>: a task's result \<open>v\<close> is shown in a dialog. \<open>PInstall v\<close>: the comparison, or a review
  from the draft page, sets the result. \<open>PEnter\<close>, \<open>PLeave\<close>: \<open>navigate\<close> to this page, to another one.\<close>

datatype page_event =
    PInput review_input
  | PClick
  | PClickAsync
  | PRerun
  | PAnswer nat outcome
  | PAnswerAsync nat outcome
  | PDialog json
  | PCloseDialog
  | PInstall json
  | PLeave
  | PEnter

definition input_page :: "review_input \<Rightarrow> page \<Rightarrow> page" where
  "input_page ev pg = (let (st, es) = review_input ev (pg_state pg) in
     pg\<lparr>pg_state := st, pg_box := shown_in review_box es (pg_box pg)\<rparr>)"

definition submit_page :: "client \<Rightarrow> page \<Rightarrow> page" where
  "submit_page c pg = (let (st, es) = submitReviewSync c (pg_state pg) in
     pg\<lparr>pg_state := st, pg_busy := disabled_after sync_button es (pg_busy pg),
        pg_jobs := pg_jobs pg @ map (Pair (pg_gen pg)) (requests_in es),
        pg_box := shown_in review_box es (pg_box pg)\<rparr>)"

definition submit_async :: "client \<Rightarrow> page \<Rightarrow> page" where
  "submit_async c pg = (let (st, es) = submitReviewAsync c (pg_state pg) in
     pg\<lparr>pg_state := st, pg_abusy := disabled_after async_button es (pg_abusy pg),
        pg_ajobs := pg_ajobs pg @ map (Pair (pg_gen pg)) (requests_in es)\<rparr>)"

definition remove_nth :: "nat \<Rightarrow> 'a list \<Rightarrow> 'a list" where
  "remove_nth i xs = take i xs @ drop (Suc i) xs"

definition late_box :: "outcome \<Rightarrow> view list \<Rightarrow> view list" where
  "late_box out vs = (case out of Inl _ \<Rightarrow> vs | Inr resp \<Rightarrow> [VReview resp])"

definition answer_page :: "(json \<Rightarrow> jstr option) \<Rightarrow> nat \<Rightarrow> outcome \<Rightarrow> page \<Rightarrow> page" where
  "answer_page draw i out pg =
    (let (g, r) = pg_jobs pg ! i; (st, es) = finishReviewSync draw out (pg_state pg);
         own = (pg_here pg \<and> g = pg_gen pg) in
     pg\<lparr>pg_state := st,
        pg_busy := (if own then disabled_after sync_button es (pg_busy pg) else pg_busy pg),
        pg_jobs := remove_nth i (pg_jobs pg),
        pg_box := (if own then shown_in review_box es (pg_box pg)
                   else if pg_here pg then late_box out (pg_box pg) else pg_box pg),
        pg_log := pg_log pg @ (case out of Inr resp \<Rightarrow> [(sent_files r, resp)] | Inl _ \<Rightarrow> [])\<rparr>)"

text \<open>A task that was created opens its detail dialog, in place of the dialog that was open.\<close>

definition answer_async :: "(js_error \<Rightarrow> jstr) \<Rightarrow> nat \<Rightarrow> outcome \<Rightarrow> page \<Rightarrow> page" where
  "answer_async engine i out pg =
    (let (g, r) = pg_ajobs pg ! i; (st, es) = finishReviewAsync engine out (pg_state pg);
         own = (pg_here pg \<and> g = pg_gen pg) in
     pg\<lparr>pg_state := st,
        pg_abusy := (if own then disabled_after async_button es (pg_abusy pg) else pg_abusy pg),
        pg_ajobs := remove_nth i (pg_ajobs pg),
        pg_dialog := (if \<exists>t \<in> set es. case t of OpenTask _ \<Rightarrow> True | _ \<Rightarrow> False then [] else pg_dialog pg)\<rparr>)"

definition show_task_result :: "json \<Rightarrow> page \<Rightarrow> page" where
  "show_task_result resp pg =
    (if has_review resp
     then pg\<lparr>pg_state := (pg_state pg)\<lparr>result := resp\<rparr>, pg_dialog := [VReview resp]\<rparr>
     else pg\<lparr>pg_dialog := []\<rparr>)"

definition enter_page :: "page \<Rightarrow> page" where
  "enter_page pg = pg\<lparr>pg_here := True, pg_gen := Suc (pg_gen pg), pg_busy := False, pg_abusy := False, pg_box := []\<rparr>"

definition leave_page :: "page \<Rightarrow> page" where
  "leave_page pg = pg\<lparr>pg_here := False, pg_busy := False, pg_abusy := False, pg_box := []\<rparr>"

definition offers_rerun :: "(json \<Rightarrow> bool) \<Rightarrow> view list \<Rightarrow> bool" where
  "offers_rerun again vs = list_ex (\<lambda>v. case v of VReview r \<Rightarrow> has_review r \<and> again r | _ \<Rightarrow> False) vs"

inductive page_step ::
    "client \<Rightarrow> (js_error \<Rightarrow> jstr) \<Rightarrow> (json \<Rightarrow> jstr option) \<Rightarrow> (json \<Rightarrow> bool) \<Rightarrow> page \<Rightarrow> page_event \<Rightarrow> page \<Rightarrow> bool"
  for c engine draw again where
  input: "pg_here pg \<Longrightarrow> page_step c engine draw again pg (PInput ev) (input_page ev pg)"
| click: "pg_here pg \<Longrightarrow> \<not> pg_busy pg \<Longrightarrow> page_step c engine draw again pg PClick (submit_page c pg)"
| click_async: "pg_here pg \<Longrightarrow> \<not> pg_abusy pg \<Longrightarrow> page_step c engine draw again pg PClickAsync (submit_async c pg)"
| rerun: "pg_here pg \<Longrightarrow> offers_rerun again (pg_box pg @ pg_dialog pg) \<Longrightarrow>
    page_step c engine draw again pg PRerun (submit_page c pg)"
| answer: "i < length (pg_jobs pg) \<Longrightarrow> page_step c engine draw again pg (PAnswer i out) (answer_page draw i out pg)"
| answer_async: "i < length (pg_ajobs pg) \<Longrightarrow>
    page_step c engine draw again pg (PAnswerAsync i out) (answer_async engine i out pg)"
| dialog: "page_step c engine draw again pg (PDialog v) (show_task_result v pg)"
| close_dialog: "page_step c engine draw again pg PCloseDialog (pg\<lparr>pg_dialog := []\<rparr>)"
| install: "page_step c engine draw again pg (PInstall v) (pg\<lparr>pg_state := (pg_state pg)\<lparr>result := v\<rparr>\<rparr>)"
| leave: "page_step c engine draw again pg PLeave (leave_page pg)"
| enter: "page_step c engine draw again pg PEnter (enter_page pg)"

inductive_cases page_stepE: "page_step c engine draw again pg ev pg'"

text \<open>Pages reached by events that \<open>ok\<close> permits.\<close>

inductive page_reach ::
    "client \<Rightarrow> (js_error \<Rightarrow> jstr) \<Rightarrow> (json \<Rightarrow> jstr option) \<Rightarrow> (json \<Rightarrow> bool) \<Rightarrow> (page \<Rightarrow> page_event \<Rightarrow> bool) \<Rightarrow> env \<Rightarrow> page \<Rightarrow> bool"
  for c engine draw again ok e where
  start: "page_reach c engine draw again ok e (init_page e)"
| move: "page_reach c engine draw again ok e pg \<Longrightarrow> ok pg ev \<Longrightarrow> page_step c engine draw again pg ev pg' \<Longrightarrow>
    page_reach c engine draw again ok e pg'"

text \<open>Three disciplines: none; reviewing again only while the button is enabled; and no new choice of
  files while a request is in flight, nor a result from elsewhere.\<close>

definition any_event :: "page \<Rightarrow> page_event \<Rightarrow> bool" where
  "any_event pg ev = True"

definition patient :: "page \<Rightarrow> page_event \<Rightarrow> bool" where
  "patient pg ev \<longleftrightarrow> (case ev of PRerun \<Rightarrow> \<not> pg_busy pg | _ \<Rightarrow> True)"

definition calm :: "page \<Rightarrow> page_event \<Rightarrow> bool" where
  "calm pg ev \<longleftrightarrow> (case ev of
     PInput i \<Rightarrow> chooses_files i \<longrightarrow> pg_jobs pg = []
   | PDialog v \<Rightarrow> \<not> has_review v
   | PInstall v \<Rightarrow> False
   | _ \<Rightarrow> True)"

lemma submit_page_eq:
  "submit_page c pg = (if review_ready (pg_state pg)
     then pg\<lparr>pg_busy := True, pg_box := [VProgress], pg_jobs := pg_jobs pg
       @ [(pg_gen pg, api_upload c (js ''/contract-review'') (review_form (pg_state pg)))]\<rparr>
     else pg)"
proof (cases "review_ready (pg_state pg)")
  case False
  from validateReview_cases(2) [OF this] obtain m where "snd (validateReview (pg_state pg)) = [Toast m Warn]" ..
  with False show ?thesis by (simp add: submit_page_def submitReviewSync_eq)
qed (simp add: submit_page_def submitReviewSync_eq)

lemma submit_async_eq:
  "submit_async c pg = (if review_ready (pg_state pg)
     then pg\<lparr>pg_abusy := True, pg_ajobs := pg_ajobs pg
       @ [(pg_gen pg, api_upload c (js ''/contract-review-async'') (review_form (pg_state pg)))]\<rparr>
     else pg)"
  using async.declines [of "pg_state pg" c "pg_abusy pg"]
  by (auto simp: submit_async_def submitReviewAsync_eq)

lemma answer_page_sel [simp]:
  "pg_gen (answer_page draw i out pg) = pg_gen pg" "pg_here (answer_page draw i out pg) = pg_here pg"
  "pg_jobs (answer_page draw i out pg) = remove_nth i (pg_jobs pg)"
  "pg_ajobs (answer_page draw i out pg) = pg_ajobs pg" "pg_abusy (answer_page draw i out pg) = pg_abusy pg"
  "pg_busy (answer_page draw i out pg) = (pg_busy pg \<and> \<not> (pg_here pg \<and> fst (pg_jobs pg ! i) = pg_gen pg))"
  "pg_state (answer_page draw i out pg) = fst (finishReviewSync draw out (pg_state pg))"
  "pg_log (answer_page draw i out pg)
     = pg_log pg @ (case out of Inr resp \<Rightarrow> [(sent_files (snd (pg_jobs pg ! i)), resp)] | Inl _ \<Rightarrow> [])"
  "pg_here pg \<Longrightarrow> fst (pg_jobs pg ! i) \<noteq> pg_gen pg \<Longrightarrow> pg_box (answer_page draw i out pg) = late_box out (pg_box pg)"
  by (auto simp: answer_page_def case_prod_beta Let_def finishReviewSync_release)

lemma answer_async_sel [simp]:
  "pg_gen (answer_async engine i out pg) = pg_gen pg" "pg_here (answer_async engine i out pg) = pg_here pg"
  "pg_ajobs (answer_async engine i out pg) = remove_nth i (pg_ajobs pg)"
  "pg_jobs (answer_async engine i out pg) = pg_jobs pg" "pg_busy (answer_async engine i out pg) = pg_busy pg"
  "pg_abusy (answer_async engine i out pg) = (pg_abusy pg \<and> \<not> (pg_here pg \<and> fst (pg_ajobs pg ! i) = pg_gen pg))"
  "pg_state (answer_async engine i out pg) = pg_state pg" "pg_log (answer_async engine i out pg) = pg_log pg"
  by (auto simp: answer_async_def case_prod_beta Let_def async.releases)
    (auto simp: finishReviewAsync_def Let_def split: sum.splits)

lemma input_page_sel [simp]:
  "pg_gen (input_page ev pg) = pg_gen pg" "pg_here (input_page ev pg) = pg_here pg"
  "pg_jobs (input_page ev pg) = pg_jobs pg" "pg_ajobs (input_page ev pg) = pg_ajobs pg"
  "pg_busy (input_page ev pg) = pg_busy pg" "pg_abusy (input_page ev pg) = pg_abusy pg"
  "pg_state (input_page ev pg) = fst (review_input ev (pg_state pg))" "pg_log (input_page ev pg) = pg_log pg"
  by (simp_all add: input_page_def case_prod_beta Let_def)

text \<open>One button: each rendering has at most one request in flight, and the button of the rendering
  on show is disabled exactly while it has one. The invariant is the same for both buttons.\<close>

definition one_each :: "(nat \<times> 'r) list \<Rightarrow> nat \<Rightarrow> bool \<Rightarrow> bool \<Rightarrow> bool" where
  "one_each jobs gen here busy \<longleftrightarrow> distinct (map fst jobs) \<and> (\<forall>g \<in> fst ` set jobs. g \<le> gen)
     \<and> (busy \<longleftrightarrow> here \<and> gen \<in> fst ` set jobs)"

definition jobs_ok :: "page \<Rightarrow> bool" where
  "jobs_ok pg \<longleftrightarrow> one_each (pg_jobs pg) (pg_gen pg) (pg_here pg) (pg_busy pg)"

definition ajobs_ok :: "page \<Rightarrow> bool" where
  "ajobs_ok pg \<longleftrightarrow> one_each (pg_ajobs pg) (pg_gen pg) (pg_here pg) (pg_abusy pg)"

lemma remove_nth_split:
  assumes "i < length xs"
  obtains as x bs where "xs = as @ x # bs" "xs ! i = x" "remove_nth i xs = as @ bs"
  using id_take_nth_drop [OF assms] unfolding remove_nth_def by blast

lemma set_remove_nth: "set (remove_nth i xs) \<subseteq> set xs"
  by (auto simp: remove_nth_def dest: in_set_takeD in_set_dropD)

lemma one_each_send: "one_each jobs gen True False \<Longrightarrow> one_each (jobs @ [(gen, r)]) gen True True"
  by (auto simp: one_each_def)

lemma one_each_answer:
  assumes "one_each jobs gen here busy" "i < length jobs"
  shows "one_each (remove_nth i jobs) gen here (busy \<and> (here \<longrightarrow> fst (jobs ! i) \<noteq> gen))"
  using assms(1) by (rule_tac remove_nth_split [OF assms(2)]) (auto simp: one_each_def)

lemma one_each_enter: "one_each jobs gen here busy \<Longrightarrow> one_each jobs (Suc gen) True False"
  by (fastforce simp: one_each_def)

lemma one_each_leave: "one_each jobs gen here busy \<Longrightarrow> one_each jobs gen False False"
  by (auto simp: one_each_def)

lemmas one_each_rules = one_each_send one_each_answer one_each_enter one_each_leave

lemma jobs_ok_step: "page_step c engine draw again pg ev pg' \<Longrightarrow> patient pg ev \<Longrightarrow> jobs_ok pg \<Longrightarrow> jobs_ok pg'"
  by (induction rule: page_step.induct)
    (auto simp: jobs_ok_def submit_page_eq submit_async_eq patient_def enter_page_def leave_page_def
      show_task_result_def intro: one_each_rules)

lemma ajobs_ok_step: "page_step c engine draw again pg ev pg' \<Longrightarrow> ajobs_ok pg \<Longrightarrow> ajobs_ok pg'"
  by (induction rule: page_step.induct)
    (auto simp: ajobs_ok_def submit_page_eq submit_async_eq enter_page_def leave_page_def
      show_task_result_def intro: one_each_rules)

lemma jobs_ok_reach: "page_reach c engine draw again patient e pg \<Longrightarrow> jobs_ok pg"
proof (induction rule: page_reach.induct)
  case start
  then show ?case by (simp add: init_page_def jobs_ok_def one_each_def)
qed (rule jobs_ok_step)

lemma ajobs_ok_reach: "page_reach c engine draw again ok e pg \<Longrightarrow> ajobs_ok pg"
proof (induction rule: page_reach.induct)
  case start
  then show ?case by (simp add: init_page_def ajobs_ok_def one_each_def)
qed (rule ajobs_ok_step)

lemma sent_files_form [simp]: "sent_files (api_upload c p (review_form st)) = files st"
proof -
  have "concat (map (\<lambda>(k, v). case v of FFile f \<Rightarrow> [f] | _ \<Rightarrow> []) (map (\<lambda>f. (js ''files'', FFile f)) fs)) = fs"
    for fs by (induction fs) auto
  then show ?thesis
    by (simp add: sent_files_def api_upload_def review_form_def appendReviewContext_def)
qed

lemma review_form_eq:
  "review_form st = map (\<lambda>f. (js ''files'', FFile f)) (files st) @ [(js ''PackageId'', FText (packageId st))]
    @ map (\<lambda>(name, s). (name, FText s)) (filter (\<lambda>(name, s). s \<noteq> [])
        [(js ''ContractType'', contractType st), (js ''PartyPosition'', partyPosition st),
         (js ''Jurisdiction'', jurisdiction st), (js ''TransactionContext'', transactionContext st),
         (js ''ReviewScope'', reviewScope st)])"
  by (simp add: review_form_def appendReviewContext_def)

lemma text_fields_mem:
  "(k, FText s) \<in> set (map (\<lambda>(name, s). (name, FText s)) (filter (\<lambda>(name, s). s \<noteq> []) xs)) \<longleftrightarrow> s \<noteq> [] \<and> (k, s) \<in> set xs"
  by auto

text \<open>The form, read three ways: its files, its texts, and how often a name occurs.\<close>

lemma review_form_files:
  "filter (\<lambda>(k, v). case v of FFile _ \<Rightarrow> True | _ \<Rightarrow> False) (review_form st) = map (\<lambda>f. (js ''files'', FFile f)) (files st)"
proof -
  have "filter (\<lambda>(k, v). case v of FFile _ \<Rightarrow> True | _ \<Rightarrow> False) (map (\<lambda>f. (js ''files'', FFile f)) fs)
    = map (\<lambda>f. (js ''files'', FFile f)) fs" for fs by (induction fs) auto
  then show ?thesis by (simp add: review_form_eq)
qed

lemma review_form_texts:
  "(k, FText s) \<in> set (review_form st) \<longleftrightarrow> k = js ''PackageId'' \<and> s = packageId st
    \<or> s \<noteq> [] \<and> (k, s) \<in> set
        [(js ''ContractType'', contractType st), (js ''PartyPosition'', partyPosition st),
         (js ''Jurisdiction'', jurisdiction st), (js ''TransactionContext'', transactionContext st),
         (js ''ReviewScope'', reviewScope st)]"
  unfolding review_form_eq set_append Un_iff text_fields_mem by auto

lemma review_form_once:
  "length (review_form st) = length (files st) + 1 + length (filter (\<lambda>s. s \<noteq> [])
     [contractType st, partyPosition st, jurisdiction st, transactionContext st, reviewScope st])"
  by (simp add: review_form_eq)

lemma api_upload_sel:
  "url (api_upload c p form) = api_url c p" "payload (api_upload c p form) = FormBody form"
  by (simp_all add: api_upload_def)

text \<open>What the discipline keeps: the requests in flight carry the files on the page, and a result is the
  last answer in the history, which was for the files on the page.\<close>

definition results_own :: "page \<Rightarrow> bool" where
  "results_own pg \<longleftrightarrow> (\<forall>r \<in> snd ` set (pg_jobs pg). sent_files r = files (pg_state pg))
     \<and> (result (pg_state pg) \<noteq> JNull \<longrightarrow>
          pg_log pg \<noteq> [] \<and> last (pg_log pg) = (files (pg_state pg), result (pg_state pg)))"

lemma finish_files [simp]: "files (fst (finishReviewSync draw out st)) = files st"
  by (simp add: finishReviewSync_state split: sum.split)

lemma results_own_step:
  "page_step c engine draw again pg ev pg' \<Longrightarrow> calm pg ev \<Longrightarrow> results_own pg \<Longrightarrow> results_own pg'"
proof (induction rule: page_step.induct)
  case (input pg ev)
  then show ?case
    using review_input_files [of ev "pg_state pg"]
    by (cases "chooses_files ev") (auto simp: results_own_def calm_def)
next
  case (answer i pg out)
  then have "snd (pg_jobs pg ! i) \<in> snd ` set (pg_jobs pg)" by simp
  with answer show ?case
    using set_remove_nth [of i "pg_jobs pg"]
    by (fastforce simp: results_own_def finishReviewSync_state split: sum.splits)
qed (auto simp: results_own_def calm_def submit_page_eq submit_async_eq enter_page_def leave_page_def
      show_task_result_def split: if_splits)

lemma results_own_reach: "page_reach c engine draw again calm e pg \<Longrightarrow> results_own pg"
proof (induction rule: page_reach.induct)
  case start
  then show ?case by (simp add: init_page_def init_review_def results_own_def)
next
  case (move pg ev pg')
  then show ?case using results_own_step by blast
qed

text \<open>The runs that the properties start from: one file chosen, and then sent.\<close>

definition chosen_page :: "env \<Rightarrow> jsfile \<Rightarrow> page" where
  "chosen_page e f = input_page (ChooseFiles e [f] no_options) (init_page e)"

lemma chosen_page_sel [simp]:
  "review_ready (pg_state (chosen_page e f))" "files (pg_state (chosen_page e f)) = [f]"
  "pg_jobs (chosen_page e f) = []" "\<not> pg_busy (chosen_page e f)" "pg_here (chosen_page e f)" "pg_gen (chosen_page e f) = 0"
  by (simp_all add: chosen_page_def init_page_def review_input_def review_ready_def setReviewFiles_def
      init_review_def fresh_id_ne Let_def)

lemma chosen_page_reach: "ok (init_page e) (PInput (ChooseFiles e [f] no_options)) \<Longrightarrow>
  page_reach c engine draw again ok e (chosen_page e f)"
  unfolding chosen_page_def
  by (rule page_reach.move [OF page_reach.start _ page_step.input]) (simp_all add: init_page_def)

lemma sent_page_reach: "ok (init_page e) (PInput (ChooseFiles e [f] no_options)) \<Longrightarrow> ok (chosen_page e f) PClick \<Longrightarrow>
  page_reach c engine draw again ok e (submit_page c (chosen_page e f))"
  by (rule page_reach.move [OF chosen_page_reach _ page_step.click]) simp_all

section \<open>Properties\<close>

text \<open>C36: a review request carries every chosen file, in order, and as texts exactly the package id and
  those of the five context fields that are filled in, each once and under its own name. The
  asynchronous review sends the same form to its own address.\<close>

theorem review_request_complete:
  assumes "review_ready st"
  shows "\<exists>form. (\<exists>r. requests_in (snd (submitReviewSync c st)) = [r]
        \<and> url r = api_url c (js ''/contract-review'') \<and> payload r = FormBody form)
    \<and> (\<exists>r. requests_in (snd (submitReviewAsync c st)) = [r]
        \<and> url r = api_url c (js ''/contract-review-async'') \<and> payload r = FormBody form)
    \<and> filter (\<lambda>(k, v). case v of FFile _ \<Rightarrow> True | _ \<Rightarrow> False) form = map (\<lambda>f. (js ''files'', FFile f)) (files st)
    \<and> (\<forall>k s. (k, FText s) \<in> set form \<longleftrightarrow> k = js ''PackageId'' \<and> s = packageId st
        \<or> s \<noteq> [] \<and> (k, s) \<in> set
          [(js ''ContractType'', contractType st), (js ''PartyPosition'', partyPosition st),
           (js ''Jurisdiction'', jurisdiction st), (js ''TransactionContext'', transactionContext st),
           (js ''ReviewScope'', reviewScope st)])
    \<and> length form = length (files st) + 1 + length (filter (\<lambda>s. s \<noteq> [])
        [contractType st, partyPosition st, jurisdiction st, transactionContext st, reviewScope st])"
  using assms
  by (intro exI [of _ "review_form st"] conjI review_form_files review_form_once allI review_form_texts)
    (simp_all add: submitReviewSync_eq submitReviewAsync_eq api_upload_sel)

theorem review_request_complete_witness:
  "let st = (init_review demo_env)\<lparr>files := [demo_file ''a'' 1, demo_file ''b'' 2], jurisdiction := js ''CN''\<rparr>
   in \<exists>r form. requests_in (snd (submitReviewSync init_client st)) = [r] \<and> payload r = FormBody form
     \<and> (js ''Jurisdiction'', FText (js ''CN'')) \<in> set form \<and> length form = 4"
proof -
  have "review_ready ((init_review demo_env)\<lparr>files := [demo_file ''a'' 1, demo_file ''b'' 2], jurisdiction := js ''CN''\<rparr>)"
    by (simp add: review_ready_def init_review_def fresh_id_ne)
  from review_request_complete [OF this, of init_client] show ?thesis
    unfolding Let_def by (elim exE conjE) (auto simp: init_review_def js_eval)
qed

text \<open>C23: a click on the synchronous review with no file or no package id changes nothing, sends nothing
  and warns once. A click with both sends one request and disables the button, and when the answer is
  settled the button is enabled again. It stays disabled for ever in exactly one case: a failure whose
  error body cannot be turned into text leaves the promise pending.\<close>

theorem review_button_released:
  "(\<not> review_ready st \<longrightarrow> fst (run_upload (submitReviewSync c) (finishReviewSync draw) r st) = st
      \<and> (\<exists>m. snd (run_upload (submitReviewSync c) (finishReviewSync draw) r st) = [Toast m Warn]))
   \<and> (review_ready st \<longrightarrow> disabled_after sync_button (snd (submitReviewSync c st)) False
      \<and> length (requests_in (snd (run_upload (submitReviewSync c) (finishReviewSync draw) r st))) = 1
      \<and> (disabled_after sync_button (snd (run_upload (submitReviewSync c) (finishReviewSync draw) r st)) False
          \<longleftrightarrow> upload_outcome r = None))"
proof (intro conjI impI)
  assume nr: "\<not> review_ready st"
  from validateReview_cases(2) [OF this] obtain m where m: "snd (validateReview st) = [Toast m Warn]" ..
  with nr have eq: "submitReviewSync c st = (st, [Toast m Warn])" by (simp add: submitReviewSync_eq)
  show "fst (run_upload (submitReviewSync c) (finishReviewSync draw) r st) = st"
    "\<exists>m. snd (run_upload (submitReviewSync c) (finishReviewSync draw) r st) = [Toast m Warn]"
    by (simp_all add: run_upload_def eq)
next
  assume rd: "review_ready st"
  show "disabled_after sync_button (snd (submitReviewSync c st)) False" using sync.takes [OF rd] by simp
  show "length (requests_in (snd (run_upload (submitReviewSync c) (finishReviewSync draw) r st))) = 1"
    using rd by (simp add: run_upload_def submitReviewSync_eq finishReviewSync_sends split: option.split prod.split)
      (metis finishReviewSync_sends snd_conv)
  show "disabled_after sync_button (snd (run_upload (submitReviewSync c) (finishReviewSync draw) r st)) False
      \<longleftrightarrow> upload_outcome r = None"
    using rd by (rule sync.stuck_iff_unsettled)
qed

theorem review_button_released_witness:
  "let st = (init_review demo_env)\<lparr>files := [demo_file ''a'' 1]\<rparr>;
       run = run_upload (submitReviewSync init_client) (finishReviewSync (\<lambda>_. None)) (NoResponse [])
   in fst (run (init_review demo_env)) = init_review demo_env
     \<and> length (requests_in (snd (run st))) = 1 \<and> \<not> disabled_after sync_button (snd (run st)) False"
proof -
  have nr: "\<not> review_ready (init_review demo_env)" by (simp add: review_ready_def init_review_def)
  have rd: "review_ready ((init_review demo_env)\<lparr>files := [demo_file ''a'' 1]\<rparr>)"
    by (simp add: review_ready_def init_review_def fresh_id_ne)
  show ?thesis
    using review_button_released [of "init_review demo_env" init_client "\<lambda>_. None" "NoResponse []"] nr
      review_button_released [of "(init_review demo_env)\<lparr>files := [demo_file ''a'' 1]\<rparr>" init_client "\<lambda>_. None" "NoResponse []"] rd
    by (simp add: Let_def)
qed

text \<open>The same for the asynchronous review and for the comparison.\<close>

theorem async_and_compare_buttons_released:
  "(disabled_after async_button (snd (run_upload (submitReviewAsync c) (finishReviewAsync engine) r st)) False
      \<longleftrightarrow> review_ready st \<and> upload_outcome r = None) \<and>
   (disabled_after compare_button (snd (run_upload (submitCompare c) (finishCompare engine draw) r a)) False
      \<longleftrightarrow> compare_ready a \<and> upload_outcome r = None)"
proof
  show "disabled_after async_button (snd (run_upload (submitReviewAsync c) (finishReviewAsync engine) r st)) False
      \<longleftrightarrow> review_ready st \<and> upload_outcome r = None"
  proof (cases "review_ready st")
    case False
    with async.declines [OF this, of c False] show ?thesis
      by (simp add: run_upload_def case_prod_beta Let_def)
  qed (simp add: async.stuck_iff_unsettled)
  show "disabled_after compare_button (snd (run_upload (submitCompare c) (finishCompare engine draw) r a)) False
      \<longleftrightarrow> compare_ready a \<and> upload_outcome r = None"
  proof (cases "compare_ready a")
    case False
    with comparing.declines [OF this, of c False] show ?thesis
      by (simp add: run_upload_def case_prod_beta Let_def)
  qed (simp add: comparing.stuck_iff_unsettled)
qed

text \<open>C2: the buttons of the review page and their requests, over all orders of entries, clicks, answers,
  dialogs and page changes. Each rendering has at most one asynchronous submission in flight, and its
  button is disabled exactly while it has. The same holds of the synchronous button as long as the button
  that reviews again is only used while it is enabled. Without that it fails: re-reviewing ignores the
  disabled button, so after a first answer that comes late, and is drawn into the new rendering, one
  rendering has two requests in flight, and the answer to either enables the button while the other
  is still waited for.\<close>

theorem one_request_per_rendering:
  "(page_reach c engine draw again ok e pg \<longrightarrow>
      distinct (map fst (pg_ajobs pg)) \<and> (pg_abusy pg \<longleftrightarrow> pg_here pg \<and> pg_gen pg \<in> fst ` set (pg_ajobs pg)))
   \<and> (page_reach c engine draw again patient e pg \<longrightarrow>
      distinct (map fst (pg_jobs pg)) \<and> (pg_busy pg \<longleftrightarrow> pg_here pg \<and> pg_gen pg \<in> fst ` set (pg_jobs pg)))
   \<and> (has_review v \<and> again v \<longrightarrow>
      (\<exists>pg2 pg3. page_reach c engine draw again any_event e pg2 \<and> map fst (pg_jobs pg2) = [pg_gen pg2, pg_gen pg2]
        \<and> page_reach c engine draw again any_event e pg3 \<and> \<not> pg_busy pg3 \<and> pg_here pg3 \<and> map fst (pg_jobs pg3) = [pg_gen pg3]))"
proof (intro conjI impI)
  assume "page_reach c engine draw again ok e pg"
  then have "ajobs_ok pg" by (rule ajobs_ok_reach)
  then show "distinct (map fst (pg_ajobs pg))" "pg_abusy pg \<longleftrightarrow> pg_here pg \<and> pg_gen pg \<in> fst ` set (pg_ajobs pg)"
    by (simp_all add: ajobs_ok_def one_each_def)
next
  assume "page_reach c engine draw again patient e pg"
  then have "jobs_ok pg" by (rule jobs_ok_reach)
  then show "distinct (map fst (pg_jobs pg))" "pg_busy pg \<longleftrightarrow> pg_here pg \<and> pg_gen pg \<in> fst ` set (pg_jobs pg)"
    by (simp_all add: jobs_ok_def one_each_def)
next
  assume v: "has_review v \<and> again v"
  define p2 where "p2 = submit_page c (enter_page (submit_page c (chosen_page e (demo_file ''a'' 1))))"
  define p3 where "p3 = answer_page draw 0 (Inr v) p2"
  define p4 where "p4 = submit_page c p3"
  define p5 where "p5 = answer_page draw 0 (Inr v) p4"
  have r2: "page_reach c engine draw again any_event e p2"
    unfolding p2_def
    by (intro page_reach.move [OF _ _ page_step.click] page_reach.move [OF _ _ page_step.enter] sent_page_reach)
      (simp_all add: any_event_def enter_page_def submit_page_eq)
  have s2: "map fst (pg_jobs p2) = [0, 1]" "pg_gen p2 = 1" "pg_here p2" "review_ready (pg_state p2)" "length (pg_jobs p2) = 2"
    by (simp_all add: p2_def enter_page_def submit_page_eq)
  have f2: "fst (pg_jobs p2 ! 0) = 0" using s2(1,5) by (metis nth_map nth_Cons_0 zero_less_numeral)
  have r3: "page_reach c engine draw again any_event e p3"
    unfolding p3_def by (rule page_reach.move [OF r2 _ page_step.answer]) (simp_all add: any_event_def s2)
  have s3: "map fst (pg_jobs p3) = [1]" "pg_gen p3 = 1" "pg_here p3" "review_ready (pg_state p3)" "pg_box p3 = [VReview v]"
    using s2 f2 by (simp_all add: p3_def remove_nth_def drop_Suc map_tl late_box_def finishReviewSync_state review_ready_def)
  have r4: "page_reach c engine draw again any_event e p4"
    unfolding p4_def by (rule page_reach.move [OF r3 _ page_step.rerun])
      (use v in \<open>simp_all add: any_event_def s3 offers_rerun_def\<close>)
  have s4: "map fst (pg_jobs p4) = [1, 1]" "pg_gen p4 = 1" "pg_here p4" "length (pg_jobs p4) = 2"
  proof -
    show m: "map fst (pg_jobs p4) = [1, 1]" using s3 by (simp add: p4_def submit_page_eq)
    then show "length (pg_jobs p4) = 2" using length_map [of fst "pg_jobs p4"] by simp
  qed (use s3 in \<open>simp_all add: p4_def submit_page_eq\<close>)
  have f4: "fst (pg_jobs p4 ! 0) = 1" using s4(1,4) by (metis nth_map nth_Cons_0 zero_less_numeral)
  have r5: "page_reach c engine draw again any_event e p5"
    unfolding p5_def by (rule page_reach.move [OF r4 _ page_step.answer]) (simp_all add: any_event_def s4)
  have s5: "\<not> pg_busy p5" "pg_here p5" "map fst (pg_jobs p5) = [pg_gen p5]"
    using s4 f4 by (simp_all add: p5_def remove_nth_def drop_Suc map_tl)
  show "\<exists>pg2 pg3. page_reach c engine draw again any_event e pg2 \<and> map fst (pg_jobs pg2) = [pg_gen pg2, pg_gen pg2]
      \<and> page_reach c engine draw again any_event e pg3 \<and> \<not> pg_busy pg3 \<and> pg_here pg3 \<and> map fst (pg_jobs pg3) = [pg_gen pg3]"
    using r4 r5 s4 s5 by (intro exI [of _ p4] exI [of _ p5]) simp
qed

theorem one_request_per_rendering_witness:
  "let p = submit_page init_client (chosen_page demo_env (demo_file ''a'' 1)) in
   pg_busy p \<and> map fst (pg_jobs p) = [0] \<and> (pg_busy p \<longleftrightarrow> pg_here p \<and> pg_gen p \<in> fst ` set (pg_jobs p))
   \<and> (\<exists>pg2. map fst (pg_jobs pg2) = [pg_gen pg2, pg_gen pg2]
        \<and> page_reach init_client (\<lambda>_. []) (\<lambda>_. None) (\<lambda>_. True) any_event demo_env pg2)"
proof -
  define p where "p = submit_page init_client (chosen_page demo_env (demo_file ''a'' 1))"
  define v where "v = JObj [(js ''review_result'', JBool True)]"
  have "page_reach init_client (\<lambda>_. []) (\<lambda>_. None) (\<lambda>_. True) patient demo_env p"
    unfolding p_def by (rule sent_page_reach) (simp_all add: patient_def)
  moreover have "has_review v" by (simp add: v_def has_review_def)
  moreover have "pg_busy p" "map fst (pg_jobs p) = [0]" by (simp_all add: p_def submit_page_eq)
  ultimately show ?thesis
    using one_request_per_rendering [of init_client "\<lambda>_. []" "\<lambda>_. None" "\<lambda>_. True" patient demo_env p v]
    unfolding Let_def p_def [symmetric] by (simp only: HOL.simp_thms) metis
qed

text \<open>C3: as long as no files are chosen while a request is in flight, and no dialog, comparison or draft
  review puts its own result in, any result that the page holds is the last good answer to one of its
  requests, and that request carried exactly the files that are on the page now.\<close>

theorem result_belongs_to_files:
  assumes "page_reach c engine draw again calm e pg" "result (pg_state pg) \<noteq> JNull"
  shows "pg_log pg \<noteq> [] \<and> last (pg_log pg) = (files (pg_state pg), result (pg_state pg))"
  using results_own_reach [OF assms(1)] assms(2) by (simp add: results_own_def)

theorem result_belongs_to_files_witness:
  "let v = JObj [(js ''review_result'', JBool True)];
       p = answer_page (\<lambda>_. None) 0 (Inr v) (submit_page init_client (chosen_page demo_env (demo_file ''a'' 1)))
   in result (pg_state p) = v \<and> last (pg_log p) = ([demo_file ''a'' 1], v)"
proof -
  define v where "v = JObj [(js ''review_result'', JBool True)]"
  define p1 where "p1 = submit_page init_client (chosen_page demo_env (demo_file ''a'' 1))"
  define p where "p = answer_page (\<lambda>_. None) 0 (Inr v) p1"
  have "page_reach init_client (\<lambda>_. []) (\<lambda>_. None) (\<lambda>_. True) calm demo_env p1"
    unfolding p1_def by (rule sent_page_reach) (simp_all add: calm_def init_page_def)
  then have "page_reach init_client (\<lambda>_. []) (\<lambda>_. None) (\<lambda>_. True) calm demo_env p"
    unfolding p_def by (rule page_reach.move [OF _ _ page_step.answer]) (simp_all add: calm_def p1_def submit_page_eq)
  moreover have res: "result (pg_state p) = v" "files (pg_state p) = [demo_file ''a'' 1]"
    by (simp_all add: p_def p1_def submit_page_eq finishReviewSync_state)
  ultimately show ?thesis
    using result_belongs_to_files [of init_client "\<lambda>_. []" "\<lambda>_. None" "\<lambda>_. True" demo_env p]
    unfolding Let_def v_def [symmetric] p1_def [symmetric] p_def [symmetric] by (simp add: v_def)
qed

text \<open>C4: without that discipline it is not: a file added while the review is in flight clears the
  result, and the late answer puts back the review of the earlier selection beside the new one: the last
  answer was for \<open>f\<close> alone, and the page has \<open>f\<close> and \<open>g\<close>.\<close>

theorem late_answer_shows_other_files:
  assumes "fileKey f \<noteq> fileKey g"
  shows "\<exists>pg. page_reach c engine draw again any_event e pg \<and> files (pg_state pg) = [f, g]
    \<and> pg_log pg = [([f], resp)] \<and> result (pg_state pg) = resp \<and> pg_jobs pg = []"
proof -
  define p2 where "p2 = submit_page c (chosen_page e f)"
  define p3 where "p3 = input_page (ChooseFiles e [g] no_options) p2"
  define p4 where "p4 = answer_page draw 0 (Inr resp) p3"
  have r2: "page_reach c engine draw again any_event e p2"
    unfolding p2_def by (rule sent_page_reach) (simp_all add: any_event_def)
  have p2: "files (pg_state p2) = [f]" "length (pg_jobs p2) = 1" "sent_files (snd (pg_jobs p2 ! 0)) = [f]" "pg_here p2" "pg_log p2 = []"
    by (simp_all add: p2_def submit_page_eq) (simp add: chosen_page_def init_page_def)
  have r3: "page_reach c engine draw again any_event e p3"
    unfolding p3_def by (rule page_reach.move [OF r2 _ page_step.input]) (simp_all add: any_event_def p2)
  have p3: "files (pg_state p3) = [f, g]" "pg_jobs p3 = pg_jobs p2" "pg_log p3 = []"
    using p2 assms by (simp_all add: p3_def review_input_def setReviewFiles_files no_options_def mergeFiles_eq)
  have "page_reach c engine draw again any_event e p4"
    unfolding p4_def by (rule page_reach.move [OF r3 _ page_step.answer]) (simp_all add: any_event_def p2 p3)
  moreover have "files (pg_state p4) = [f, g] \<and> pg_log p4 = [([f], resp)] \<and> result (pg_state p4) = resp \<and> pg_jobs p4 = []"
    using p2 p3 by (simp add: p4_def finishReviewSync_state remove_nth_def)
  ultimately show ?thesis by blast
qed

theorem late_answer_shows_other_files_witness:
  "\<exists>pg. page_reach init_client (\<lambda>_. []) (\<lambda>_. None) (\<lambda>_. True) any_event demo_env pg
    \<and> files (pg_state pg) = [demo_file ''a'' 1, demo_file ''b'' 2] \<and> pg_log pg = [([demo_file ''a'' 1], JNull)]"
  using late_answer_shows_other_files [of "demo_file ''a'' 1" "demo_file ''b'' 2" init_client "\<lambda>_. []" "\<lambda>_. None" "\<lambda>_. True" demo_env JNull]
  by (auto simp: fileKey_eq demo_file_def texts)

text \<open>The comparison dialog opens with every box clear but keeps the flags of the last one: a flag
  ticked before is still sent although the dialog shows it unticked.\<close>

theorem compare_flag_survives_reopening:
  assumes "(k, label) \<in> set compareIgnoreFlags"
  shows "let (a1, bx1, _) = openCompareDialog a; (a2, bx2) = tickIgnoreFlag k True (a1, bx1);
      (a3, bx3, _) = openCompareDialog a2
    in \<not> bx3 k \<and> (k, FText (js ''true'')) \<in> set (compare_form (compare a3) b d res)"
  using assms by (auto simp: openCompareDialog_def tickIgnoreFlag_def compare_form_def Let_def)

theorem compare_flag_survives_reopening_witness:
  "let (a1, bx1, _) = openCompareDialog (init_app demo_env);
      (a2, bx2) = tickIgnoreFlag (js ''ignore_seals'') True (a1, bx1);
      (a3, bx3, _) = openCompareDialog a2
    in \<not> bx3 (js ''ignore_seals'') \<and> (js ''ignore_seals'', FText (js ''true''))
      \<in> set (compare_form (compare a3) (demo_file ''a'' 1) (demo_file ''b'' 2) JNull)"
  by (rule compare_flag_survives_reopening [where label = "[0x5FFD, 0x7565, 0x5370, 0x7AE0]"]) (simp add: compareIgnoreFlags_def)

text \<open>A comparison never loses a review: after a successful answer the page's result is the one the
  answer carries, or the old one when it carries none; a failed comparison leaves it alone.\<close>

theorem compare_keeps_review:
  "result (review (fst (finishCompare engine draw out a))) = (case out of
     Inl _ \<Rightarrow> result (review a)
   | Inr resp \<Rightarrow> if has_review resp then JObj [(js ''review_result'', jget resp (js ''review_result''))]
                else result (review a))"
proof (cases out)
  case (Inr resp)
  have "\<not> has_review JNull" "\<not> has_review JUndef" by (simp_all add: has_review_def)
  with Inr show ?thesis
    by (auto simp: finishCompare_def compare_answer_def jmember_def has_review_def Let_def
        split: option.splits prod.splits)
qed (simp add: finishCompare_def Let_def)

end
