(* ===== verification/ElementForm.thy ===== *)
theory ElementForm
  imports FilePool Verdict
begin

text \<open>
  The element form of the draft page: which fields it shows (\<open>elementFormItems\<close>), the suggestions
  of a field (\<open>candidateValues\<close>, \<open>elementFieldHint\<close>), and the input boxes with their shadow copy
  \<open>elementsState.overrides\<close> (typing, picking a suggestion, \<open>fillAllExtracted\<close>,
  \<open>collectElementValues\<close>).
\<close>

section \<open>Items\<close>

fun jarr :: "json \<Rightarrow> json list" where
  "jarr (JArr xs) = xs"
| "jarr v = []"

fun jtext :: "json \<Rightarrow> jstr" where
  "jtext (JStr s) = s"
| "jtext v = []"

text \<open>\<open>===\<close>: arrays and objects of two JSON documents are never the same object.\<close>

definition strictly_equal :: "json \<Rightarrow> json \<Rightarrow> bool" where
  "strictly_equal a b \<longleftrightarrow> a = b \<and> (case a of JArr _ \<Rightarrow> False | JObj _ \<Rightarrow> False | _ \<Rightarrow> True)"

text \<open>\<open>v ?? 0\<close> for an integer field.\<close>

definition json_int :: "json \<Rightarrow> int" where
  "json_int v = (case v of JNum (c # ds) \<Rightarrow> if c = 45 then - int (undec ds) else int (undec (c # ds)) | _ \<Rightarrow> 0)"

record form_item =
  fi_key :: jstr
  fi_label :: json
  fi_value :: json
  fi_source :: json
  fi_confidence :: json
  fi_quote :: json
  fi_hint :: json
  fi_required :: bool
  fi_candidates :: "json list"

definition result_item :: "json \<Rightarrow> form_item" where
  "result_item it =
     \<lparr>fi_key = jtext (jget it (js ''key'')), fi_label = jget it (js ''label''),
      fi_value = json_or (jget it (js ''value'')) (JStr []),
      fi_source = json_or (jget it (js ''source'')) (JStr (js ''empty'')),
      fi_confidence = (case jget it (js ''confidence'') of JNum t \<Rightarrow> JNum t | _ \<Rightarrow> JNull),
      fi_quote = json_or (jget it (js ''quote'')) (JStr []),
      fi_hint = json_or (jget it (js ''hint'')) (JStr []),
      fi_required = json_truthy (jget it (js ''required'')),
      fi_candidates = filter (\<lambda>v. json_truthy v \<and> \<not> strictly_equal v (jget it (js ''value'')))
        (jarr (jget it (js ''candidates'')))\<rparr>"

definition catalog_item :: "json \<Rightarrow> form_item" where
  "catalog_item it =
     \<lparr>fi_key = jtext (jget it (js ''key'')), fi_label = jget it (js ''label''),
      fi_value = JStr [], fi_source = JStr (js ''empty''), fi_confidence = JNull,
      fi_quote = JStr [], fi_hint = json_or (jget it (js ''hint'')) (JStr []),
      fi_required = json_truthy (jget it (js ''required'')), fi_candidates = []\<rparr>"

definition elementFormItems :: "elements_state \<Rightarrow> form_item list" where
  "elementFormItems st =
    (let fields = jarr (jget (elForm st) (js ''fields'')) in
     if fields \<noteq> [] then map result_item fields
     else map catalog_item (sort_key (\<lambda>it. json_int (jget it (js ''sort_order'')))
       (filter (\<lambda>it. jget it (js ''enabled'') \<noteq> JBool False)
         (jarr (jget (elCatalog st) (js ''fields''))))))"

definition elementsStatusText :: "elements_state \<Rightarrow> jstr" where
  "elementsStatusText st =
    (let fields = jarr (jget (elForm st) (js ''fields'')) in
     if fields = [] then [0x5148, 0x6DFB, 0x52A0, 0x5408, 0x540C, 0x9644, 0x4EF6, 0xFF0C, 0x518D, 0x70B9, 0x529F, 0x80FD, 0x6309, 0x94AE]
     else [0x5171, 0x0020] @ dec (length fields) @ [0x0020, 0x9879, 0x8981, 0x7D20, 0xFF0C, 0x5DF2, 0x62BD, 0x5230, 0x0020]
       @ dec (length (filter (\<lambda>it. json_truthy (jget it (js ''value''))) fields)) @ [0x0020, 0x9879])"

section \<open>Suggestions\<close>

fun candidate_loop :: "json set \<Rightarrow> json list \<Rightarrow> json list \<Rightarrow> js_error + json list" where
  "candidate_loop seen acc [] = Inr acc"
| "candidate_loop seen acc (v # vs) =
    (case to_string (json_or v (JStr [])) of
       Inl x \<Rightarrow> Inl x
     | Inr s \<Rightarrow> let t = trim s in
         if t = [] \<or> JStr t \<in> seen then candidate_loop seen acc vs
         else candidate_loop (insert (JStr t) seen) (acc @ [JStr t]) vs)"

definition candidateValues :: "form_item \<Rightarrow> js_error + json list" where
  "candidateValues it =
    (if json_truthy (fi_value it) then candidate_loop {fi_value it} [fi_value it] (fi_candidates it)
     else candidate_loop {} [] (fi_candidates it))"

definition ELEMENT_SOURCE_META :: "meta obj" where
  "ELEMENT_SOURCE_META = [
     meta_row ''rule'' [0x89C4, 0x5219, 0x62BD, 0x5230] ''green'',
     meta_row ''ai'' [0x0041, 0x0049, 0x0020, 0x8865, 0x5168] ''blue'',
     meta_row ''merged'' [0x89C4, 0x5219, 0x002B, 0x0041, 0x0049] ''orange'',
     meta_row ''empty'' [0x672A, 0x62BD, 0x5230] ''gray'']"

text \<open>\<open>fixed2\<close> is \<open>n.toFixed(2)\<close> of a JSON number. A source that names a member of
  \<open>Object.prototype\<close> finds a label that is undefined.\<close>

definition elementFieldHint :: "(jstr \<Rightarrow> jstr) \<Rightarrow> form_item \<Rightarrow> json \<Rightarrow> jstr" where
  "elementFieldHint fixed2 it v =
    (if \<not> json_truthy v then []
     else join [10]
       ([[0x6765, 0x6E90, 0xFF1A] @ (case obj_get ELEMENT_SOURCE_META (jtext (fi_source it)) of
            Own m \<Rightarrow> label m | Inherited \<Rightarrow> js ''undefined'' | Missing \<Rightarrow> [0x672A, 0x62BD, 0x5230])]
        @ (case fi_confidence it of JNum t \<Rightarrow> [[0x7F6E, 0x4FE1, 0x5EA6, 0xFF1A] @ fixed2 t] | _ \<Rightarrow> [])
        @ (if json_truthy (fi_quote it) then [[0x4F9D, 0x636E, 0xFF1A] @ jtext (fi_quote it)] else [])))"

section \<open>Input boxes\<close>

text \<open>The boxes of the page in order: the field's key and the text in the box.\<close>

type_synonym inputs = "(jstr \<times> jstr) list"

definition dom_text :: "json \<Rightarrow> jstr" where
  "dom_text v = (case to_string v of Inr s \<Rightarrow> s | Inl _ \<Rightarrow> [])"

definition shown_value :: "elements_state \<Rightarrow> jstr \<Rightarrow> jstr" where
  "shown_value st k = (case obj_get (elOverrides st) k of
     Own v \<Rightarrow> if v = JNull \<or> v = JUndef then [] else dom_text v
   | Inherited \<Rightarrow> js ''function''
   | Missing \<Rightarrow> [])"

text \<open>\<open>buildInlineFillField\<close> for every item: what a newly drawn form shows.\<close>

definition render_inputs :: "elements_state \<Rightarrow> inputs" where
  "render_inputs st = map (\<lambda>it. (fi_key it, shown_value st (fi_key it))) (elementFormItems st)"

definition override :: "jstr \<Rightarrow> json \<Rightarrow> elements_state \<Rightarrow> elements_state" where
  "override k v st = st\<lparr>elOverrides := obj_put (elOverrides st) k v\<rparr>"

text \<open>Typing in the \<open>i\<close>-th box, and choosing the \<open>j\<close>-th suggestion under it.\<close>

definition type_in :: "nat \<Rightarrow> jstr \<Rightarrow> elements_state \<times> inputs \<Rightarrow> elements_state \<times> inputs" where
  "type_in i s = (\<lambda>(st, ins). if i < length (elementFormItems st) then
     let k = fi_key (elementFormItems st ! i) in (override k (JStr s) st, ins[i := (k, s)]) else (st, ins))"

definition pick_in :: "nat \<Rightarrow> nat \<Rightarrow> elements_state \<times> inputs \<Rightarrow> elements_state \<times> inputs" where
  "pick_in i j = (\<lambda>(st, ins). if i < length (elementFormItems st) then
     (case candidateValues (elementFormItems st ! i) of
        Inl _ \<Rightarrow> (st, ins)
      | Inr vs \<Rightarrow> if j < length vs then
          let k = fi_key (elementFormItems st ! i) in (override k (vs ! j) st, ins[i := (k, dom_text (vs ! j))])
          else (st, ins))
     else (st, ins))"

text \<open>\<open>querySelector\<close> finds the first box of the key.\<close>

fun set_input :: "jstr \<Rightarrow> jstr \<Rightarrow> inputs \<Rightarrow> inputs" where
  "set_input k s [] = []"
| "set_input k s ((k', s') # ins) = (if k' = k then (k, s) # ins else (k', s') # set_input k s ins)"

definition fill_value :: "form_item \<Rightarrow> json" where
  "fill_value it = json_or (fi_value it) (hd (fi_candidates it))"

definition fill_items :: "elements_state \<Rightarrow> form_item list" where
  "fill_items st = filter (\<lambda>it. json_truthy (fi_value it) \<or> fi_candidates it \<noteq> []) (elementFormItems st)"

definition fill_one :: "form_item \<Rightarrow> elements_state \<times> inputs \<Rightarrow> elements_state \<times> inputs" where
  "fill_one it = (\<lambda>(st, ins). (override (fi_key it) (fill_value it) st,
     set_input (fi_key it) (dom_text (fill_value it)) ins))"

definition fillAllExtracted :: "elements_state \<times> inputs \<Rightarrow> (elements_state \<times> inputs) \<times> effect list" where
  "fillAllExtracted s = (fold fill_one (fill_items (fst s)) s,
     [Toast ([0x5DF2, 0x586B, 0x5165, 0x0020] @ dec (length (fill_items (fst s))) @ [0x0020, 0x4E2A, 0x5B57, 0x6BB5, 0xFF0C, 0x53EF, 0x7EE7, 0x7EED, 0x624B, 0x5DE5, 0x4FEE, 0x6539]) Ok])"

definition collectElementValues :: "inputs \<Rightarrow> jstr obj" where
  "collectElementValues ins = fold (\<lambda>(k, s) ob. obj_put ob k (trim s)) ins []"

definition confirmElementsFill :: "inputs \<Rightarrow> jstr \<times> effect list" where
  "confirmElementsFill ins =
    (json_pretty (JObj (map (\<lambda>(k, s). (k, JStr s)) (collectElementValues ins))),
     [Toast [0x5DF2, 0x786E, 0x8BA4, 0x8981, 0x7D20, 0xFF0C, 0x004A, 0x0053, 0x004F, 0x004E, 0x0020, 0x5DF2, 0x590D, 0x5236, 0xFF0C, 0x53EF, 0x586B, 0x5145, 0x5230, 0x5408, 0x540C, 0x6A21, 0x5757] Ok])"

datatype edit = TypeIn nat jstr | Pick nat nat | FillAll

fun edit_form :: "edit \<Rightarrow> elements_state \<times> inputs \<Rightarrow> elements_state \<times> inputs" where
  "edit_form (TypeIn i s) x = type_in i s x"
| "edit_form (Pick i j) x = pick_in i j x"
| "edit_form FillAll x = fst (fillAllExtracted x)"

section \<open>Facts about suggestions\<close>

lemma candidate_loop_spec:
  assumes "candidate_loop seen acc vs = Inr ws" "seen = set acc" "distinct acc"
  shows "distinct ws \<and> (\<exists>us. ws = acc @ us \<and> (\<forall>u \<in> set us. \<exists>t. u = JStr t \<and> t \<noteq> [] \<and> trim t = t))
    \<and> (\<forall>v \<in> set vs. \<forall>s. to_string (json_or v (JStr [])) = Inr s \<longrightarrow> trim s \<noteq> [] \<longrightarrow> JStr (trim s) \<in> set ws)"
  using assms
proof (induction seen acc vs rule: candidate_loop.induct)
  case (1 seen acc)
  then show ?case by auto
next
  case (2 seen acc v vs)
  obtain s where s: "to_string (json_or v (JStr [])) = Inr s"
    using "2.prems"(1) by (cases "to_string (json_or v (JStr []))") auto
  show ?case
  proof (cases "trim s = [] \<or> JStr (trim s) \<in> seen")
    case True
    with "2.IH"(1) [OF s refl True] "2.prems" s show ?thesis by (auto simp: Let_def)
  next
    case False
    with "2.IH"(2) [OF s refl False] "2.prems" s show ?thesis by (fastforce simp: Let_def)
  qed
qed

lemma candidateValues_truthy:
  assumes "candidateValues it = Inr vs" "v \<in> set vs"
  shows "json_truthy v"
proof (cases "json_truthy (fi_value it)")
  case True
  with candidate_loop_spec [of "{fi_value it}" "[fi_value it]" "fi_candidates it" vs] assms show ?thesis
    by (fastforce simp: candidateValues_def)
next
  case False
  with candidate_loop_spec [of "{}" "[]" "fi_candidates it" vs] assms show ?thesis
    by (fastforce simp: candidateValues_def)
qed

section \<open>The boxes and their shadow copy\<close>

lemma items_override [simp]: "elementFormItems (override k v st) = elementFormItems st"
  by (simp add: elementFormItems_def override_def Let_def)

definition distinct_fields :: "elements_state \<Rightarrow> bool" where
  "distinct_fields st \<longleftrightarrow> distinct (map fi_key (elementFormItems st))"

lemma shown_override:
  "v \<noteq> JNull \<Longrightarrow> v \<noteq> JUndef \<Longrightarrow>
   shown_value (override k v st) k' = (if k' = k then dom_text v else shown_value st k')"
  by (simp add: shown_value_def override_def)

lemma json_truthy_defined: "json_truthy v \<Longrightarrow> v \<noteq> JNull \<and> v \<noteq> JUndef"
  by auto

lemma render_override:
  assumes "distinct_fields st" "i < length (elementFormItems st)" "v \<noteq> JNull" "v \<noteq> JUndef"
  shows "render_inputs (override (fi_key (elementFormItems st ! i)) v st)
    = (render_inputs st)[i := (fi_key (elementFormItems st ! i), dom_text v)]"
  using assms
  by (auto simp: render_inputs_def shown_override nth_list_update distinct_fields_def distinct_conv_nth
      intro!: nth_equalityI)

lemma set_input_update:
  "distinct (map fst ins) \<Longrightarrow> i < length ins \<Longrightarrow> set_input (fst (ins ! i)) s ins = ins[i := (fst (ins ! i), s)]"
proof (induction ins arbitrary: i)
  case Nil
  then show ?case by simp
next
  case (Cons p ins)
  show ?case
  proof (cases i)
    case 0
    then show ?thesis by (cases p) simp
  next
    case (Suc j)
    with Cons.prems have "fst (ins ! j) \<in> fst ` set ins" by simp
    with Suc Cons show ?thesis by (cases p) auto
  qed
qed

definition synced :: "elements_state \<times> inputs \<Rightarrow> bool" where
  "synced x \<longleftrightarrow> snd x = render_inputs (fst x) \<and> distinct_fields (fst x)"

lemma fill_value_truthy:
  assumes "it \<in> set (fill_items st)"
  shows "json_truthy (fill_value it)"
proof -
  have it: "json_truthy (fi_value it) \<or> fi_candidates it \<noteq> []" "it \<in> set (elementFormItems st)"
    using assms by (auto simp: fill_items_def)
  have "\<forall>c \<in> set (fi_candidates it). json_truthy c"
    using it(2) by (auto simp: elementFormItems_def result_item_def catalog_item_def Let_def split: if_splits)
  with it(1) show ?thesis by (auto simp: fill_value_def json_or_def)
qed

lemma fill_one_synced:
  assumes "synced x" "it \<in> set (elementFormItems (fst x))" "json_truthy (fill_value it)"
  shows "synced (fill_one it x) \<and> elementFormItems (fst (fill_one it x)) = elementFormItems (fst x)"
proof -
  obtain st ins where x: "x = (st, ins)" by (cases x)
  obtain i where i: "i < length (elementFormItems st)" "it = elementFormItems st ! i"
    using assms(2) x by (auto simp: in_set_conv_nth)
  have ins: "ins = render_inputs st" "distinct_fields st" using assms(1) x by (simp_all add: synced_def)
  have "distinct (map fst (render_inputs st))" "i < length (render_inputs st)"
    "fst (render_inputs st ! i) = fi_key it"
    using ins(2) i by (simp_all add: render_inputs_def comp_def distinct_fields_def)
  from set_input_update [OF this(1,2), of "dom_text (fill_value it)"] this(3)
    render_override [OF ins(2) i(1), of "fill_value it"] json_truthy_defined [OF assms(3)]
  show ?thesis
    using ins x i(2) by (simp add: synced_def fill_one_def) (simp add: distinct_fields_def)
qed

lemma fold_fill_synced:
  "synced x \<Longrightarrow> set its \<subseteq> set (elementFormItems (fst x)) \<Longrightarrow> \<forall>it \<in> set its. json_truthy (fill_value it)
   \<Longrightarrow> synced (fold fill_one its x) \<and> elementFormItems (fst (fold fill_one its x)) = elementFormItems (fst x)"
proof (induction its arbitrary: x)
  case Nil
  then show ?case by simp
next
  case (Cons it its)
  with fill_one_synced [of x it] Cons.IH [of "fill_one it x"] show ?case by auto
qed

lemma edit_synced: "synced x \<Longrightarrow> synced (edit_form ed x) \<and> elementFormItems (fst (edit_form ed x)) = elementFormItems (fst x)"
proof (cases ed)
  case (TypeIn i s)
  assume "synced x"
  with TypeIn show ?thesis
    using render_override [of "fst x" i "JStr s"]
    by (cases x) (auto simp: type_in_def synced_def distinct_fields_def dom_text_def Let_def)
next
  case (Pick i j)
  assume s: "synced x"
  obtain st ins where x: "x = (st, ins)" by (cases x)
  show ?thesis
  proof (cases "i < length (elementFormItems st)")
    case True
    show ?thesis
    proof (cases "candidateValues (elementFormItems st ! i)")
      case (Inl y)
      with True Pick x s show ?thesis by (simp add: pick_in_def)
    next
      case (Inr vs)
      have "json_truthy (vs ! j)" if "j < length vs" using candidateValues_truthy [OF Inr] that by simp
      then show ?thesis
        using True Pick x s Inr render_override [of st i "vs ! j"] json_truthy_defined [of "vs ! j"]
        by (auto simp: pick_in_def synced_def distinct_fields_def Let_def)
    qed
  qed (use Pick x s in \<open>simp add: pick_in_def\<close>)
next
  case FillAll
  assume "synced x"
  with FillAll fold_fill_synced [of x "fill_items (fst x)"] fill_value_truthy show ?thesis
    by (auto simp: fillAllExtracted_def fill_items_def)
qed

lemma edits_synced: "synced x \<Longrightarrow> synced (fold edit_form eds x)"
  using edit_synced by (induction eds arbitrary: x) auto

lemma collect_distinct:
  "distinct (map fst ins) \<Longrightarrow> collectElementValues ins = map (\<lambda>(k, s). (k, trim s)) ins"
proof -
  have "fold (\<lambda>(k, s) ob. obj_put ob k (trim s)) ins ob = ob @ map (\<lambda>(k, s). (k, trim s)) ins"
    if "distinct (map fst ob @ map fst ins)" for ob
    using that
  proof (induction ins arbitrary: ob)
    case Nil
    then show ?case by simp
  next
    case (Cons p ins)
    obtain k s where p: "p = (k, s)" by (cases p)
    have "obj_put ob k (trim s) = ob @ [(k, trim s)]" if "k \<notin> set (map fst ob)" for ob
      using that by (induction ob) auto
    with Cons p show ?case by (auto simp: image_iff)
  qed
  from this [of "[]"] show "distinct (map fst ins) \<Longrightarrow> ?thesis" by (simp add: collectElementValues_def)
qed

lemma fold_fill_other:
  "k \<notin> fi_key ` set its \<Longrightarrow> shown_value (fst (fold fill_one its x)) k = shown_value (fst x) k"
proof (induction its arbitrary: x)
  case Nil
  then show ?case by simp
next
  case (Cons it its)
  then have "shown_value (fst (fill_one it x)) k = shown_value (fst x) k"
    by (cases x) (simp add: fill_one_def shown_value_def override_def)
  with Cons show ?case by simp
qed

lemma fold_fill_own:
  "it \<in> set its \<Longrightarrow> distinct (map fi_key its) \<Longrightarrow> json_truthy (fill_value it) \<Longrightarrow>
   shown_value (fst (fold fill_one its x)) (fi_key it) = dom_text (fill_value it)"
proof (induction its arbitrary: x)
  case Nil
  then show ?case by simp
next
  case (Cons it' its)
  show ?case
  proof (cases "it = it'")
    case True
    with Cons.prems have "fi_key it \<notin> fi_key ` set its" by auto
    from fold_fill_other [OF this, of "fill_one it x"]
    have "shown_value (fst (fold fill_one its (fill_one it x))) (fi_key it)
        = shown_value (fst (fill_one it x)) (fi_key it)" .
    also have "\<dots> = dom_text (fill_value it)"
      using json_truthy_defined [OF Cons.prems(3)] by (cases x) (simp add: fill_one_def shown_override)
    finally show ?thesis using True by simp
  next
    case False
    with Cons show ?thesis by simp
  qed
qed

section \<open>A form, for evaluation\<close>

definition demo_field :: "string \<Rightarrow> string \<Rightarrow> json" where
  "demo_field k v = JObj [(js ''key'', JStr (js k)), (js ''value'', JStr (js v)),
     (js ''candidates'', JArr [JStr (js '' x ''), JStr (js v), JStr (js ''x'')])]"

definition demo_form :: elements_state where
  "demo_form = (init_elements demo_env)\<lparr>elForm := JObj [(js ''fields'', JArr [demo_field ''a'' ''1'', demo_field ''b'' []])]\<rparr>"

lemma demo_form_items: "elementFormItems demo_form = [result_item (demo_field ''a'' ''1''), result_item (demo_field ''b'' [])]"
  by (simp add: elementFormItems_def demo_form_def texts)

lemma demo_form_synced: "synced (demo_form, render_inputs demo_form)"
  by (simp add: synced_def distinct_fields_def demo_form_items result_item_def demo_field_def texts)

section \<open>Properties\<close>

text \<open>The suggestions under a box are all different, the extracted value comes first, the others
  are trimmed and not blank, and every candidate that is not blank is offered.\<close>

theorem suggestions_complete:
  assumes "candidateValues it = Inr vs"
  shows "distinct vs \<and> (json_truthy (fi_value it) \<longrightarrow> vs \<noteq> [] \<and> hd vs = fi_value it)
    \<and> (\<forall>v \<in> set vs. v = fi_value it \<or> (\<exists>t. v = JStr t \<and> t \<noteq> [] \<and> trim t = t))
    \<and> (\<forall>v \<in> set (fi_candidates it). \<forall>s. to_string (json_or v (JStr [])) = Inr s \<longrightarrow> trim s \<noteq> []
        \<longrightarrow> JStr (trim s) \<in> set vs)"
proof (cases "json_truthy (fi_value it)")
  case True
  with assms have "candidate_loop {fi_value it} [fi_value it] (fi_candidates it) = Inr vs"
    by (simp add: candidateValues_def)
  from candidate_loop_spec [OF this] show ?thesis by auto
next
  case False
  with assms have "candidate_loop {} [] (fi_candidates it) = Inr vs" by (simp add: candidateValues_def)
  from candidate_loop_spec [OF this] False show ?thesis by auto
qed

theorem suggestions_complete_witness:
  "candidateValues (result_item (demo_field ''a'' ''1'')) = Inr [JStr (js ''1''), JStr (js ''x'')] \<and>
   distinct [JStr (js ''1''), JStr (js ''x'')]"
proof -
  have c: "candidateValues (result_item (demo_field ''a'' ''1'')) = Inr [JStr (js ''1''), JStr (js ''x'')]"
    by (simp add: candidateValues_def result_item_def demo_field_def json_or_def strictly_equal_def
        texts trim_def js_space_def Let_def)
  with suggestions_complete [OF c] show ?thesis by blast
qed

text \<open>C28: after any sequence of typing, picking suggestions and filling all fields, drawing the form
  anew shows in every box what is in it now, and the collected values are the trimmed texts of the
  boxes under their field keys: the boxes and their shadow copy never drift apart.\<close>

theorem form_never_drifts:
  assumes "distinct_fields st" "fold edit_form eds (st, render_inputs st) = (st', ins)"
  shows "render_inputs st' = ins
    \<and> collectElementValues ins = map (\<lambda>it. (fi_key it, trim (shown_value st' (fi_key it)))) (elementFormItems st')"
proof -
  have "synced (st, render_inputs st)" using assms(1) by (simp add: synced_def)
  from edits_synced [OF this, of eds] assms(2) have s: "ins = render_inputs st'" "distinct_fields st'"
    by (simp_all add: synced_def)
  then have "distinct (map fst ins)" by (simp add: render_inputs_def distinct_fields_def comp_def)
  from collect_distinct [OF this] s show ?thesis by (simp add: render_inputs_def)
qed

theorem form_never_drifts_witness:
  "let (st', ins) = fold edit_form [FillAll, TypeIn 1 (js ''z''), Pick 0 1] (demo_form, render_inputs demo_form)
   in render_inputs st' = ins"
proof -
  obtain st' ins where run: "fold edit_form [FillAll, TypeIn 1 (js ''z''), Pick 0 1] (demo_form, render_inputs demo_form) = (st', ins)"
    by fastforce
  have "distinct_fields demo_form" using demo_form_synced by (simp add: synced_def)
  from form_never_drifts [OF this run] show ?thesis unfolding run by simp
qed

text \<open>Filling all fields puts into every field that has an extracted value that value, into every
  other field with candidates its first candidate, and leaves the remaining fields alone.\<close>

theorem fill_all_fills:
  assumes "distinct_fields st" "it \<in> set (elementFormItems st)"
  shows "shown_value (fst (fst (fillAllExtracted (st, ins)))) (fi_key it) =
    (if json_truthy (fi_value it) then dom_text (fi_value it)
     else if fi_candidates it \<noteq> [] then dom_text (hd (fi_candidates it))
     else shown_value st (fi_key it))"
proof (cases "it \<in> set (fill_items st)")
  case True
  have "distinct (map fi_key (fill_items st))"
    using assms(1) by (simp add: distinct_fields_def fill_items_def distinct_map_filter)
  from fold_fill_own [OF True this fill_value_truthy [OF True], of "(st, ins)"] True show ?thesis
    by (auto simp: fillAllExtracted_def fill_value_def json_or_def fill_items_def)
next
  case False
  have "inj_on fi_key (set (elementFormItems st))"
    using assms(1) by (simp add: distinct_fields_def distinct_map)
  then have "fi_key it \<notin> fi_key ` set (fill_items st)"
    using False assms(2) by (auto simp: fill_items_def inj_on_def)
  from fold_fill_other [OF this, of "(st, ins)"] False assms(2) show ?thesis
    by (auto simp: fillAllExtracted_def fill_items_def)
qed

theorem fill_all_fills_witness:
  "shown_value (fst (fst (fillAllExtracted (demo_form, render_inputs demo_form)))) (js ''a'') = js ''1''"
proof -
  have d: "distinct_fields demo_form" using demo_form_synced by (simp add: synced_def)
  have "result_item (demo_field ''a'' ''1'') \<in> set (elementFormItems demo_form)" by (simp add: demo_form_items)
  from fill_all_fills [OF d this, of "render_inputs demo_form"] show ?thesis
    by (simp add: result_item_def demo_field_def json_or_def dom_text_def texts)
qed

end
