(* ===== verification/ElementFields.thy ===== *)
theory ElementFields
  imports ElementForm Uri
begin

text \<open>
  The editor of the field catalogue: what \<open>openElementFieldForm\<close> puts into the inputs, what
  \<open>elementFieldFormValues\<close> reads back, and the requests of saving, switching and deleting a field.
\<close>

section \<open>Splitting\<close>

text \<open>\<open>s.split(/[...]/)\<close> for a class of single separators.\<close>

fun split_on :: "(nat \<Rightarrow> bool) \<Rightarrow> jstr \<Rightarrow> jstr list" where
  "split_on P [] = [[]]"
| "split_on P (c # s) = (if P c then [] # split_on P s
     else case split_on P s of [] \<Rightarrow> [[c]] | w # ws \<Rightarrow> (c # w) # ws)"

definition alias_sep :: "nat \<Rightarrow> bool" where
  "alias_sep c \<longleftrightarrow> c \<in> {44, 0xFF0C, 0x3001}"

definition split_values :: "(nat \<Rightarrow> bool) \<Rightarrow> jstr \<Rightarrow> jstr list" where
  "split_values P s = filter (\<lambda>w. w \<noteq> []) (map trim (split_on P s))"

section \<open>The form\<close>

record catalog_field =
  cf_key :: "jstr option"
  cf_label :: "jstr option"
  cf_aliases :: "jstr list"
  cf_patterns :: "jstr list"
  cf_hint :: "jstr option"
  cf_required :: bool
  cf_enabled :: "bool option"

record field_inputs =
  in_label :: jstr
  in_key :: jstr
  in_aliases :: jstr
  in_patterns :: jstr
  in_hint :: jstr
  in_required :: bool
  in_enabled :: bool

definition openElementFieldForm :: "catalog_field option \<Rightarrow> field_inputs" where
  "openElementFieldForm f = (case f of
     None \<Rightarrow> \<lparr>in_label = [], in_key = [], in_aliases = [], in_patterns = [], in_hint = [],
        in_required = False, in_enabled = True\<rparr>
   | Some f \<Rightarrow> \<lparr>in_label = str_or (cf_label f) [], in_key = str_or (cf_key f) [],
        in_aliases = join [0x3001] (cf_aliases f), in_patterns = join [10] (cf_patterns f),
        in_hint = str_or (cf_hint f) [], in_required = cf_required f,
        in_enabled = (cf_enabled f \<noteq> Some False)\<rparr>)"

record field_values =
  fv_label :: jstr
  fv_key :: jstr
  fv_aliases :: "jstr list"
  fv_patterns :: "jstr list"
  fv_hint :: jstr
  fv_required :: bool
  fv_enabled :: bool

definition elementFieldFormValues :: "field_inputs \<Rightarrow> field_values" where
  "elementFieldFormValues i =
     \<lparr>fv_label = trim (in_label i), fv_key = trim (in_key i),
      fv_aliases = split_values alias_sep (in_aliases i),
      fv_patterns = split_values (\<lambda>c. c = 10) (in_patterns i),
      fv_hint = trim (in_hint i), fv_required = in_required i, fv_enabled = in_enabled i\<rparr>"

definition field_json :: "field_values \<Rightarrow> json" where
  "field_json v = JObj
    [(js ''label'', JStr (fv_label v)), (js ''key'', JStr (fv_key v)),
     (js ''aliases'', JArr (map JStr (fv_aliases v))), (js ''patterns'', JArr (map JStr (fv_patterns v))),
     (js ''hint'', JStr (fv_hint v)), (js ''required'', JBool (fv_required v)), (js ''enabled'', JBool (fv_enabled v))]"

section \<open>Requests\<close>

definition fields_path :: jstr where "fields_path = js ''/contract-review/element-fields''"

definition saveElementField ::
    "(js_error \<Rightarrow> jstr) \<Rightarrow> client \<Rightarrow> catalog_field option \<Rightarrow> field_inputs \<Rightarrow> effect list" where
  "saveElementField engine c f i =
    (let v = elementFieldFormValues i; key = Option.bind f cf_key in
     if fv_label v = [] then [Toast [0x8BF7, 0x586B, 0x5199, 0x8981, 0x7D20, 0x540D, 0x79F0] Warn]
     else if fv_aliases v = [] \<and> fv_patterns v = [] then
       [Toast [0x81F3, 0x5C11, 0x586B, 0x5199, 0x4E00, 0x4E2A, 0x522B, 0x540D, 0x6216, 0x4E00, 0x6761, 0x6B63, 0x5219, 0xFF0C, 0x5426, 0x5219, 0x8BE5, 0x5B57, 0x6BB5, 0x62BD, 0x4E0D, 0x5230, 0x4EFB, 0x4F55, 0x5185, 0x5BB9] Warn]
     else if truthy key then (case encodeURIComponent (the key) of
         Inl x \<Rightarrow> [Toast ([0x4FDD, 0x5B58, 0x5931, 0x8D25, 0xFF1A] @ engine x) Err]
       | Inr seg \<Rightarrow> [Send (api_put c (fields_path @ [47] @ seg) (field_json v))])
     else [Send (api_post c fields_path (field_json v))])"

definition finishSaveField :: "catalog_field option \<Rightarrow> outcome \<Rightarrow> effect list" where
  "finishSaveField f out = (case out of
     Inl e \<Rightarrow> [Toast ([0x4FDD, 0x5B58, 0x5931, 0x8D25, 0xFF1A] @ failure_text e) Err]
   | Inr _ \<Rightarrow> [Toast (if truthy (Option.bind f cf_key) then [0x8981, 0x7D20, 0x5DF2, 0x66F4, 0x65B0] else [0x8981, 0x7D20, 0x5DF2, 0x65B0, 0x589E]) Ok, ModalClose])"

definition field_segment :: "catalog_field \<Rightarrow> js_error + jstr" where
  "field_segment f = encodeURIComponent (case cf_key f of None \<Rightarrow> js ''undefined'' | Some k \<Rightarrow> k)"

definition toggleElementField :: "(js_error \<Rightarrow> jstr) \<Rightarrow> client \<Rightarrow> catalog_field \<Rightarrow> bool \<Rightarrow> effect list" where
  "toggleElementField engine c f enabled = (case field_segment f of
     Inl x \<Rightarrow> [Toast ([0x64CD, 0x4F5C, 0x5931, 0x8D25, 0xFF1A] @ engine x) Err]
   | Inr seg \<Rightarrow> [Send (api_put c (fields_path @ [47] @ seg) (JObj [(js ''enabled'', JBool enabled)]))])"

definition deleteElementField :: "(js_error \<Rightarrow> jstr) \<Rightarrow> client \<Rightarrow> bool \<Rightarrow> catalog_field \<Rightarrow> effect list" where
  "deleteElementField engine c confirmed f =
    (if \<not> confirmed then [] else case field_segment f of
       Inl x \<Rightarrow> [Toast ([0x5220, 0x9664, 0x5931, 0x8D25, 0xFF1A] @ engine x) Err]
     | Inr seg \<Rightarrow> [Send (api_del c (fields_path @ [47] @ seg))])"

section \<open>Splitting what was joined\<close>

lemma split_on_clean: "\<forall>c \<in> set s. \<not> P c \<Longrightarrow> split_on P s = [s]"
  by (induction s) simp_all

lemma split_on_sep: "\<forall>c \<in> set w. \<not> P c \<Longrightarrow> P d \<Longrightarrow> split_on P (w @ d # s) = w # split_on P s"
  by (induction w) simp_all

lemma split_join:
  assumes "P d" "\<forall>w \<in> set ws. \<forall>c \<in> set w. \<not> P c" "ws \<noteq> []"
  shows "split_on P (join [d] ws) = ws"
  using assms(2,3)
proof (induction "[d]" ws rule: join.induct)
  case (2 x)
  then show ?case by (simp add: split_on_clean)
next
  case (3 x y ys)
  then show ?case using assms(1) by (simp add: split_on_sep)
qed simp

definition clean_words :: "(nat \<Rightarrow> bool) \<Rightarrow> jstr list \<Rightarrow> bool" where
  "clean_words P ws \<longleftrightarrow> (\<forall>w \<in> set ws. w \<noteq> [] \<and> trim w = w \<and> (\<forall>c \<in> set w. \<not> P c))"

lemma split_values_join:
  assumes "P d" "clean_words P ws"
  shows "split_values P (join [d] ws) = ws"
proof (cases "ws = []")
  case True
  then show ?thesis by (simp add: split_values_def)
next
  case False
  have "\<forall>w \<in> set ws. \<forall>c \<in> set w. \<not> P c" using assms(2) by (simp add: clean_words_def)
  from split_join [of P d ws, OF assms(1) this False] have "split_on P (join [d] ws) = ws" .
  moreover have "map trim ws = ws" using assms(2) by (simp add: clean_words_def map_idI)
  moreover have "filter (\<lambda>w. w \<noteq> []) ws = ws" using assms(2) by (simp add: clean_words_def filter_id_conv)
  ultimately show ?thesis by (simp add: split_values_def)
qed

lemma split_values_clean: "\<forall>w \<in> set (split_values P s). w \<noteq> [] \<and> trim w = w"
  by (auto simp: split_values_def)

section \<open>Properties\<close>

text \<open>A browser drops the line breaks of a text that a one-line box is given, and reads a carriage return in
  an area as the end of a line. The texts below have neither.\<close>

definition line_break :: "nat \<Rightarrow> bool" where
  "line_break c \<longleftrightarrow> c = 10 \<or> c = 13"

definition one_line :: "jstr \<Rightarrow> bool" where
  "one_line s \<longleftrightarrow> trim s = s \<and> list_all (\<lambda>c. \<not> line_break c) s"

lemma clean_words_mono: "clean_words P ws \<Longrightarrow> (\<And>c. Q c \<Longrightarrow> P c) \<Longrightarrow> clean_words Q ws"
  by (auto simp: clean_words_def)

text \<open>C39: opening a catalogue field that has a key and saving it unchanged sends one request, to the
  field's own address, whose body is the field: its name, key, aliases, patterns, hint and both switches.
  This holds when its texts are trimmed single lines, no alias contains one of the three separators, and
  the editor would accept it at all (it has a name, and an alias or a pattern).\<close>

theorem field_edit_roundtrip:
  assumes "cf_key f = Some k" "k \<noteq> []" "encodeURIComponent k = Inr seg" "one_line k"
    and "cf_label f = Some name" "name \<noteq> []" "one_line name" "one_line (str_or (cf_hint f) [])"
    and "clean_words (\<lambda>c. alias_sep c \<or> line_break c) (cf_aliases f)" "clean_words line_break (cf_patterns f)"
    and "cf_aliases f \<noteq> [] \<or> cf_patterns f \<noteq> []"
  shows "saveElementField engine c (Some f) (openElementFieldForm (Some f))
    = [Send (api_put c (js ''/contract-review/element-fields/'' @ seg) (JObj
        [(js ''label'', JStr name), (js ''key'', JStr k),
         (js ''aliases'', JArr (map JStr (cf_aliases f))), (js ''patterns'', JArr (map JStr (cf_patterns f))),
         (js ''hint'', JStr (str_or (cf_hint f) [])), (js ''required'', JBool (cf_required f)),
         (js ''enabled'', JBool (cf_enabled f \<noteq> Some False))]))]"
proof -
  have "clean_words alias_sep (cf_aliases f)" by (rule clean_words_mono [OF assms(9)]) simp
  then have "split_values alias_sep (join [0x3001] (cf_aliases f)) = cf_aliases f"
    by (intro split_values_join) (simp_all add: alias_sep_def)
  moreover have "clean_words (\<lambda>c. c = 10) (cf_patterns f)"
    by (rule clean_words_mono [OF assms(10)]) (simp add: line_break_def)
  then have "split_values (\<lambda>c. c = 10) (join [10] (cf_patterns f)) = cf_patterns f"
    by (intro split_values_join) simp_all
  ultimately show ?thesis
    using assms(1-8,11)
    by (auto simp: saveElementField_def elementFieldFormValues_def openElementFieldForm_def field_json_def one_line_def
        fields_path_def js_eval Let_def)
qed

definition demo_catalog_field :: catalog_field where
  "demo_catalog_field = \<lparr>cf_key = Some (js ''k''), cf_label = Some (js ''L''), cf_aliases = [js ''a'', js ''b''],
     cf_patterns = [], cf_hint = Some (js ''h''), cf_required = True, cf_enabled = None\<rparr>"

theorem field_edit_roundtrip_witness:
  "saveElementField (\<lambda>_. []) init_client (Some demo_catalog_field) (openElementFieldForm (Some demo_catalog_field))
    = [Send (api_put init_client (js ''/contract-review/element-fields/k'') (JObj
        [(js ''label'', JStr (js ''L'')), (js ''key'', JStr (js ''k'')),
         (js ''aliases'', JArr [JStr (js ''a''), JStr (js ''b'')]), (js ''patterns'', JArr []),
         (js ''hint'', JStr (js ''h'')), (js ''required'', JBool True), (js ''enabled'', JBool True)]))]"
proof -
  have "encodeURIComponent (js ''k'') = Inr (js ''k'')" by (simp add: js_eval) code_simp
  from field_edit_roundtrip [of demo_catalog_field "js ''k''", OF _ _ this, of "js ''L''" "\<lambda>_. []" init_client]
  show ?thesis
    by (simp add: demo_catalog_field_def clean_words_def one_line_def alias_sep_def line_break_def js_eval trim_def js_space_def)
qed

end
