(* ===== verification/DraftFlow.thy ===== *)
theory DraftFlow
  imports ReviewFlow ElementForm
begin

text \<open>
  The draft page's requests: a review of the page's attachments followed by the projection of its
  element form (\<open>runDraftReview\<close>), and the three dialogs that use it: the review dialog
  (\<open>openFillReviewDialog\<close>, \<open>submitFillReview\<close>), the counterparty risk dialog
  (\<open>openCreditRiskDialog\<close>) and the extraction dialog (\<open>submitElementsSync\<close>). The two answers of
  \<open>runDraftReview\<close> are the outcomes \<open>o1\<close> (upload) and \<open>o2\<close> (element form); \<open>w 1\<close> and \<open>w 2\<close> are what
  other handlers do to the state while each of them is waited for. \<open>form\<close> is the drawing of the element
  form (\<open>PageViews.renderElementForm\<close>): None when it succeeds, the exception's text when it raises.
\<close>

section \<open>A draft review\<close>

definition requireContractFiles :: "jstr \<Rightarrow> elements_state \<Rightarrow> bool \<times> effect list" where
  "requireContractFiles action st =
    (if elFiles st = [] then (False, [Toast ([0x8BF7, 0x5148, 0x5728, 0x5408, 0x540C, 0x4FE1, 0x606F, 0x4E2D, 0x6DFB, 0x52A0, 0x5408, 0x540C, 0x9644, 0x4EF6, 0x540E, 0x518D] @ action) Warn]) else (True, []))"

definition draft_form :: "app \<Rightarrow> (jstr \<times> formval) list" where
  "draft_form a = map (\<lambda>f. (js ''files'', FFile f)) (elFiles (elements a))
     @ [(js ''PackageId'', FText (elPackageId (elements a)))]
     @ (if contractType (review a) \<noteq> [] then [(js ''ContractType'', FText (contractType (review a)))] else [])"

definition form_box :: jstr where "form_box = js ''contract-fill-form''"

text \<open>\<open>renderElementForm\<close> empties the box before it reads the fields.\<close>

definition render_form :: "(elements_state \<Rightarrow> jstr option) \<Rightarrow> elements_state \<Rightarrow> effect list \<times> jstr option" where
  "render_form form st = (case form st of
     None \<Rightarrow> ([Draw form_box VForm], None)
   | Some m \<Rightarrow> ([Draw form_box VEmpty], Some m))"

text \<open>After the first answer: the answer and the next request, or the text of the error.\<close>

definition draft_uploaded ::
    "(js_error \<Rightarrow> jstr) \<Rightarrow> client \<Rightarrow> outcome \<Rightarrow> app \<Rightarrow> app \<times> (jstr + (json \<times> formval request))" where
  "draft_uploaded engine c out a = (case out of
     Inl e \<Rightarrow> (a, Inl (failure_text e))
   | Inr resp \<Rightarrow> (let a' = a\<lparr>review := (review a)\<lparr>result := resp\<rparr>\<rparr> in
       case jmember resp (js ''review_result'') of
         Inl x \<Rightarrow> (a', Inl (engine x))
       | Inr rr \<Rightarrow> (a', Inr (resp, api_post c (js ''/contract-review/element-form'')
           (JObj [(js ''review_result'', rr)])))))"

definition draft_formed ::
    "(elements_state \<Rightarrow> jstr option) \<Rightarrow> outcome \<Rightarrow> app \<Rightarrow> app \<times> effect list \<times> jstr option" where
  "draft_formed form out a = (case out of
     Inl e \<Rightarrow> (a, [], Some (failure_text e))
   | Inr v \<Rightarrow> (let st = (elements a)\<lparr>elForm := v, elOverrides := []\<rparr> in (a\<lparr>elements := st\<rparr>, render_form form st)))"

definition idle :: "nat \<Rightarrow> app \<Rightarrow> app" where
  "idle i a = a"

definition runDraftReview ::
    "(js_error \<Rightarrow> jstr) \<Rightarrow> (elements_state \<Rightarrow> jstr option) \<Rightarrow> client \<Rightarrow> (nat \<Rightarrow> app \<Rightarrow> app) \<Rightarrow> outcome \<Rightarrow> outcome \<Rightarrow> app
     \<Rightarrow> app \<times> effect list \<times> (jstr + json)" where
  "runDraftReview engine form c w o1 o2 a =
    (let send = Send (api_upload c (js ''/contract-review'') (draft_form a)) in
     case draft_uploaded engine c o1 (w 1 a) of
       (a1, Inl m) \<Rightarrow> (a1, [send], Inl m)
     | (a1, Inr (resp, req)) \<Rightarrow> (case draft_formed form o2 (w 2 a1) of
         (a2, es, Some m) \<Rightarrow> (a2, [send, Send req] @ es, Inl m)
       | (a2, es, None) \<Rightarrow> (a2, [send, Send req] @ es, Inr resp)))"

section \<open>The review dialog\<close>

definition renderReviewError :: "jstr \<Rightarrow> effect list" where
  "renderReviewError m = [Draw review_box (VError (if m = [] then [0x672A, 0x77E5, 0x9519, 0x8BEF] else m))]"

definition openFillReviewDialog :: "app \<Rightarrow> app \<times> effect list" where
  "openFillReviewDialog a = (case requireContractFiles [0x5408, 0x540C, 0x5BA1, 0x67E5] (elements a) of
     (False, es) \<Rightarrow> (a, es)
   | (True, es) \<Rightarrow> (a, es @ [ModalOpen [0x5408, 0x540C, 0x5BA1, 0x67E5], Draw review_box VEmpty,
       (if has_review (result (review a)) then AppendView review_box (VReview (result (review a)))
        else Draw review_box VStart)]))"

definition fill_button :: jstr where "fill_button = js ''btn-fill-review''"

text \<open>\<open>renderReviewViews\<close> appends to the box it is given; the caller empties it or does not. The dialogs
  below are modelled with nothing else happening while they wait (\<open>idle\<close>).\<close>

definition submitFillReview ::
    "(js_error \<Rightarrow> jstr) \<Rightarrow> (elements_state \<Rightarrow> jstr option) \<Rightarrow> (json \<Rightarrow> jstr option) \<Rightarrow> client \<Rightarrow> outcome \<Rightarrow> outcome \<Rightarrow> app \<Rightarrow> app \<times> effect list" where
  "submitFillReview engine form draw c o1 o2 a = (case requireContractFiles [0x5408, 0x540C, 0x5BA1, 0x67E5] (elements a) of
     (False, es) \<Rightarrow> (a, es)
   | (True, _) \<Rightarrow>
      (let start = [Disable fill_button True, Draw review_box VProgress];
           failed = (\<lambda>m. Draw review_box VEmpty # renderReviewError m
             @ [Toast ([0x5BA1, 0x67E5, 0x5931, 0x8D25, 0x003A, 0x0020] @ m) Err, Disable fill_button False]) in
       case runDraftReview engine form c idle o1 o2 a of
         (a', es, Inl m) \<Rightarrow> (a', start @ es @ failed m)
       | (a', es, Inr resp) \<Rightarrow> (case draw resp of
           Some m \<Rightarrow> (a', start @ es @ failed m)
         | None \<Rightarrow> (a', start @ es @ [AppendView review_box (VReview resp),
             Toast [0x5BA1, 0x67E5, 0x5B8C, 0x6210, 0xFF0C, 0x8981, 0x7D20, 0x5B57, 0x6BB5, 0x5DF2, 0x56DE, 0x586B, 0x5230, 0x5408, 0x540C, 0x4FE1, 0x606F] Ok, Disable fill_button False]))))"

section \<open>The extraction dialog\<close>

definition extract_button :: jstr where "extract_button = js ''btn-elements-sync''"

definition submitElementsSync ::
    "(js_error \<Rightarrow> jstr) \<Rightarrow> (elements_state \<Rightarrow> jstr option) \<Rightarrow> client \<Rightarrow> outcome \<Rightarrow> outcome \<Rightarrow> app \<Rightarrow> app \<times> effect list" where
  "submitElementsSync engine form c o1 o2 a =
    (if elFiles (elements a) = [] then (a, [Toast [0x8BF7, 0x81F3, 0x5C11, 0x9009, 0x62E9, 0x4E00, 0x4E2A, 0x5408, 0x540C, 0x6587, 0x4EF6] Warn])
     else if elPackageId (elements a) = [] then (a, [Toast [0x8BF7, 0x586B, 0x5199, 0x5408, 0x540C, 0x5305, 0x0020, 0x0049, 0x0044] Warn])
     else case runDraftReview engine form c idle o1 o2 a of
       (a', es, Inl m) \<Rightarrow> (a', [Disable extract_button True] @ es
         @ [Toast ([0x63D0, 0x53D6, 0x5931, 0x8D25, 0x003A, 0x0020] @ m) Err, Disable extract_button False])
     | (a', es, Inr resp) \<Rightarrow> (a'\<lparr>currentPage := Some (js ''draft'')\<rparr>, [Disable extract_button True] @ es
         @ [ModalClose, Navigate (js ''draft''), Toast [0x62BD, 0x53D6, 0x5B8C, 0x6210, 0xFF0C, 0x70B9, 0x5F00, 0x8F93, 0x5165, 0x6846, 0x53EF, 0x9009, 0x62E9, 0x586B, 0x5145] Ok,
            Disable extract_button False]))"

section \<open>The counterparty risk dialog\<close>

definition credit_box :: jstr where "credit_box = js ''credit-dialog-body''"

definition credit_gate :: "app \<Rightarrow> bool \<times> effect list" where
  "credit_gate a =
    (if has_review (result (review a)) then (True, [])
     else if currentPage a = Some (js ''draft'') then requireContractFiles [0x67E5, 0x770B, 0x5BA2, 0x5546, 0x98CE, 0x9669] (elements a)
     else requireReviewResult [0x67E5, 0x770B, 0x5BA2, 0x5546, 0x98CE, 0x9669] (review a))"

text \<open>After the review, if one was needed: \<open>reviewState.result.review_result\<close> is posted. \<open>o3\<close> is the answer.\<close>

definition credit_request :: "(js_error \<Rightarrow> jstr) \<Rightarrow> client \<Rightarrow> app \<Rightarrow> jstr + formval request" where
  "credit_request engine c a = (case jmember (result (review a)) (js ''review_result'') of
     Inl x \<Rightarrow> Inl (engine x)
   | Inr rr \<Rightarrow> Inr (api_post c (js ''/contract-review/credit-risk'') (JObj [(js ''review_result'', rr)])))"

definition credit_failed :: "jstr \<Rightarrow> effect list" where
  "credit_failed m = [Draw credit_box (VError ([0x5BA2, 0x5546, 0x98CE, 0x9669, 0x5206, 0x6790, 0x5931, 0x8D25, 0xFF1A] @ m)), Toast ([0x5BA2, 0x5546, 0x98CE, 0x9669, 0x5206, 0x6790, 0x5931, 0x8D25, 0x003A, 0x0020] @ m) Err]"

definition credit_finish ::
    "(js_error \<Rightarrow> jstr) \<Rightarrow> (json \<Rightarrow> jstr option) \<Rightarrow> client \<Rightarrow> outcome \<Rightarrow> app \<Rightarrow> effect list" where
  "credit_finish engine draw c o3 a = (case credit_request engine c a of
     Inl m \<Rightarrow> credit_failed m
   | Inr req \<Rightarrow> Send req # (case o3 of
       Inl e \<Rightarrow> credit_failed (failure_text e)
     | Inr view \<Rightarrow> (case draw view of Some m \<Rightarrow> credit_failed m | None \<Rightarrow> [Draw credit_box (VCredit view)])))"

definition openCreditRiskDialog ::
    "(js_error \<Rightarrow> jstr) \<Rightarrow> (elements_state \<Rightarrow> jstr option) \<Rightarrow> (json \<Rightarrow> jstr option) \<Rightarrow> client \<Rightarrow> outcome \<Rightarrow> outcome \<Rightarrow> outcome \<Rightarrow> app
     \<Rightarrow> app \<times> effect list" where
  "openCreditRiskDialog engine form draw c o1 o2 o3 a = (case credit_gate a of
     (False, es) \<Rightarrow> (a, es)
   | (True, _) \<Rightarrow>
      (let opened = [ModalOpen [0x5BA2, 0x5546, 0x98CE, 0x9669], Draw credit_box VProgress] in
       if has_review (result (review a)) then (a, opened @ credit_finish engine draw c o3 a)
       else case runDraftReview engine form c idle o1 o2 a of
         (a', es, Inl m) \<Rightarrow> (a', opened @ es @ credit_failed m)
       | (a', es, Inr _) \<Rightarrow> (a', opened @ es @ credit_finish engine draw c o3 a')))"

section \<open>The element form of a shown review\<close>

text \<open>\<open>present\<close>: the page has the form box. The catalogue is fetched once; a failed request is silent, and
  an exception of the drawing goes nowhere but leaves the box empty.\<close>

definition loadElementForm ::
    "(elements_state \<Rightarrow> jstr option) \<Rightarrow> client \<Rightarrow> json \<Rightarrow> bool \<Rightarrow> outcome \<Rightarrow> elements_state \<Rightarrow> elements_state \<times> effect list" where
  "loadElementForm form c rr present out st =
    (if \<not> present then (st, [])
     else let start = [Draw form_box VProgress,
         Send (api_post c (js ''/contract-review/element-form'') (JObj [(js ''review_result'', rr)]))] in
       case out of
         Inl e \<Rightarrow> (st, start @ [Draw form_box (VError (failure_text e))])
       | Inr v \<Rightarrow> (let st' = st\<lparr>elForm := v, elOverrides := []\<rparr>; (es, r) = render_form form st' in
           (st', start @ es @ (case r of None \<Rightarrow> [] | Some m \<Rightarrow> [Draw form_box (VError m)]))))"

definition ensureElementCatalog ::
    "(elements_state \<Rightarrow> jstr option) \<Rightarrow> client \<Rightarrow> outcome \<Rightarrow> elements_state \<Rightarrow> elements_state \<times> effect list" where
  "ensureElementCatalog form c out st =
    (if json_truthy (elCatalog st) then (st, [])
     else let start = [Send (api_get c (js ''/contract-review/element-fields''))] in
       case out of
         Inl _ \<Rightarrow> (st, start)
       | Inr v \<Rightarrow> (let st' = st\<lparr>elCatalog := v\<rparr> in
           (st', start @ (if json_truthy (elForm st') then [] else fst (render_form form st')))))"

section \<open>Facts\<close>


lemma runDraftReview_cases:
  "runDraftReview engine form c w o1 o2 a = (case o1 of
     Inl e \<Rightarrow> (w 1 a, [Send (api_upload c (js ''/contract-review'') (draft_form a))], Inl (failure_text e))
   | Inr resp \<Rightarrow> let a1 = (w 1 a)\<lparr>review := (review (w 1 a))\<lparr>result := resp\<rparr>\<rparr>;
       send = Send (api_upload c (js ''/contract-review'') (draft_form a)) in
       if resp = JNull \<or> resp = JUndef then (a1, [send], Inl (engine TypeError))
       else let req = api_post c (js ''/contract-review/element-form'')
             (JObj [(js ''review_result'', jget resp (js ''review_result''))]) in
         case o2 of
           Inl e \<Rightarrow> (w 2 a1, [send, Send req], Inl (failure_text e))
         | Inr v \<Rightarrow> let a2 = (w 2 a1)\<lparr>elements := (elements (w 2 a1))\<lparr>elForm := v, elOverrides := []\<rparr>\<rparr> in
             (case form (elements a2) of
               Some m \<Rightarrow> (a2, [send, Send req, Draw form_box VEmpty], Inl m)
             | None \<Rightarrow> (a2, [send, Send req, Draw form_box VForm], Inr resp)))"
  by (auto simp: runDraftReview_def draft_uploaded_def draft_formed_def render_form_def jmember_def Let_def
      split: sum.split option.split)

lemma boxes_differ [simp]: "form_box \<noteq> review_box" "review_box \<noteq> form_box" "credit_box \<noteq> form_box" "form_box \<noteq> credit_box"
  by (simp_all add: form_box_def review_box_def credit_box_def js_inj)

lemma runDraftReview_quiet:
  "runDraftReview engine form c w o1 o2 a = (a', es, r) \<Longrightarrow> disabled_after b es d = d \<and> shown_in review_box es vs = vs"
  by (auto simp: runDraftReview_cases Let_def split: sum.splits if_splits option.splits)

lemma shown_in_append [simp]: "shown_in b (es @ fs) vs = shown_in b fs (shown_in b es vs)"
  by (induction b es vs rule: shown_in.induct) auto

section \<open>Properties\<close>



text \<open>Every way out of the two draft handlers, success, failed request, failed projection, failed
  drawing or a refused click, leaves their buttons enabled.\<close>

theorem draft_buttons_released:
  "\<not> disabled_after fill_button (snd (submitFillReview engine form draw c o1 o2 a)) False
   \<and> \<not> disabled_after extract_button (snd (submitElementsSync engine form c o1 o2 a)) False"
proof
  show "\<not> disabled_after fill_button (snd (submitFillReview engine form draw c o1 o2 a)) False"
    by (auto simp: submitFillReview_def requireContractFiles_def renderReviewError_def Let_def
        split: prod.splits sum.splits option.splits)
  show "\<not> disabled_after extract_button (snd (submitElementsSync engine form c o1 o2 a)) False"
    by (auto simp: submitElementsSync_def split: prod.splits sum.splits)
qed

text \<open>When the draft page's review succeeds, the dialog shows the result below the card that says
  the review is still running: the handler appends to the box it filled and never empties it, while
  the review page's handler leaves exactly the result.\<close>

theorem progress_card_stays:
  assumes "elFiles (elements a) \<noteq> []" "resp \<noteq> JNull" "resp \<noteq> JUndef" "draw resp = None"
    and "form ((elements a)\<lparr>elForm := v, elOverrides := []\<rparr>) = None"
  shows "shown_in review_box (snd (submitFillReview engine form draw c (Inr resp) (Inr v) a)) vs = [VProgress, VReview resp]
    \<and> shown_in review_box (snd (finishReviewSync draw (Inr resp) st)) [VProgress] = [VReview resp]"
  using assms
  by (simp add: submitFillReview_def requireContractFiles_def runDraftReview_cases finishReviewSync_def
      draw_review_def idle_def Let_def)

theorem progress_card_stays_witness:
  "shown_in review_box (snd (submitFillReview (\<lambda>_. []) (\<lambda>_. None) (\<lambda>_. None) init_client (Inr (JObj [])) (Inr JNull)
     ((init_app demo_env)\<lparr>elements := (init_elements demo_env)\<lparr>elFiles := [demo_file ''a'' 1]\<rparr>\<rparr>))) []
   = [VProgress, VReview (JObj [])]"
  using progress_card_stays [of "(init_app demo_env)\<lparr>elements := (init_elements demo_env)\<lparr>elFiles := [demo_file ''a'' 1]\<rparr>\<rparr>"
      "JObj []" "\<lambda>_. None" "\<lambda>_. None"] by simp

text \<open>C26: the risk dialog uploads contracts only when there is no review yet, the draft page is open and
  it has attachments; with a review it posts exactly that review, and otherwise it sends nothing.\<close>

theorem credit_dialog_requests:
  "requests_in (snd (openCreditRiskDialog engine form draw c o1 o2 o3 a)) =
    (let ask = (\<lambda>v. api_post c (js ''/contract-review/credit-risk'') (JObj [(js ''review_result'', jget v (js ''review_result''))])) in
     if has_review (result (review a)) then [ask (result (review a))]
     else if currentPage a = Some (js ''draft'') \<and> elFiles (elements a) \<noteq> [] then
       (let (a', es, r) = runDraftReview engine form c idle o1 o2 a in
        requests_in es @ (case r of Inl _ \<Rightarrow> [] | Inr resp \<Rightarrow> [ask resp]))
     else [])"
proof -
  have nn: "v \<noteq> JNull \<and> v \<noteq> JUndef" if "has_review v" for v using that by (auto simp: has_review_def)
  have fin: "requests_in (credit_finish engine draw c o3 b) = (if result (review b) = JNull \<or> result (review b) = JUndef then []
      else [api_post c (js ''/contract-review/credit-risk'') (JObj [(js ''review_result'', jget (result (review b)) (js ''review_result''))])])" for b
    by (auto simp: credit_finish_def credit_request_def jmember_def credit_failed_def split: sum.splits option.splits)
  show ?thesis
    using nn [of "result (review a)"]
    by (auto simp: openCreditRiskDialog_def credit_gate_def requireContractFiles_def requireReviewResult_def
        runDraftReview_cases idle_def Let_def fin credit_failed_def split: sum.splits option.splits)
qed

text \<open>New attachments on the draft page do not withdraw the review of the old ones: the review dialog
  opens on the old result, and the risk dialog sends the old result, without reviewing the new files.\<close>

theorem draft_files_keep_old_review:
  assumes "has_review (result (review a))" "inc \<noteq> []"
  shows "let a' = a\<lparr>elements := fst (setElementFiles e inc opts (elements a))\<rparr> in
    shown_in review_box (snd (openFillReviewDialog a')) vs = [VReview (result (review a))]
    \<and> requests_in (snd (openFillReviewDialog a')) = []
    \<and> requests_in (snd (openCreditRiskDialog engine form draw c o1 o2 o3 a'))
      = [api_post c (js ''/contract-review/credit-risk'') (JObj [(js ''review_result'', jget (result (review a)) (js ''review_result''))])]"
proof -
  have files: "elFiles (fst (setElementFiles e inc opts (elements a))) \<noteq> []"
    using assms(2) by (auto simp: setElementFiles_files mergeFiles_eq)
  have nn: "result (review a) \<noteq> JNull \<and> result (review a) \<noteq> JUndef"
    using assms(1) by (auto simp: has_review_def)
  show ?thesis
    using assms(1) files nn
    by (auto simp: openFillReviewDialog_def requireContractFiles_def openCreditRiskDialog_def credit_gate_def
        credit_finish_def credit_request_def jmember_def credit_failed_def Let_def split: sum.splits option.splits)
qed

theorem draft_files_keep_old_review_witness:
  "let v = JObj [(js ''review_result'', JBool True)];
       a' = (init_app demo_env)\<lparr>review := (init_review demo_env)\<lparr>result := v\<rparr>,
              elements := fst (setElementFiles demo_env [demo_file ''a'' 1] no_options (init_elements demo_env))\<rparr>
   in shown_in review_box (snd (openFillReviewDialog a')) [] = [VReview v]"
  using draft_files_keep_old_review
    [of "(init_app demo_env)\<lparr>review := (init_review demo_env)\<lparr>result := JObj [(js ''review_result'', JBool True)]\<rparr>\<rparr>"
      "[demo_file ''a'' 1]" demo_env no_options "[]"]
  by (simp add: has_review_def init_app_def Let_def)

end
