(* ===== verification/PreviewPane.thy ===== *)
theory PreviewPane
  imports ElementForm
begin

text \<open>
  The contract preview of the extraction dialog: the object URL of the current attachment and its
  release, the kinds the browser shows itself, the text or HTML the server extracts from the others,
  and the pane that is drawn (\<open>buildContractPreviewPane\<close>). The last section runs sequences of
  choosing files, opening the dialog and late answers.
\<close>

section \<open>State\<close>

text \<open>\<open>u\<close> is the object URL that the browser hands out.\<close>

definition setElementPreview :: "nat \<Rightarrow> jsfile option \<Rightarrow> elements_state \<Rightarrow> elements_state \<times> effect list" where
  "setElementPreview u f st = (let (st', es) = resetElementPreview st in
     case f of None \<Rightarrow> (st', es) | Some _ \<Rightarrow> (st'\<lparr>previewUrl := Some u\<rparr>, es @ [CreateUrl u]))"

text \<open>The patterns \<open>/\.pdf$/i\<close> and \<open>/\.(png|jpe?g|gif|bmp|webp)$/i\<close>, on the lower-cased name.\<close>

definition pdf_re :: re where
  "pdf_re = Cat (lit (js ''.pdf'')) Eol"

definition image_re :: re where
  "image_re = Cat (one 46) (Cat (alts [js ''png'', js ''jpeg'', js ''jpg'', js ''gif'', js ''bmp'', js ''webp'']) Eol)"

definition nativePreviewKind :: "jsfile option \<Rightarrow> jstr" where
  "nativePreviewKind f = (case f of None \<Rightarrow> [] | Some f \<Rightarrow>
     if ftype f = js ''application/pdf'' \<or> re_test pdf_re (to_lower (fname f)) then js ''pdf''
     else if starts_with (ftype f) (js ''image/'') \<or> re_test image_re (to_lower (fname f)) then js ''image''
     else [])"

definition preview_box :: jstr where "preview_box = js ''extract-preview''"

definition loadExtractPreview ::
    "client \<Rightarrow> nat \<Rightarrow> jsfile option \<Rightarrow> elements_state \<Rightarrow> elements_state \<times> effect list" where
  "loadExtractPreview c u f st =
    (let (st1, es) = setElementPreview u f st; es1 = es @ [Draw preview_box VPreview] in
     case f of
       None \<Rightarrow> (st1, es1)
     | Some f' \<Rightarrow> if nativePreviewKind f \<noteq> []
         then (st1\<lparr>previewKind := nativePreviewKind f\<rparr>, es1 @ [Draw preview_box VPreview])
         else (st1, es1 @ [Send (api_upload c (js ''/contract-preview'') [(js ''file'', FFile f')])]))"

definition preview_failed :: "jstr \<Rightarrow> elements_state \<Rightarrow> elements_state \<times> effect list" where
  "preview_failed m st = (st\<lparr>previewKind := js ''error'', previewMessage := (if m = [] then [0x6253, 0x5F00, 0x5408, 0x540C, 0x539F, 0x6587, 0x5931, 0x8D25] else m)\<rparr>,
     [Draw preview_box VPreview])"

definition finishExtractPreview ::
    "(js_error \<Rightarrow> jstr) \<Rightarrow> outcome \<Rightarrow> elements_state \<Rightarrow> elements_state \<times> effect list" where
  "finishExtractPreview engine out st = (case out of
     Inl e \<Rightarrow> preview_failed (failure_text e) st
   | Inr resp \<Rightarrow> (if resp = JNull \<or> resp = JUndef then preview_failed (engine TypeError) st
     else let r = resp in (st\<lparr>previewHtml := jtext (jget r (js ''html'')), previewText := jtext (jget r (js ''text'')),
         previewKind := jtext (json_or (jget r (js ''kind''))
           (JStr (if json_truthy (jget r (js ''html'')) then js ''html'' else js ''text''))),
         previewMessage := jtext (jget r (js ''message''))\<rparr>, [Draw preview_box VPreview])))"

text \<open>\<open>openExtractDialog\<close>, but for the field catalogue that it also loads.\<close>

definition openExtractDialog :: "client \<Rightarrow> nat \<Rightarrow> elements_state \<Rightarrow> elements_state \<times> effect list" where
  "openExtractDialog c u st =
    (if elFiles st = [] then (st, [Toast [0x8BF7, 0x5148, 0x5728, 0x5408, 0x540C, 0x4FE1, 0x606F, 0x4E2D, 0x6DFB, 0x52A0, 0x5408, 0x540C, 0x9644, 0x4EF6] Warn])
     else let (st', es) = loadExtractPreview c u (Some (hd (elFiles st))) st in (st', ModalOpen [0x8981, 0x7D20, 0x62BD, 0x53D6] # es))"

section \<open>The pane\<close>

text \<open>\<open>url_text\<close> is the text of an object URL.\<close>

definition muted_p :: "jstr \<Rightarrow> 'h node" where
  "muted_p t = el (js ''p'') [(js ''class'', AStr (js ''muted'')), (js ''text'', AStr t)] []"

definition viewer_node ::
    "(nat \<Rightarrow> jstr) \<Rightarrow> nat option \<Rightarrow> jstr \<Rightarrow> jstr \<Rightarrow> bool \<Rightarrow> jstr \<Rightarrow> jstr \<Rightarrow> jstr \<Rightarrow> 'h node" where
  "viewer_node url_text ourl kind title has_file html text message =
    (if ourl \<noteq> None \<and> kind = js ''pdf'' then
       el (js ''iframe'') [(js ''class'', AStr (js ''contract-preview-frame'')),
         (js ''src'', AStr (url_text (the ourl))), (js ''title'', AStr title)] []
     else if ourl \<noteq> None \<and> kind = js ''image'' then
       el (js ''img'') [(js ''class'', AStr (js ''contract-preview-image'')),
         (js ''src'', AStr (url_text (the ourl))), (js ''alt'', AStr title)] []
     else if kind = js ''html'' \<and> html \<noteq> [] then
       el (js ''iframe'') [(js ''class'', AStr (js ''contract-preview-frame'')),
         (js ''srcdoc'', AStr html), (js ''title'', AStr title),
         (js ''sandbox'', AStr (js ''allow-same-origin''))] []
     else if text \<noteq> [] then
       el (js ''pre'') [(js ''class'', AStr (js ''contract-preview-text'')), (js ''text'', AStr text)] []
     else if has_file \<and> kind = [] then
       el (js ''div'') [(js ''class'', AStr (js ''contract-preview-empty''))] [CNode (muted_p [0x6B63, 0x5728, 0x6253, 0x5F00, 0x5408, 0x540C, 0x539F, 0x6587, 0x2026])]
     else if message \<noteq> [] then
       el (js ''div'') [(js ''class'', AStr (js ''contract-preview-fallback''))] [CNode (muted_p message)]
     else el (js ''div'') [(js ''class'', AStr (js ''contract-preview-empty''))]
       [CNode (muted_p [0x9009, 0x62E9, 0x5408, 0x540C, 0x6587, 0x4EF6, 0x540E, 0xFF0C, 0x539F, 0x6587, 0x4F1A, 0x5728, 0x8FD9, 0x91CC, 0x6253, 0x5F00, 0x3002])])"

definition pane_viewer :: "(nat \<Rightarrow> jstr) \<Rightarrow> elements_state \<Rightarrow> 'h node" where
  "pane_viewer url_text st =
    (let f = (if elFiles st = [] then None else Some (hd (elFiles st)));
         name = (case f of None \<Rightarrow> [] | Some f \<Rightarrow> fname f);
         kind = (if previewKind st \<noteq> [] then previewKind st else nativePreviewKind f)
     in viewer_node url_text (previewUrl st) kind (if name = [] then [0x5408, 0x540C, 0x9884, 0x89C8] else name) (f \<noteq> None)
          (previewHtml st) (previewText st) (previewMessage st))"

definition buildContractPreviewPane :: "(nat \<Rightarrow> jstr) \<Rightarrow> elements_state \<Rightarrow> 'h node" where
  "buildContractPreviewPane url_text st =
     el (js ''div'') [(js ''class'', AStr (js ''card contract-preview-pane''))]
      [CNode (el (js ''div'') [(js ''class'', AStr (js ''card-title'')), (js ''text'', AStr [0x5408, 0x540C, 0x539F, 0x6587])]
         [CNode (el (js ''span'') [(js ''class'', AStr (js ''hint'')),
            (js ''text'', AStr (case elFiles st of [] \<Rightarrow> [0x672A, 0x9009, 0x62E9, 0x6587, 0x4EF6]
               | f # _ \<Rightarrow> if fname f = [] then [0x672A, 0x9009, 0x62E9, 0x6587, 0x4EF6] else fname f))] [])]),
       CNode (pane_viewer url_text st)]"

section \<open>Histories\<close>

text \<open>\<open>pv_next\<close> counts object URLs, \<open>pv_live\<close> holds those not revoked, \<open>pv_jobs\<close> the files whose
  extraction is not answered yet, and \<open>pv_from\<close> the file whose extraction the state holds.\<close>

record preview_page =
  pv_state :: elements_state
  pv_next :: nat
  pv_live :: "nat set"
  pv_jobs :: "jsfile list"
  pv_from :: "jsfile option"

datatype preview_event =
    ChooseFiles env "jsfile list" file_options
  | RemoveFile env jsfile
  | OpenDialog
  | Answered nat outcome

definition pv_set :: "elements_state \<times> effect list \<Rightarrow> jsfile option \<Rightarrow> preview_page \<Rightarrow> preview_page" where
  "pv_set r from pv = pv\<lparr>pv_state := fst r, pv_live := live_urls (snd r) (pv_live pv), pv_from := from\<rparr>"

definition preview_event :: "client \<Rightarrow> (js_error \<Rightarrow> jstr) \<Rightarrow> preview_event \<Rightarrow> preview_page \<Rightarrow> preview_page" where
  "preview_event c engine ev pv = (case ev of
     ChooseFiles e inc opts \<Rightarrow> pv_set (setElementFiles e inc opts (pv_state pv)) None pv
   | RemoveFile e f \<Rightarrow> pv_set (removeElementFile e f (pv_state pv)) None pv
   | OpenDialog \<Rightarrow> if elFiles (pv_state pv) = [] then pv
       else let r = openExtractDialog c (pv_next pv) (pv_state pv) in
         (pv_set r None pv)\<lparr>pv_next := Suc (pv_next pv),
           pv_jobs := pv_jobs pv @ (if requests_in (snd r) = [] then [] else [hd (elFiles (pv_state pv))])\<rparr>
   | Answered i out \<Rightarrow> if i < length (pv_jobs pv)
       then (pv_set (finishExtractPreview engine out (pv_state pv)) (Some (pv_jobs pv ! i)) pv)
         \<lparr>pv_jobs := take i (pv_jobs pv) @ drop (Suc i) (pv_jobs pv)\<rparr>
       else pv)"

definition init_preview :: "env \<Rightarrow> preview_page" where
  "init_preview e = \<lparr>pv_state = init_elements e, pv_next = 0, pv_live = {}, pv_jobs = [], pv_from = None\<rparr>"

definition no_leak :: "preview_page \<Rightarrow> bool" where
  "no_leak pv \<longleftrightarrow> pv_live pv = set_option (previewUrl (pv_state pv)) \<and> (\<forall>u \<in> pv_live pv. u < pv_next pv)"

lemma resetElementPreview_live:
  "set_option (previewUrl st) = L \<Longrightarrow> live_urls (snd (resetElementPreview st)) L = {}"
  "previewUrl (fst (resetElementPreview st)) = None"
  by (auto simp: resetElementPreview_def revokeElementPreview_def split: option.splits)

lemma setElementFiles_live:
  "live_urls (snd (setElementFiles e inc opts st)) (set_option (previewUrl st)) = {}
    \<and> previewUrl (fst (setElementFiles e inc opts st)) = None"
  by (simp add: setElementFiles_def Let_def case_prod_beta resetElementPreview_live)

lemma openExtractDialog_live:
  "elFiles st \<noteq> [] \<Longrightarrow> live_urls (snd (openExtractDialog c u st)) (set_option (previewUrl st)) = {u}
    \<and> previewUrl (fst (openExtractDialog c u st)) = Some u"
  using resetElementPreview_live [of st]
  by (simp add: openExtractDialog_def loadExtractPreview_def setElementPreview_def Let_def case_prod_beta)

lemma finishExtractPreview_live:
  "live_urls (snd (finishExtractPreview engine out st)) L = L
    \<and> previewUrl (fst (finishExtractPreview engine out st)) = previewUrl st"
  by (simp add: finishExtractPreview_def preview_failed_def split: sum.splits)

lemma no_leak_event: "no_leak pv \<Longrightarrow> no_leak (preview_event c engine ev pv)"
  using setElementFiles_live openExtractDialog_live [of "pv_state pv" c "pv_next pv"] finishExtractPreview_live
  by (auto simp: no_leak_def preview_event_def pv_set_def removeElementFile_def Let_def less_Suc_eq
      split: preview_event.splits)

lemma no_leak_run: "no_leak pv \<Longrightarrow> no_leak (fold (preview_event c engine) evs pv)"
  by (induction evs arbitrary: pv) (auto intro: no_leak_event)

lemma open_files:
  "elFiles (fst (openExtractDialog c u st)) = elFiles st"
  by (simp add: openExtractDialog_def loadExtractPreview_def setElementPreview_def Let_def case_prod_beta)

lemma reset_requests: "requests_in (snd (resetElementPreview st)) = []"
  by (simp add: resetElementPreview_def revokeElementPreview_def split: option.split)

lemma open_requests:
  "elFiles st \<noteq> [] \<Longrightarrow> requests_in (snd (openExtractDialog c u st)) = [] \<longleftrightarrow> nativePreviewKind (Some (hd (elFiles st))) \<noteq> []"
  by (simp add: openExtractDialog_def loadExtractPreview_def setElementPreview_def Let_def case_prod_beta reset_requests)

lemma re_test_suffix: "re_test (Cat (lit p) Eol) s \<longleftrightarrow> suffix p s"
  by (auto simp: re_test_iff matches_lit suffix_def)

lemma re_test_dot_suffix:
  "re_test (Cat (one 46) (Cat (alts ps) Eol)) s \<longleftrightarrow> list_ex (\<lambda>p. suffix (46 # p) s) ps"
  by (auto simp: re_test_iff matches_alts suffix_def list_ex_iff)

lemma docx_not_native: "nativePreviewKind (Some (demo_file ''a.docx'' n)) = []" "nativePreviewKind (Some (demo_file ''b.docx'' n)) = []"
  by (simp_all add: nativePreviewKind_def demo_file_def pdf_re_def image_re_def re_test_suffix re_test_dot_suffix
      suffix_to_prefix to_lower_def ascii_lower_def js_eval)

section \<open>Facts about the pane\<close>

lemma viewer_raw: "raw_of (viewer_node url_text ourl kind title has_file html text message) = []"
  by (simp add: viewer_node_def raw_of_el muted_p_def js_inj)

lemma viewer_srcdoc:
  fixes n :: "'h node"
  assumes n: "n = viewer_node url_text ourl kind title has_file html text message"
    and src: "map_of (attrs_of n) (js ''srcdoc'') = Some h"
  shows "h = html \<and> n =
    el (js ''iframe'') [(js ''class'', AStr (js ''contract-preview-frame'')), (js ''srcdoc'', AStr html),
      (js ''title'', AStr title), (js ''sandbox'', AStr (js ''allow-same-origin''))] []"
proof -
  have keys: "js ''class'' \<noteq> js ''srcdoc''" "js ''src'' \<noteq> js ''srcdoc''" "js ''title'' \<noteq> js ''srcdoc''" "js ''alt'' \<noteq> js ''srcdoc''"
     "js ''text'' \<noteq> js ''srcdoc''" "js ''srcdoc'' \<noteq> js ''text''" "js ''srcdoc'' \<noteq> js ''html''" "js ''sandbox'' \<noteq> js ''srcdoc''" "js ''srcdoc'' \<noteq> js ''class''"
    "js ''srcdoc'' \<noteq> js ''sandbox''" "js ''srcdoc'' \<noteq> js ''title''"
    by (simp_all add: js_inj)
  have "kind = js ''html'' \<and> html \<noteq> [] \<and> \<not> (ourl \<noteq> None \<and> kind = js ''pdf'') \<and> \<not> (ourl \<noteq> None \<and> kind = js ''image'') \<and> h = html"
    using src unfolding n viewer_node_def attr_if
    by (simp add: attrs_no_key keys split: if_split_asm) (simp add: el_fields keys)
  then show ?thesis by (simp add: n viewer_node_def js_inj)
qed
section \<open>Properties\<close>

text \<open>C37: whatever the order of choosing files, opening the dialog and answers, the only object URL
  alive is the one the page holds: every URL that is dropped has been revoked.\<close>

theorem no_object_url_leaks:
  "let pv = fold (preview_event c engine) evs (init_preview e)
   in pv_live pv = set_option (previewUrl (pv_state pv)) \<and> card (pv_live pv) \<le> 1"
proof -
  have "no_leak (init_preview e)" by (simp add: no_leak_def init_preview_def init_elements_def)
  from no_leak_run [OF this, of c engine evs] show ?thesis
    by (cases "previewUrl (pv_state (fold (preview_event c engine) evs (init_preview e)))")
      (simp_all add: no_leak_def Let_def)
qed

text \<open>C38: the pane never puts server text into the page as markup: it contains no raw HTML, and extracted
  HTML appears only as the document of a frame that is sandboxed without script permission.\<close>

theorem preview_is_sandboxed:
  "let pane = (buildContractPreviewPane url_text st :: 'h node); view = (pane_viewer url_text st :: 'h node) in
   raw_of pane = []
   \<and> (map_of (attrs_of view) (js ''srcdoc'') = Some h \<longrightarrow>
      tag_of view = js ''iframe'' \<and> h = previewHtml st
      \<and> map_of (attrs_of view) (js ''sandbox'') = Some (js ''allow-same-origin''))"
proof -
  define view :: "'h node" where "view = pane_viewer url_text st"
  have "tag_of view = js ''iframe'' \<and> h = previewHtml st
      \<and> map_of (attrs_of view) (js ''sandbox'') = Some (js ''allow-same-origin'')"
    if src: "map_of (attrs_of view) (js ''srcdoc'') = Some h"
    using viewer_srcdoc [OF view_def [unfolded pane_viewer_def Let_def] src]
    by (auto simp: el_fields js_inj)
  moreover have "raw_of (buildContractPreviewPane url_text st :: 'h node) = []"
    by (simp add: buildContractPreviewPane_def pane_viewer_def Let_def raw_of_el js_inj viewer_raw)
  ultimately show ?thesis by (simp add: view_def Let_def)
qed

theorem preview_is_sandboxed_witness:
  "let st = (init_elements demo_env)\<lparr>previewKind := js ''html'', previewHtml := js ''<b>''\<rparr>;
       view = (pane_viewer dec st :: unit node) in
   map_of (attrs_of view) (js ''srcdoc'') = Some (js ''<b>'')
   \<and> map_of (attrs_of view) (js ''sandbox'') = Some (js ''allow-same-origin'')"
proof -
  define st where "st = (init_elements demo_env)\<lparr>previewKind := js ''html'', previewHtml := js ''<b>''\<rparr>"
  define view :: "unit node" where "view = pane_viewer dec st"
  have s: "map_of (attrs_of view) (js ''srcdoc'') = Some (js ''<b>'')"
    by (simp add: view_def st_def pane_viewer_def viewer_node_def init_elements_def js_inj el_fields
        js_eval nativePreviewKind_def)
  then show ?thesis
    using preview_is_sandboxed [where url_text = dec and st = st and h = "js ''<b>''" and ?'h = unit]
    by (simp only: Let_def view_def st_def simp_thms)
qed

text \<open>A late extraction is shown under another file's name: with one document's text on its way,
  replacing the attachment and opening the dialog again leaves the pane with the first document's
  HTML below the second one's name.\<close>

theorem late_preview_shows_other_file:
  assumes "nativePreviewKind (Some f) = []" "nativePreviewKind (Some g) = []" "fileKey f \<noteq> fileKey g" "html \<noteq> []"
  shows "\<exists>evs. let pv = fold (preview_event c engine) evs (init_preview e) in
    elFiles (pv_state pv) = [g] \<and> pv_from pv = Some f \<and> previewKind (pv_state pv) = js ''html''
    \<and> previewHtml (pv_state pv) = html"
proof -
  let ?ans = "JObj [(js ''html'', JStr html)]"
  let ?evs = "[ChooseFiles e [f] no_options, OpenDialog, RemoveFile e f, ChooseFiles e [g] no_options, OpenDialog,
    Answered 0 (Inr ?ans)]"
  define p1 where "p1 = preview_event c engine (ChooseFiles e [f] no_options) (init_preview e)"
  define p2 where "p2 = preview_event c engine OpenDialog p1"
  define p3 where "p3 = preview_event c engine (ChooseFiles e [g] no_options) (preview_event c engine (RemoveFile e f) p2)"
  define p4 where "p4 = preview_event c engine OpenDialog p3"
  have p1: "elFiles (pv_state p1) = [f]" "pv_jobs p1 = []"
    by (simp_all add: p1_def preview_event_def pv_set_def setElementFiles_files init_preview_def init_elements_def)
  have p2: "elFiles (pv_state p2) = [f]" "pv_jobs p2 = [f]"
    using p1 assms(1) by (simp_all add: p2_def preview_event_def pv_set_def open_files open_requests Let_def)
  have p3: "elFiles (pv_state p3) = [g]" "pv_jobs p3 = [f]"
    using p2 assms(3) by (simp_all add: p3_def preview_event_def pv_set_def setElementFiles_files removeElementFile_def
        replace_options_def no_options_def)
  have p4: "elFiles (pv_state p4) = [g]" "pv_jobs p4 = [f, g]"
    using p3 assms(2) by (simp_all add: p4_def preview_event_def pv_set_def open_files open_requests Let_def)
  have "fold (preview_event c engine) ?evs (init_preview e) = preview_event c engine (Answered 0 (Inr ?ans)) p4"
    by (simp add: p1_def p2_def p3_def p4_def)
  moreover have "let pv = preview_event c engine (Answered 0 (Inr ?ans)) p4 in
    elFiles (pv_state pv) = [g] \<and> pv_from pv = Some f \<and> previewKind (pv_state pv) = js ''html''
    \<and> previewHtml (pv_state pv) = html"
    using p4 assms(4) by (simp add: preview_event_def pv_set_def finishExtractPreview_def json_or_def js_inj Let_def)
  ultimately show ?thesis by metis
qed

theorem late_preview_shows_other_file_witness:
  "\<exists>evs. let pv = fold (preview_event init_client (\<lambda>_. [])) evs (init_preview demo_env) in
    elFiles (pv_state pv) = [demo_file ''b.docx'' 2] \<and> pv_from pv = Some (demo_file ''a.docx'' 1)
    \<and> previewKind (pv_state pv) = js ''html'' \<and> previewHtml (pv_state pv) = js ''<p>''"
  by (rule late_preview_shows_other_file) (simp_all add: docx_not_native fileKey_eq, simp_all add: demo_file_def texts)

end
