(* ===== verification/Panels.thy ===== *)
theory Panels
  imports Items Grouping
begin

text \<open>
  The four panels of a review (\<open>buildReviewPanels\<close> to \<open>metricCardText\<close>): the module of an item,
  the control list with its verdict tabs and its accordion, the risk points, the columns of the
  reasonableness panel, and the links from a metric to its control item. The columns are the
  locale \<open>classifier\<close> on the code's three classifications.
\<close>

section \<open>Modules and tabs\<close>

definition REVIEW_PANELS :: "jstr list" where
  "REVIEW_PANELS = [M_INTERNAL, M_REASON, M_RISK, M_CREDIT]"

text \<open>\<open>[...].filter(Boolean).join(" ")\<close>\<close>

definition join_present :: "jstr option list \<Rightarrow> jstr" where
  "join_present xs = join [32] (map the (filter truthy xs))"

definition itemText :: "item \<Rightarrow> jstr" where
  "itemText it = join_present [i_module it, i_category it, i_metric it, i_title it, i_reason it, i_section it]"

definition itemModule :: "item \<Rightarrow> jstr" where
  "itemModule it =
    (if \<exists>name \<in> set REVIEW_PANELS. i_module it = Some name then the (i_module it)
     else let text = itemText it in
       if re_test (alts [[0x5229, 0x6DA6, 0x7387], [0x8D44, 0x91D1, 0x8981, 0x6C42], [0x9879, 0x76EE, 0x9884, 0x7B97], [0x6536, 0x6B3E, 0x8FDB, 0x5EA6], [0x8D22, 0x52A1, 0x98CE, 0x9669], [0x9879, 0x76EE, 0x98CE, 0x9669]]) text then M_RISK
       else if re_test (alts [[0x8D44, 0x4FE1], [0x5F81, 0x4FE1], [0x6CE8, 0x518C, 0x8D44, 0x672C], [0x5408, 0x4F5C, 0x5386, 0x53F2], [0x7ECF, 0x8425, 0x72B6, 0x51B5], [0x8BC9, 0x8BBC]]) text then M_CREDIT
       else if re_test (alts [[0x91C7, 0x8D2D, 0x9700, 0x6C42], [0x9700, 0x8981, 0x660E, 0x786E], [0x9700, 0x8981, 0x5173, 0x6CE8], [0x98CE, 0x9669, 0x9677, 0x9631], [0x98CE, 0x9669, 0x70B9, 0x4E0E, 0x9677, 0x9631], [0x4FE1, 0x521B], [0x56FD, 0x4EA7, 0x5316],
                [0x4E91, 0x67B6, 0x6784], [0x6570, 0x636E, 0x6CBB, 0x7406], [0x8303, 0x56F4, 0x81A8, 0x80C0]]) text then M_REASON
       else if re_test (alts [[0x8D28, 0x4FDD], [0x68C0, 0x9A8C, 0x671F, 0x9650], [0x53D1, 0x7968, 0x7C7B, 0x578B], [0x5F3A, 0x5236, 0x6027, 0x6807, 0x51C6], [0x5408, 0x6CD5, 0x6027], [0x9A91, 0x7F1D, 0x7AE0]]) text then M_INTERNAL
       else if re_test (alts [[0x5408, 0x540C, 0x7C7B, 0x578B, 0x5224, 0x5B9A]]) text then M_RISK
       else M_INTERNAL)"

text \<open>\<open>buildReviewPanels\<close>: the items by module, and the items a tab is drawn from.\<close>

definition panel_groups :: "item list \<Rightarrow> js_error + (jstr \<times> item list) list" where
  "panel_groups items = group_into REVIEW_PANELS itemModule items"

definition panel_items :: "jstr \<Rightarrow> item list \<Rightarrow> (jstr \<times> item list) list \<Rightarrow> item list" where
  "panel_items name items grouped =
    (if name = M_INTERNAL \<or> name = M_REASON \<or> name = M_RISK then items else column grouped name)"

text \<open>The counts above the panels (\<open>renderReviewViews\<close>): items, items per verdict, manual review.\<close>

record summary =
  sm_total :: nat
  sm_mismatch :: nat
  sm_pending :: nat
  sm_conform :: nat
  sm_blocked :: bool

definition review_summary :: "item list \<Rightarrow> summary" where
  "review_summary items =
     \<lparr>sm_total = length items,
      sm_mismatch = length (filter (\<lambda>it. itemVerdict it = V_MISMATCH) items),
      sm_pending = length (filter (\<lambda>it. itemVerdict it = V_PENDING) items),
      sm_conform = length (filter (\<lambda>it. itemVerdict it = V_CONFORM) items),
      sm_blocked = list_ex (\<lambda>it. itemVerdict it = V_MISMATCH) items\<rparr>"

section \<open>Titles, quotes and advice\<close>

definition UNNAMED :: jstr where "UNNAMED = [0x672A, 0x547D, 0x540D, 0x6761, 0x6B3E]"
definition TYPE_TITLE :: jstr where "TYPE_TITLE = [0x5408, 0x540C, 0x7C7B, 0x578B, 0x5224, 0x5B9A]"

text \<open>\<open>/^TYPE[:\uFF1A]\s*/\<close> and \<open>/^(?:D?\d+(?:\.\d+)*[,.\s]*)+/\<close> with the source's Chinese marks.\<close>

definition type_prefix_re :: re where
  "type_prefix_re = Cat Bol (Cat (lit TYPE_TITLE) (Cat (Cls [(58, 58), (0xFF1A, 0xFF1A)]) (Star space_re)))"

definition numbering_re :: re where
  "numbering_re = Cat Bol (Plus
     (Cat (Opt (one 0x7B2C))
     (Cat (Plus digit_re)
     (Cat (Star (Cat (one 46) (Plus digit_re)))
          (Star (Alt (Cls [(0x3001, 0x3001), (46, 46)]) space_re))))))"

definition controlNavTitle :: "item \<Rightarrow> jstr" where
  "controlNavTitle it =
    (let t = trim (re_replace numbering_re (\<lambda>_ _. [])
       (re_replace type_prefix_re (\<lambda>_ _. []) (str_or (i_title it) UNNAMED)))
     in if t = [] then UNNAMED else t)"

definition isContractQuote :: "jstr option \<Rightarrow> bool" where
  "isContractQuote text =
    (let v = trim (str_or text []) in
     v \<noteq> []
     \<and> \<not> re_test (Cat Bol (alts [[0x672A, 0x5B9A, 0x4F4D, 0x5230, 0x5408, 0x540C, 0x539F, 0x6587], [0x672A, 0x68C0, 0x7D22, 0x5230, 0x76F8, 0x5173, 0x539F, 0x6587], [0x672A, 0x660E, 0x786E, 0x7EA6, 0x5B9A, 0x8BE5, 0x9879]])) v
     \<and> \<not> re_test (lit [0x9700, 0x7ED3, 0x5408, 0x62A5, 0x4EF7, 0x548C, 0x5C65, 0x7EA6, 0x5B89, 0x6392, 0x8865, 0x5145]) v
     \<and> \<not> re_test (lit [0x0041, 0x0049, 0x0020, 0x4F9D, 0x636E, 0x5408, 0x540C, 0x539F, 0x6587, 0x5224, 0x5B9A, 0x672C, 0x5408, 0x540C, 0x7C7B, 0x578B]) v
     \<and> \<not> re_test (Cat Bol (alts [[0x89C4, 0x5219, 0x6765, 0x6E90, 0xFF1A], [0x89C4, 0x5219, 0x6765, 0x6E90, 0x003A]])) v)"

definition controlQuote :: "item \<Rightarrow> jstr" where
  "controlQuote it = (if isContractQuote (i_quote it) then trim (str_or (i_quote it) []) else [])"

definition controlAdvice :: "item \<Rightarrow> jstr" where
  "controlAdvice it =
    (let a = trim (str_or (i_suggested_action it) (str_or (i_recommended_action it) []))
     in if a = [] then [0x6682, 0x65E0, 0x8C03, 0x6574, 0x5EFA, 0x8BAE] else a)"

text \<open>What the comment button copies (\<open>buildControlBody\<close>).\<close>

definition control_comment :: "item \<Rightarrow> jstr" where
  "control_comment it = [0x3010, 0x5185, 0x63A7, 0x3011] @ controlNavTitle it @ [10] @ [0x539F, 0x6587, 0xFF1A] @ controlQuote it
     @ [10] @ [0x5EFA, 0x8BAE, 0xFF1A] @ controlAdvice it"

section \<open>The control list\<close>

definition type_item :: "item \<Rightarrow> bool" where
  "type_item it \<longleftrightarrow> re_test (Cat Bol (lit TYPE_TITLE)) (str_or (i_title it) [])"

definition controlItems :: "item list \<Rightarrow> item list" where
  "controlItems items = filter (\<lambda>it. \<not> type_item it) items"

text \<open>\<open>reviewWorkspace\<close>: of its members only the remembered tab is ever assigned a new value that is
  read; \<open>openControl\<close> stays the empty function it is declared as.\<close>

record workspace =
  controlVerdict :: jstr

definition init_workspace :: workspace where
  "init_workspace = \<lparr>controlVerdict = V_MISMATCH\<rparr>"

definition openControl :: "item \<Rightarrow> workspace \<Rightarrow> workspace" where
  "openControl it ws = ws"

record control_panel =
  cp_groups :: "(jstr \<times> item list) list"
  cp_current :: jstr
  cp_shown :: "item list"

definition renderVerdict :: "jstr \<Rightarrow> control_panel \<times> workspace \<Rightarrow> control_panel \<times> workspace" where
  "renderVerdict name = (\<lambda>(cp, ws).
     (cp\<lparr>cp_current := name, cp_shown := column (cp_groups cp) name\<rparr>, ws\<lparr>controlVerdict := name\<rparr>))"

definition default_tab :: "(jstr \<times> item list) list \<Rightarrow> jstr \<Rightarrow> jstr" where
  "default_tab grouped current =
    (if \<not> obj_has VERDICT_META current \<or> column grouped current = []
     then (case find_js (\<lambda>name. column grouped name \<noteq> []) VERDICT_ORDER of
       Some name \<Rightarrow> name | None \<Rightarrow> hd VERDICT_ORDER)
     else current)"

text \<open>None is the paragraph that says there are no rules.\<close>

definition buildControlPanel :: "item list \<Rightarrow> workspace \<Rightarrow> js_error + (control_panel option \<times> workspace)" where
  "buildControlPanel items ws =
    (let source = controlItems items in
     if source = [] then Inr (None, ws)
     else case group_into VERDICT_ORDER itemVerdict source of
       Inl e \<Rightarrow> Inl e
     | Inr grouped \<Rightarrow> (let (cp, ws') = renderVerdict (default_tab grouped (controlVerdict ws))
           (\<lparr>cp_groups = grouped, cp_current = [], cp_shown = []\<rparr>, ws) in Inr (Some cp, ws')))"

text \<open>\<open>buildControlRuleList\<close>: the variable \<open>opened\<close> (None is -1) and the rows' open class.\<close>

record accordion =
  ac_opened :: "nat option"
  ac_open :: "bool list"

definition buildControlRuleList :: "item list \<Rightarrow> accordion" where
  "buildControlRuleList items = \<lparr>ac_opened = None, ac_open = map (\<lambda>i. i = 0) [0..<length items]\<rparr>"

definition click_row :: "nat \<Rightarrow> accordion \<Rightarrow> accordion" where
  "click_row i ac = (let op = (if ac_opened ac = Some i then None else Some i) in
     \<lparr>ac_opened = op, ac_open = map (\<lambda>k. op = Some k) [0..<length (ac_open ac)]\<rparr>)"

section \<open>Metrics\<close>

definition RISK_POINT_KEYS :: "jstr list" where
  "RISK_POINT_KEYS = [[0x5229, 0x6DA6, 0x7387], [0x8D44, 0x91D1, 0x8981, 0x6C42], [0x9879, 0x76EE, 0x9884, 0x7B97], [0x6536, 0x6B3E, 0x8FDB, 0x5EA6]]"

definition CREDIT_METRIC_KEYS :: "jstr list" where
  "CREDIT_METRIC_KEYS = [[0x6CE8, 0x518C, 0x8D44, 0x672C], [0x5408, 0x4F5C, 0x5386, 0x53F2], [0x5F53, 0x524D, 0x5408, 0x540C], [0x7ECF, 0x8425, 0x72B6, 0x51B5]]"

definition metricKey :: "item \<Rightarrow> jstr" where
  "metricKey it =
    (let text = str_or (i_metric it) [] @ str_or (i_title it) [] @ str_or (i_reason it) [] in
     if re_test (alts [[0x5229, 0x6DA6]]) text then [0x5229, 0x6DA6, 0x7387]
     else if re_test (alts [[0x8D44, 0x91D1]]) text then [0x8D44, 0x91D1, 0x8981, 0x6C42]
     else if re_test (alts [[0x9884, 0x7B97]]) text then [0x9879, 0x76EE, 0x9884, 0x7B97]
     else if re_test (alts [[0x6536, 0x6B3E], [0x8FDB, 0x5EA6]]) text then [0x6536, 0x6B3E, 0x8FDB, 0x5EA6]
     else if re_test (alts [[0x671F, 0x9650], [0x7B7E, 0x8BA2, 0x65F6, 0x95F4], [0x5C65, 0x7EA6]]) text then [0x5C65, 0x884C, 0x671F, 0x9650]
     else if re_test (alts [[0x6743, 0x5C5E], [0x77E5, 0x8BC6, 0x4EA7, 0x6743], [0x65E2, 0x6709, 0x8F6F, 0x4EF6], [0x6E90, 0x4EE3, 0x7801]]) text then [0x6743, 0x5C5E, 0x8303, 0x56F4]
     else if re_test (alts [[0x6CE8, 0x518C, 0x8D44, 0x672C]]) text then [0x6CE8, 0x518C, 0x8D44, 0x672C]
     else if re_test (alts [[0x5408, 0x4F5C, 0x5386, 0x53F2]]) text then [0x5408, 0x4F5C, 0x5386, 0x53F2]
     else if re_test (alts [[0x5F53, 0x524D, 0x5408, 0x540C]]) text then [0x5F53, 0x524D, 0x5408, 0x540C]
     else if re_test (alts [[0x7ECF, 0x8425]]) text then [0x7ECF, 0x8425, 0x72B6, 0x51B5]
     else str_or (i_metric it) (str_or (i_title it) [0x98CE, 0x9669, 0x9879]))"

definition level_or_status :: "item \<Rightarrow> jstr option" where
  "level_or_status it = opt_or (i_risk_level it) (i_status it)"

text \<open>The tests of \<open>extraRiskItems\<close> that do not depend on the keys seen so far.\<close>

definition extra_words :: re where
  "extra_words = alts [[0x671F, 0x9650], [0x7B7E, 0x8BA2, 0x65F6, 0x95F4], [0x6743, 0x5C5E], [0x65E2, 0x6709, 0x8F6F, 0x4EF6], [0x77E5, 0x8BC6, 0x4EA7, 0x6743], [0x5C65, 0x7EA6], [0x8FDD, 0x7EA6, 0x91D1], [0x9677, 0x9631]]"

definition extra_ok :: "item \<Rightarrow> bool" where
  "extra_ok it \<longleftrightarrow> level_or_status it \<noteq> Some (js ''UNKNOWN'') \<and> \<not> type_item it
     \<and> metricKey it \<notin> set CREDIT_METRIC_KEYS
     \<and> (metricKey it = [0x5C65, 0x884C, 0x671F, 0x9650] \<or> metricKey it = [0x6743, 0x5C5E, 0x8303, 0x56F4] \<or> re_test extra_words (itemText it)
        \<or> to_upper (str_or (i_risk_level it) []) = js ''BLOCK'')"

fun extra_loop :: "jstr set \<Rightarrow> item list \<Rightarrow> item list" where
  "extra_loop seen [] = []"
| "extra_loop seen (it # its) =
    (if extra_ok it \<and> metricKey it \<notin> seen then it # extra_loop (insert (metricKey it) seen) its
     else extra_loop seen its)"

definition extraRiskItems :: "item list \<Rightarrow> item list" where
  "extraRiskItems items = extra_loop (set RISK_POINT_KEYS) items"

text \<open>The placeholder of \<open>pickMetric\<close> has only a title, a metric and a reason.\<close>

definition missing_metric :: "jstr \<Rightarrow> item" where
  "missing_metric key = \<lparr>i_rule_id = None, i_risk_id = None, i_status = None, i_risk_level = None,
     i_verdict = None, i_title = Some key, i_reason = Some [0x5408, 0x540C, 0x672A, 0x660E, 0x786E, 0x7EA6, 0x5B9A, 0x8BE5, 0x9879, 0xFF0C, 0x9700, 0x7ED3, 0x5408, 0x62A5, 0x4EF7, 0x548C, 0x5C65, 0x7EA6, 0x5B89, 0x6392, 0x8865, 0x5145, 0x3002],
     i_quote = None, i_confidence = None, i_suggested_action = None, i_recommended_action = None,
     i_source = [], i_module = None, i_category = None, i_metric = Some key, i_value = None,
     i_section = None, i_evidence_ids = [], i_ai_risk_level = None, i_ai_reason = None\<rparr>"

definition pickMetric :: "item list \<Rightarrow> jstr \<Rightarrow> item" where
  "pickMetric items key = (case find_js (\<lambda>it. metricKey it = key) items of
     Some it \<Rightarrow> it | None \<Rightarrow> missing_metric key)"

definition riskPointEntries :: "item list \<Rightarrow> (jstr \<times> item) list" where
  "riskPointEntries items = map (\<lambda>key. (key, pickMetric items key)) RISK_POINT_KEYS
     @ map (\<lambda>it. (metricKey it, it)) (extraRiskItems items)"

definition metricCardText :: "item \<Rightarrow> jstr \<Rightarrow> jstr" where
  "metricCardText it name =
    (let v = trim (str_or (i_value it) []); reason = trim (str_or (i_reason it) []) in
     if v \<noteq> [] \<and> reason \<noteq> [] \<and> v \<noteq> name \<and> \<not> str_includes reason v then v @ [0x3002] @ reason
     else if reason \<noteq> [] then reason else v)"

section \<open>The reasonableness panel\<close>

definition B_CLEAR :: jstr where "B_CLEAR = [0x9700, 0x8981, 0x660E, 0x786E, 0x7684, 0x70B9]"
definition B_WATCH :: jstr where "B_WATCH = [0x9700, 0x8981, 0x5173, 0x6CE8, 0x70B9]"
definition B_RISK :: jstr where "B_RISK = [0x98CE, 0x9669, 0x70B9, 0x4E0E, 0x9677, 0x9631]"

definition BUCKETS :: "jstr list" where
  "BUCKETS = [B_CLEAR, B_WATCH, B_RISK]"

definition isRiskPointItem :: "item \<Rightarrow> bool" where
  "isRiskPointItem it \<longleftrightarrow> metricKey it \<in> set RISK_POINT_KEYS \<or> length (extraRiskItems [it]) > 0"

definition reasonablenessBucket :: "item \<Rightarrow> jstr" where
  "reasonablenessBucket it =
    (if isRiskPointItem it then B_RISK
     else if to_upper (str_or (i_risk_level it) (str_or (i_status it) (js ''INFO''))) = js ''WARN'' then B_WATCH
     else B_CLEAR)"

definition reason_source :: "item list \<Rightarrow> item list" where
  "reason_source items = filter (\<lambda>it. metricKey it \<notin> fst ` set (riskPointEntries items))
     (filter (\<lambda>it. \<not> type_item it)
       (filter (\<lambda>it. level_or_status it \<noteq> Some (js ''UNKNOWN'')) items))"

text \<open>The columns in order; each line is its explicit title, if any, and its item.\<close>

definition buildReasonablenessPanel ::
    "item list \<Rightarrow> js_error + (jstr \<times> (jstr option \<times> item) list) list" where
  "buildReasonablenessPanel items = map_sum id (\<lambda>grouped.
     map (\<lambda>name. (name, if name = B_RISK then map (\<lambda>(key, it). (Some key, it)) (riskPointEntries items)
       else map (Pair None) (column grouped name))) BUCKETS)
     (group_into BUCKETS reasonablenessBucket (reason_source items))"

section \<open>Links to the control list\<close>

definition control_keys :: "item \<Rightarrow> jstr list" where
  "control_keys it = map the (filter truthy [i_rule_id it, i_risk_id it, Some (controlNavTitle it)])"

definition linkedControlItem :: "item \<Rightarrow> item list \<Rightarrow> item option" where
  "linkedControlItem it allItems =
    (case find_js (\<lambda>cand. list_ex (\<lambda>k. k \<in> set (control_keys it)) (control_keys cand)) (controlItems allItems) of
       Some cand \<Rightarrow> Some cand
     | None \<Rightarrow> if itemModule it = M_INTERNAL then Some it else None)"

definition line_number_re :: re where
  "line_number_re = Cat Bol (Cat (Plus (Cls [(48, 57), (46, 46), (0x3001, 0x3001)])) (Star space_re))"

record reason_line =
  rl_name :: jstr
  rl_text :: jstr
  rl_control :: "item option"

definition reasonablenessLine :: "jstr option \<Rightarrow> item \<Rightarrow> item list \<Rightarrow> reason_line" where
  "reasonablenessLine title it allItems =
    (let name = str_or title (str_or (i_metric it) (str_or (i_title it) []));
         reason = str_or (i_reason it) []
     in \<lparr>rl_name = re_replace line_number_re (\<lambda>_ _. []) name,
         rl_text = (case i_value it of
             Some v \<Rightarrow> if v \<noteq> [] \<and> v \<noteq> name then v @ [0x3002] @ reason else reason
           | None \<Rightarrow> reason),
         rl_control = linkedControlItem it allItems\<rparr>)"

section \<open>The classifications\<close>

lemmas module_texts = M_INTERNAL_def M_REASON_def M_RISK_def M_CREDIT_def

lemma distinct_REVIEW_PANELS: "distinct REVIEW_PANELS"
  by (simp add: REVIEW_PANELS_def module_texts)

lemma if_mem: "a \<in> S \<Longrightarrow> b \<in> S \<Longrightarrow> (if c then a else b) \<in> S"
  by simp

lemma itemModule_in: "itemModule it \<in> set REVIEW_PANELS"
proof (cases "\<exists>name \<in> set REVIEW_PANELS. i_module it = Some name")
  case True
  then show ?thesis by (auto simp: itemModule_def)
next
  case False
  show ?thesis
    unfolding itemModule_def Let_def if_not_P [OF False]
    by (intro if_mem) (simp_all add: REVIEW_PANELS_def)
qed

interpretation modules: classifier REVIEW_PANELS itemModule "\<lambda>_. True"
  by unfold_locales (simp_all add: distinct_REVIEW_PANELS itemModule_in)

definition verdict_ok :: "item \<Rightarrow> bool" where
  "verdict_ok it \<longleftrightarrow> i_verdict it \<notin> Some ` set proto_names"

interpretation controls: classifier VERDICT_ORDER itemVerdict verdict_ok
  by unfold_locales (auto simp: verdict_ok_def itemVerdict_def intro: verdict_for_range)

lemma distinct_BUCKETS: "distinct BUCKETS"
  by (simp add: BUCKETS_def B_CLEAR_def B_WATCH_def B_RISK_def)

interpretation buckets: classifier BUCKETS reasonablenessBucket "\<lambda>_. True"
proof unfold_locales
  show "distinct BUCKETS" by (rule distinct_BUCKETS)
  show "reasonablenessBucket x \<in> set BUCKETS" for x by (simp add: reasonablenessBucket_def BUCKETS_def)
qed

lemma consistent_ok: "consistent it \<Longrightarrow> verdict_ok it"
  using verdict_not_proto verdict_name_range by (auto simp: consistent_def verdict_ok_def)

lemma reviewItems_ok: "reviewItems (Some r) = Inr its \<Longrightarrow> \<forall>it \<in> set its. verdict_ok it"
  using reviewItems_consistent consistent_ok by blast

lemma control_groups:
  assumes "\<forall>it \<in> set its. verdict_ok it"
  shows "group_into VERDICT_ORDER itemVerdict (controlItems its)
    = Inr (map (\<lambda>v. (v, filter (\<lambda>it. itemVerdict it = v) (controlItems its))) VERDICT_ORDER)"
  by (rule controls.group_into_eq) (use assms in \<open>simp add: controlItems_def\<close>)

lemma column_control:
  "v \<in> set VERDICT_ORDER \<Longrightarrow>
   column (map (\<lambda>v. (v, filter (\<lambda>it. itemVerdict it = v) xs)) VERDICT_ORDER) v
     = filter (\<lambda>it. itemVerdict it = v) xs"
  by (simp add: column_def map_of_map_restrict)

lemma column_outside: "c \<notin> set cs \<Longrightarrow> column (map (\<lambda>v. (v, f v)) cs) c = []"
  by (simp add: column_def map_of_map_restrict)

section \<open>Keys of the risk points\<close>

lemma extra_loop_mem: "it \<in> set (extra_loop seen its) \<Longrightarrow> it \<in> set its \<and> extra_ok it \<and> metricKey it \<notin> seen"
proof (induction its arbitrary: seen)
  case Nil
  then show ?case by simp
next
  case (Cons it' its)
  show ?case
  proof (cases "extra_ok it' \<and> metricKey it' \<notin> seen")
    case True
    with Cons.prems have "it = it' \<or> it \<in> set (extra_loop (insert (metricKey it') seen) its)" by simp
    with True Cons.IH [of "insert (metricKey it') seen"] show ?thesis by force
  next
    case False
    with Cons.prems have "it \<in> set (extra_loop seen its)" by simp
    with Cons.IH [of seen] show ?thesis by simp
  qed
qed

lemma extra_loop_distinct: "distinct (map metricKey (extra_loop seen its))"
proof (induction its arbitrary: seen)
  case Nil
  then show ?case by simp
next
  case (Cons it its)
  have "metricKey it \<notin> metricKey ` set (extra_loop (insert (metricKey it) seen) its)"
  proof
    assume "metricKey it \<in> metricKey ` set (extra_loop (insert (metricKey it) seen) its)"
    then obtain x where "x \<in> set (extra_loop (insert (metricKey it) seen) its)" "metricKey it = metricKey x" by (elim imageE)
    with extra_loop_mem [of x "insert (metricKey it) seen" its] show False by simp
  qed
  with Cons show ?case by simp
qed

lemma extra_loop_complete:
  "it \<in> set its \<Longrightarrow> extra_ok it \<Longrightarrow> metricKey it \<notin> seen \<Longrightarrow> metricKey it \<in> metricKey ` set (extra_loop seen its)"
proof (induction its arbitrary: seen)
  case Nil
  then show ?case by simp
next
  case (Cons it' its)
  show ?case
  proof (cases "metricKey it = metricKey it' \<and> extra_ok it'")
    case True
    with Cons.prems(3) show ?thesis by simp
  next
    case False
    with Cons.prems have "it \<in> set its" by auto
    with False Cons.prems Cons.IH [of seen] Cons.IH [of "insert (metricKey it') seen"] show ?thesis by simp blast
  qed
qed

lemma entry_keys:
  "fst ` set (riskPointEntries its) = set RISK_POINT_KEYS \<union> metricKey ` set (extraRiskItems its)"
  by (auto simp: riskPointEntries_def image_Un image_image)

lemma risk_point_has_entry:
  assumes "isRiskPointItem it" "it \<in> set its"
  shows "metricKey it \<in> fst ` set (riskPointEntries its)"
proof (cases "metricKey it \<in> set RISK_POINT_KEYS")
  case True
  then show ?thesis by (simp add: entry_keys)
next
  case False
  with assms(1) have "extra_ok it"
    by (simp add: isRiskPointItem_def extraRiskItems_def split: if_splits)
  from extra_loop_complete [OF assms(2) this False] show ?thesis
    unfolding entry_keys extraRiskItems_def by blast
qed

lemma demo_titles: "map i_title demo_items = map (Some \<circ> js) [''T2'', ''T1'', ''new'']"
  by (simp add: demo_items_def demo_defs merge_items_def title_index.simps texts js_space_def
      trim_def matchKey_def id_key_def pending_of_def ai_item_def extras_of_def sortBySeverity_def
      findingSeverity_def severity_table_def overlay_def Let_def)

lemma demo_control_items: "controlItems demo_items \<noteq> []"
proof -
  have "Some (js ''new'') \<in> set (map i_title demo_items)" unfolding demo_titles by simp
  then obtain it where it: "it \<in> set demo_items" "i_title it = Some (js ''new'')" by auto
  then have "\<not> type_item it" by (simp add: type_item_def TYPE_TITLE_def texts)
  with it(1) show ?thesis by (auto simp: controlItems_def filter_empty_conv)
qed

section \<open>Properties\<close>

text \<open>C33: the four module columns of a review hold every item exactly once, whatever module the server
  or the model named; building the panels never raises.\<close>

theorem panels_partition:
  "\<exists>g. panel_groups its = Inr g \<and> map fst g = REVIEW_PANELS \<and> mset (concat (map snd g)) = mset its
    \<and> panel_items M_CREDIT its g = filter (\<lambda>it. itemModule it = M_CREDIT) its"
proof -
  obtain g where g: "panel_groups its = Inr g"
    using modules.group_into_eq [of its] by (simp add: panel_groups_def)
  note g' = g [unfolded panel_groups_def]
  have "M_CREDIT \<in> set REVIEW_PANELS" by (simp add: REVIEW_PANELS_def)
  from modules.column_eq [OF _ this g'] have "panel_items M_CREDIT its g = filter (\<lambda>it. itemModule it = M_CREDIT) its"
    by (simp add: panel_items_def module_texts)
  with g modules.columns_partition [OF _ g'] show ?thesis by simp
qed

text \<open>The counts above the panels add up: every item of a review is counted under exactly one
  verdict, and manual review is asked for exactly when an item does not conform.\<close>

theorem summary_counts:
  assumes "reviewItems (Some r) = Inr its"
  shows "let sm = review_summary its in
    sm_mismatch sm + sm_pending sm + sm_conform sm = sm_total sm
    \<and> (sm_blocked sm \<longleftrightarrow> 0 < sm_mismatch sm)"
proof -
  have "\<forall>it \<in> set its. itemVerdict it \<in> set VERDICT_ORDER"
    using reviewItems_ok [OF assms] controls.classify_in by blast
  from sum_count_filter [OF distinct_VERDICT_ORDER this] show ?thesis
    by (simp add: review_summary_def VERDICT_ORDER_def Let_def filter_empty_conv list_ex_iff)
qed

theorem summary_counts_witness:
  "sm_mismatch (review_summary demo_items) + sm_pending (review_summary demo_items)
    + sm_conform (review_summary demo_items) = 3"
proof -
  have "length (map i_risk_level demo_items) = 3" unfolding demo_items_levels by simp
  then have "sm_total (review_summary demo_items) = 3" by (simp add: review_summary_def)
  then show ?thesis using summary_counts [OF demo_run] by (simp add: Let_def)
qed

text \<open>C5: the control panel shows every rule of the review except the contract-type determination: each
  once, under its own verdict, and it opens on a tab that is not empty: the remembered one, or else
  the worst verdict that occurs.\<close>

theorem control_panel_complete:
  assumes "reviewItems (Some r) = Inr its" "controlItems its \<noteq> []"
  shows "\<exists>cp ws'. buildControlPanel its ws = Inr (Some cp, ws') \<and> controlVerdict ws' = cp_current cp
    \<and> map fst (cp_groups cp) = VERDICT_ORDER \<and> mset (concat (map snd (cp_groups cp))) = mset (controlItems its)
    \<and> cp_shown cp = filter (\<lambda>it. itemVerdict it = cp_current cp) (controlItems its) \<and> cp_shown cp \<noteq> []
    \<and> (\<exists>v. cp_current cp = verdict_name v
        \<and> (cp_current cp \<noteq> controlVerdict ws \<longrightarrow> (\<forall>w < v. \<forall>it \<in> set (controlItems its). itemVerdict it \<noteq> verdict_name w)))"
proof -
  let ?src = "controlItems its"
  define g where "g = map (\<lambda>v. (v, filter (\<lambda>it. itemVerdict it = v) ?src)) VERDICT_ORDER"
  have ok: "\<forall>it \<in> set its. verdict_ok it" by (rule reviewItems_ok [OF assms(1)])
  have g: "group_into VERDICT_ORDER itemVerdict ?src = Inr g" unfolding g_def by (rule control_groups [OF ok])
  have src_ok: "\<forall>it \<in> set ?src. verdict_ok it" using ok by (simp add: controlItems_def)
  define tab where "tab = default_tab g (controlVerdict ws)"
  have col: "column g v = filter (\<lambda>it. itemVerdict it = v) ?src" if "v \<in> set VERDICT_ORDER" for v
    unfolding g_def using that by (rule column_control)
  obtain it where it: "it \<in> set ?src" using assms(2) by (cases ?src) auto
  then have v: "itemVerdict it \<in> set VERDICT_ORDER" using src_ok controls.classify_in by blast
  then have ne: "column g (itemVerdict it) \<noteq> []" using it by (auto simp: col filter_empty_conv)
  have tab: "tab \<in> set VERDICT_ORDER \<and> column g tab \<noteq> [] \<and> (tab \<noteq> controlVerdict ws \<longrightarrow>
      find_js (\<lambda>name. column g name \<noteq> []) VERDICT_ORDER = Some tab)"
  proof (cases "\<not> obj_has VERDICT_META (controlVerdict ws) \<or> column g (controlVerdict ws) = []")
    case True
    from find_js_ex [of "itemVerdict it" VERDICT_ORDER "\<lambda>name. column g name \<noteq> []", OF v ne]
    obtain name where n: "find_js (\<lambda>name. column g name \<noteq> []) VERDICT_ORDER = Some name" ..
    with True find_js_Some [OF n] show ?thesis by (simp add: tab_def default_tab_def)
  next
    case False
    then have "controlVerdict ws \<in> set VERDICT_ORDER"
      using column_outside [of "controlVerdict ws" VERDICT_ORDER "\<lambda>v. filter (\<lambda>it. itemVerdict it = v) ?src"]
      unfolding g_def by blast
    with False show ?thesis by (simp add: tab_def default_tab_def)
  qed
  obtain v' where v': "tab = verdict_name v'"
    using tab by (auto simp: set_VERDICT_ORDER intro: that [of Mismatch] that [of Pending] that [of Conform])
  have worst: "\<forall>w < v'. \<forall>it \<in> set ?src. itemVerdict it \<noteq> verdict_name w" if "tab \<noteq> controlVerdict ws"
  proof -
    have f: "find_js (\<lambda>name. column g name \<noteq> []) VERDICT_ORDER = Some tab" using tab that by blast
    have "column g (verdict_name w) = []" if "w < v'" for w
      using f that v' by (cases v'; cases w) (simp_all add: VERDICT_ORDER_def less_verdict_def split: if_splits)
    then show ?thesis
      using col verdict_name_range by (fastforce simp: filter_empty_conv)
  qed
  have "buildControlPanel its ws = Inr (Some \<lparr>cp_groups = g, cp_current = tab, cp_shown = column g tab\<rparr>,
      ws\<lparr>controlVerdict := tab\<rparr>)"
    using assms(2) g by (simp add: buildControlPanel_def renderVerdict_def tab_def Let_def)
  moreover have "map fst g = VERDICT_ORDER" "mset (concat (map snd g)) = mset ?src"
    using controls.columns_partition [OF src_ok g] by simp_all
  ultimately show ?thesis using tab col v' worst by auto
qed

theorem control_panel_complete_witness:
  "\<exists>cp ws'. buildControlPanel demo_items init_workspace = Inr (Some cp, ws') \<and> cp_shown cp \<noteq> []"
  using control_panel_complete [OF demo_run demo_control_items] by blast

text \<open>The accordion: after any clicks exactly the row that the list counts as opened is open, so at
  most one; but the list starts with its first row open and counted as closed, so the first click on
  that row changes nothing on the page.\<close>

theorem accordion_rows:
  "ac_open (fold click_row (is @ [i]) (buildControlRuleList items))
     = map (\<lambda>k. ac_opened (fold click_row (is @ [i]) (buildControlRuleList items)) = Some k) [0..<length items]
   \<and> ac_open (click_row 0 (buildControlRuleList items)) = ac_open (buildControlRuleList items)"
proof
  have len: "length (ac_open (fold click_row js ac)) = length (ac_open ac)" for js ac
    by (induction js arbitrary: ac) (simp_all add: click_row_def Let_def)
  show "ac_open (fold click_row (is @ [i]) (buildControlRuleList items))
     = map (\<lambda>k. ac_opened (fold click_row (is @ [i]) (buildControlRuleList items)) = Some k) [0..<length items]"
    using len [of "is" "buildControlRuleList items"]
    by (simp add: click_row_def Let_def) (simp add: buildControlRuleList_def)
  show "ac_open (click_row 0 (buildControlRuleList items)) = ac_open (buildControlRuleList items)"
    by (auto simp: click_row_def buildControlRuleList_def)
qed

text \<open>The risk point column lists the four fixed metrics first and then further risks, no metric
  twice, none that belongs to the credit panel, and no result that is unknown.\<close>

theorem risk_entries_distinct:
  "distinct (map fst (riskPointEntries its))
   \<and> take 4 (map fst (riskPointEntries its)) = RISK_POINT_KEYS
   \<and> fst ` set (riskPointEntries its) \<inter> set CREDIT_METRIC_KEYS = {}
   \<and> (\<forall>e. e \<in> set (drop 4 (riskPointEntries its)) \<longrightarrow> snd e \<in> set its
        \<and> fst e = metricKey (snd e) \<and> level_or_status (snd e) \<noteq> Some (js ''UNKNOWN''))"
proof (intro conjI)
  have m: "map fst (riskPointEntries its) = RISK_POINT_KEYS @ map metricKey (extraRiskItems its)"
    by (simp add: riskPointEntries_def comp_def)
  have d: "distinct RISK_POINT_KEYS" by (simp add: RISK_POINT_KEYS_def)
  note mem = extra_loop_mem [of _ "set RISK_POINT_KEYS" its, folded extraRiskItems_def]
  show "distinct (map fst (riskPointEntries its))" 
    unfolding m distinct_append using d extra_loop_distinct mem by (auto simp: extraRiskItems_def)
  show "take 4 (map fst (riskPointEntries its)) = RISK_POINT_KEYS" by (simp add: m RISK_POINT_KEYS_def)
  have "set RISK_POINT_KEYS \<inter> set CREDIT_METRIC_KEYS = {}"
    by (simp add: RISK_POINT_KEYS_def CREDIT_METRIC_KEYS_def)
  then show "fst ` set (riskPointEntries its) \<inter> set CREDIT_METRIC_KEYS = {}"
    using mem unfolding entry_keys extra_ok_def by blast
  have "drop 4 (riskPointEntries its) = map (\<lambda>it. (metricKey it, it)) (extraRiskItems its)"
    by (simp add: riskPointEntries_def RISK_POINT_KEYS_def)
  then show "\<forall>e. e \<in> set (drop 4 (riskPointEntries its)) \<longrightarrow> snd e \<in> set its
        \<and> fst e = metricKey (snd e) \<and> level_or_status (snd e) \<noteq> Some (js ''UNKNOWN'')"
    using mem unfolding extra_ok_def by fastforce
qed

theorem risk_entries_distinct_witness:
  "distinct (map fst (riskPointEntries demo_items))"
  using risk_entries_distinct [of demo_items] by blast

text \<open>C32: the reasonableness panel loses no metric: every result that is neither unknown nor the contract
  type is a line of one of the first two columns, by its level, or its metric has a line in the risk
  column, which is the risk point list itself. Building it never raises.\<close>

theorem reasonableness_covers:
  assumes "it \<in> set its" "level_or_status it \<noteq> Some (js ''UNKNOWN'')" "\<not> type_item it"
  shows "\<exists>clear watch. buildReasonablenessPanel its = Inr [(B_CLEAR, clear), (B_WATCH, watch),
      (B_RISK, map (\<lambda>(key, it). (Some key, it)) (riskPointEntries its))]
    \<and> (metricKey it \<in> fst ` set (riskPointEntries its)
       \<or> (if to_upper (str_or (i_risk_level it) (str_or (i_status it) (js ''INFO''))) = js ''WARN''
          then (None, it) \<in> set watch else (None, it) \<in> set clear))"
proof -
  define g where "g = map (\<lambda>c. (c, filter (\<lambda>it. reasonablenessBucket it = c) (reason_source its))) BUCKETS"
  have g: "group_into BUCKETS reasonablenessBucket (reason_source its) = Inr g"
    unfolding g_def by (rule buckets.group_into_eq) simp
  have col: "column g c = filter (\<lambda>it. reasonablenessBucket it = c) (reason_source its)" if "c \<in> set BUCKETS" for c
    using buckets.column_eq [OF _ that g] by simp
  have b: "B_CLEAR \<in> set BUCKETS" "B_WATCH \<in> set BUCKETS" "B_CLEAR \<noteq> B_RISK" "B_WATCH \<noteq> B_RISK" "B_CLEAR \<noteq> B_WATCH"
    by (simp_all add: BUCKETS_def B_CLEAR_def B_WATCH_def B_RISK_def)
  have "buildReasonablenessPanel its = Inr [(B_CLEAR, map (Pair None) (column g B_CLEAR)),
      (B_WATCH, map (Pair None) (column g B_WATCH)),
      (B_RISK, map (\<lambda>(key, it). (Some key, it)) (riskPointEntries its))]"
    using b by (simp add: buildReasonablenessPanel_def g) (simp add: BUCKETS_def)
  moreover have "metricKey it \<in> fst ` set (riskPointEntries its) \<or>
     (if to_upper (str_or (i_risk_level it) (str_or (i_status it) (js ''INFO''))) = js ''WARN''
      then it \<in> set (column g B_WATCH) else it \<in> set (column g B_CLEAR))"
  proof (cases "metricKey it \<in> fst ` set (riskPointEntries its)")
    case False
    then have "it \<in> set (reason_source its)" using assms by (simp add: reason_source_def)
    moreover have "\<not> isRiskPointItem it" using False risk_point_has_entry assms(1) by blast
    ultimately show ?thesis using b by (simp add: col reasonablenessBucket_def)
  qed simp
  ultimately show ?thesis by (intro exI conjI) (assumption, auto split: if_splits)
qed

theorem reasonableness_covers_witness:
  "\<exists>cols. buildReasonablenessPanel [missing_metric (js ''x'')] = Inr cols"
proof -
  have "\<not> type_item (missing_metric (js ''x''))"
    by (simp add: type_item_def missing_metric_def TYPE_TITLE_def texts)
  from reasonableness_covers [of _ "[missing_metric (js ''x'')]", OF _ _ this] show ?thesis
    by (auto simp: level_or_status_def missing_metric_def)
qed

text \<open>A metric that has a control item links to one: to the first control item that shares its rule
  id, risk id or title, which for an item of the control list always exists; a linked item that is
  not in the list is the metric's own item.\<close>

theorem metric_links:
  "(case linkedControlItem it its of
      Some c \<Rightarrow> c \<in> set (controlItems its) \<and> set (control_keys c) \<inter> set (control_keys it) \<noteq> {}
        \<or> c = it \<and> itemModule it = M_INTERNAL
    | None \<Rightarrow> itemModule it \<noteq> M_INTERNAL)
   \<and> (it \<in> set (controlItems its) \<longrightarrow> (\<exists>c \<in> set (controlItems its). linkedControlItem it its = Some c))"
proof -
  let ?P = "\<lambda>cand. list_ex (\<lambda>k. k \<in> set (control_keys it)) (control_keys cand)"
  have keys: "control_keys it \<noteq> []" by (simp add: control_keys_def controlNavTitle_def Let_def UNNAMED_def)
  then have self: "?P it" by (cases "control_keys it") auto
  show ?thesis
  proof (cases "find_js ?P (controlItems its)")
    case None
    then have "\<not> it \<in> set (controlItems its)" using self by fastforce
    then show ?thesis unfolding linkedControlItem_def None by simp
  next
    case (Some c)
    from find_js_Some [OF Some] show ?thesis
      unfolding linkedControlItem_def Some by (auto simp: list_ex_iff)
  qed
qed

theorem metric_links_witness:
  "\<exists>c \<in> set (controlItems demo_items). linkedControlItem (hd (controlItems demo_items)) demo_items = Some c"
  using metric_links [of "hd (controlItems demo_items)" demo_items] demo_control_items by simp

text \<open>A metric card shows the extracted value and the reason unless one makes the other redundant: its
  text is blank only when both are, contains the reason, and contains the value or the metric's name
  says it.\<close>

theorem metric_card_text:
  "let v = trim (str_or (i_value it) []); reason = trim (str_or (i_reason it) []); t = metricCardText it name in
   (t = [] \<longleftrightarrow> v = [] \<and> reason = []) \<and> str_includes t reason \<and> (str_includes t v \<or> v = name)"
proof -
  have inc: "str_includes (a @ b @ c) b" for a b c :: jstr by (auto simp: str_includes_iff)
  from inc [of "[]"] inc [of _ _ "[]"] inc [of "[]" _ "[]"]
  have "str_includes (a @ b) a" "str_includes (a @ b) b" "str_includes a a" for a b :: jstr by auto
  moreover have "str_includes a []" for a by (cases a) simp_all
  moreover have "str_includes (a @ x # c) c" for a c :: jstr and x
    using calculation(2) [of "a @ [x]" c] by simp
  ultimately show ?thesis by (simp add: metricCardText_def Let_def del: append_assoc)
qed

end
