(* ===== verification/RulesPage.thy ===== *)
theory RulesPage
  imports AppState Uri Grouping
begin

text \<open>
  The rule engine page: grouping rules by topic, the pagers of its tables, the score matrix with its
  row spans, the form of a rule and what saving it sends, and the row buttons. Rules are the rows
  that \<open>GET /contract-review/rules-engine\<close> returns.
\<close>

section \<open>Data\<close>

definition RULE_TOPICS :: "jstr list" where
  "RULE_TOPICS = [[0x5408, 0x540C, 0x7C7B, 0x578B], [0x91D1, 0x989D], [0x4ED8, 0x6B3E], [0x53D1, 0x7968], [0x6E90, 0x4EE3, 0x7801, 0x76F8, 0x5173, 0xFF08, 0x6309, 0x5173, 0x952E, 0x5B57, 0x641C, 0x7D22, 0xFF09], [0x77E5, 0x8BC6, 0x4EA7, 0x6743],
     [0x65B0, 0x6280, 0x672F, 0x67B6, 0x6784, 0x63CF, 0x8FF0, 0x76F8, 0x5173], [0x5408, 0x540C, 0x4E3B, 0x4F53], [0x5408, 0x89C4, 0x6027, 0x002F, 0x4EA4, 0x4ED8, 0x95EE, 0x9898], [0x8F6F, 0x4EF6, 0x5F00, 0x53D1, 0x670D, 0x52A1, 0x5408, 0x540C, 0xFF08, 0x0030, 0x7A0E, 0x7387, 0xFF09, 0x91CD, 0x70B9, 0x68C0, 0x67E5, 0x9879]]"

definition RULE_PAGE_SIZES :: "int list" where
  "RULE_PAGE_SIZES = [10, 20, 50]"

definition RULE_LEVEL_TO_V2 :: "jstr obj" where
  "RULE_LEVEL_TO_V2 = [(js ''WARN'', js ''medium''), (js ''BLOCK'', js ''high''), (js ''INFO'', js ''low'')]"

record rule_row =
  ru_id :: "jstr option"
  ru_code :: "jstr option"
  ru_title :: "jstr option"
  ru_condition :: "jstr option"
  ru_topic :: "jstr option"
  ru_risk_level :: "jstr option"
  ru_status :: "jstr option"
  ru_enabled :: "bool option"
  ru_weight :: "nat option"
  ru_high :: "jstr option"
  ru_mid :: "jstr option"
  ru_low :: "jstr option"
  ru_action :: "jstr option"

record rule_group =
  gr_name :: jstr
  gr_rules :: "rule_row list"

definition isRuleEnabled :: "rule_row \<Rightarrow> bool" where
  "isRuleEnabled r \<longleftrightarrow> ru_enabled r \<noteq> Some False"

definition isDraft :: "rule_row \<Rightarrow> bool" where
  "isDraft r \<longleftrightarrow> ru_status r = Some (js ''draft'')"

section \<open>Topics\<close>

definition OTHER_TOPIC :: jstr where "OTHER_TOPIC = [0x5176, 0x4ED6, 0x68C0, 0x67E5]"

definition topic_of :: "rule_row \<Rightarrow> jstr" where
  "topic_of r = str_or (ru_topic r) OTHER_TOPIC"

text \<open>A bucket whose name is a member of \<open>Object.prototype\<close> is that member, which has no \<open>push\<close>.\<close>

fun fill_buckets :: "rule_row list obj \<Rightarrow> rule_row list \<Rightarrow> js_error + rule_row list obj" where
  "fill_buckets b [] = Inr b"
| "fill_buckets b (r # rs) = (case obj_get b (topic_of r) of
     Own xs \<Rightarrow> fill_buckets (obj_put b (topic_of r) (xs @ [r])) rs
   | Missing \<Rightarrow> fill_buckets (obj_put b (topic_of r) [r]) rs
   | Inherited \<Rightarrow> Inl TypeError)"

definition bucket :: "rule_row list obj \<Rightarrow> jstr \<Rightarrow> rule_row list" where
  "bucket b name = (case obj_get b name of Own xs \<Rightarrow> xs | _ \<Rightarrow> [])"

definition groupRulesByTopic :: "jstr list \<Rightarrow> rule_row list \<Rightarrow> js_error + rule_group list" where
  "groupRulesByTopic topics rules = map_sum id (\<lambda>b.
     map (\<lambda>name. \<lparr>gr_name = name, gr_rules = bucket b name\<rparr>)
       (filter (obj_has b) topics @ filter (\<lambda>name. name \<notin> set topics) (obj_keys b)))
     (fill_buckets [] rules)"

section \<open>Pagers\<close>

record pager =
  pager_page :: int
  pager_size :: int

definition new_pager :: pager where
  "new_pager = \<lparr>pager_page = 1, pager_size = 10\<rparr>"

definition rulePager :: "jstr \<Rightarrow> pager obj \<Rightarrow> pager \<times> pager obj" where
  "rulePager key ps = (case obj_get ps key of
     Own p \<Rightarrow> (p, ps) | _ \<Rightarrow> (new_pager, obj_put ps key new_pager))"

text \<open>\<open>Math.ceil(cnt / size)\<close> for a positive size.\<close>

definition ceil_div :: "int \<Rightarrow> int \<Rightarrow> int" where
  "ceil_div cnt sz = - ((- cnt) div sz)"

definition page_count :: "int \<Rightarrow> int \<Rightarrow> int" where
  "page_count cnt sz = max 1 (ceil_div cnt sz)"

record 'a slice =
  sl_total :: int
  sl_pages :: int
  sl_start :: int
  sl_rows :: "'a list"

definition pagedSlice :: "'a list \<Rightarrow> pager \<Rightarrow> pager \<times> 'a slice" where
  "pagedSlice items p =
    (let cnt = int (length items); pages = page_count cnt (pager_size p);
         p1 = (if pager_page p > pages then p\<lparr>pager_page := pages\<rparr> else p);
         p2 = (if pager_page p1 < 1 then p1\<lparr>pager_page := 1\<rparr> else p1);
         start = (pager_page p2 - 1) * pager_size p2
     in (p2, \<lparr>sl_total = cnt, sl_pages = pages, sl_start = start,
             sl_rows = take (nat (pager_size p2)) (drop (nat start) items)\<rparr>))"

record pager_bar =
  pb_from :: int
  pb_to :: int
  pb_numbers :: "int list"
  pb_prev_disabled :: bool
  pb_next_disabled :: bool

definition buildTablePager :: "pager \<Rightarrow> int \<Rightarrow> pager_bar" where
  "buildTablePager p cnt =
    (let pages = page_count cnt (pager_size p);
         ws = max 1 (min (pager_page p - 2) (pages - 4)); we = min pages (ws + 4)
     in \<lparr>pb_from = (if cnt \<noteq> 0 then (pager_page p - 1) * pager_size p + 1 else 0),
         pb_to = min cnt (pager_page p * pager_size p),
         pb_numbers = [ws..we],
         pb_prev_disabled = (pager_page p \<le> 1), pb_next_disabled = (pager_page p \<ge> pages)\<rparr>)"

text \<open>The controls of the bar; \<open>Goto i\<close> is the \<open>i\<close>-th number button, \<open>Resize i\<close> the \<open>i\<close>-th size.
  Every one of them redraws the table, which clamps the pager.\<close>

datatype pager_click = Prev | Next | Goto nat | Resize nat

definition pager_click :: "int \<Rightarrow> pager_click \<Rightarrow> pager \<Rightarrow> pager" where
  "pager_click cnt ev p = (case ev of
     Prev \<Rightarrow> if pager_page p > 1 then p\<lparr>pager_page := pager_page p - 1\<rparr> else p
   | Next \<Rightarrow> if pager_page p < page_count cnt (pager_size p) then p\<lparr>pager_page := pager_page p + 1\<rparr> else p
   | Goto i \<Rightarrow> if i < length (pb_numbers (buildTablePager p cnt))
       then p\<lparr>pager_page := pb_numbers (buildTablePager p cnt) ! i\<rparr> else p
   | Resize i \<Rightarrow> if i < length RULE_PAGE_SIZES then p\<lparr>pager_size := RULE_PAGE_SIZES ! i, pager_page := 1\<rparr> else p)"

definition redraw_table :: "'a list \<Rightarrow> pager \<Rightarrow> pager" where
  "redraw_table items p = fst (pagedSlice items p)"

section \<open>The score matrix\<close>

definition flattenScoreRows :: "rule_group list \<Rightarrow> (jstr \<times> rule_row) list" where
  "flattenScoreRows groups = concat (map (\<lambda>g. map (Pair (gr_name g)) (gr_rules g)) groups)"

text \<open>The loop keeps the groups in order; \<open>groups[groups.length - 1]\<close> is the last one.\<close>

fun regroup_step :: "rule_group list \<Rightarrow> jstr \<times> rule_row \<Rightarrow> rule_group list" where
  "regroup_step gs (name, r) =
    (if gs = [] \<or> gr_name (last gs) \<noteq> name then gs @ [\<lparr>gr_name = name, gr_rules = [r]\<rparr>]
     else butlast gs @ [(last gs)\<lparr>gr_rules := gr_rules (last gs) @ [r]\<rparr>])"

definition regroupScoreRows :: "(jstr \<times> rule_row) list \<Rightarrow> rule_group list" where
  "regroupScoreRows rows = foldl regroup_step [] rows"

text \<open>A row of the matrix: its number, the group cell it opens (name and row span), its rule.\<close>

record matrix_row =
  mx_no :: int
  mx_group :: "(jstr \<times> nat) option"
  mx_rule :: rule_row

fun group_rows :: "int \<Rightarrow> rule_group \<Rightarrow> matrix_row list" where
  "group_rows no g = map (\<lambda>i. \<lparr>mx_no = no + int i,
     mx_group = (if i = 0 then Some (gr_name g, length (gr_rules g)) else None),
     mx_rule = gr_rules g ! i\<rparr>) [0..<length (gr_rules g)]"

fun matrix_rows :: "int \<Rightarrow> rule_group list \<Rightarrow> matrix_row list" where
  "matrix_rows no [] = []"
| "matrix_rows no (g # gs) = group_rows no g @ matrix_rows (no + int (length (gr_rules g))) gs"

definition score_matrix :: "rule_group list \<Rightarrow> pager \<Rightarrow> matrix_row list" where
  "score_matrix groups p = (let sl = snd (pagedSlice (flattenScoreRows groups) p) in
     matrix_rows (sl_start sl + 2) (regroupScoreRows (sl_rows sl)))"

section \<open>The rule form\<close>

text \<open>What the inputs hold. A select takes the option marked selected, or else its first option.\<close>

record rule_form =
  rf_title :: jstr
  rf_code :: jstr
  rf_topic :: jstr
  rf_level :: jstr
  rf_condition :: jstr
  rf_weight :: jstr
  rf_action :: jstr
  rf_high :: jstr
  rf_mid :: jstr
  rf_low :: jstr

definition select_value :: "jstr list \<Rightarrow> jstr \<Rightarrow> jstr" where
  "select_value opts cur = (if cur \<in> set opts then cur else hd opts)"

definition openRuleForm :: "jstr list \<Rightarrow> rule_row \<Rightarrow> rule_form" where
  "openRuleForm state_topics r =
    (let topics = (if state_topics \<noteq> [] then state_topics else RULE_TOPICS) in
     \<lparr>rf_title = str_or (ru_title r) [], rf_code = str_or (ru_code r) [],
      rf_topic = select_value topics (str_or (ru_topic r) (hd topics)),
      rf_level = select_value [js ''WARN'', js ''BLOCK'', js ''INFO''] (str_or (ru_risk_level r) (js ''WARN'')),
      rf_condition = str_or (ru_condition r) [],
      rf_weight = dec (case ru_weight r of None \<Rightarrow> 10 | Some w \<Rightarrow> if w = 0 then 10 else w),
      rf_action = str_or (ru_action r) [], rf_high = str_or (ru_high r) [],
      rf_mid = str_or (ru_mid r) [], rf_low = str_or (ru_low r) []\<rparr>)"

definition or_null :: "jstr \<Rightarrow> json" where
  "or_null s = (if trim s = [] then JNull else JStr (trim s))"

text \<open>\<open>number\<close> is \<open>Number(text)\<close> as JSON writes it.\<close>

definition rule_payload :: "(jstr \<Rightarrow> json) \<Rightarrow> rule_form \<Rightarrow> json" where
  "rule_payload number f = JObj
    [(js ''rule_id'', if trim (rf_code f) = [] then JUndef else JStr (trim (rf_code f))),
     (js ''title'', JStr (trim (rf_title f))),
     (js ''category'', JStr (rf_topic f)),
     (js ''check_method'', JStr (js ''keyword'')),
     (js ''risk_level'', case obj_get RULE_LEVEL_TO_V2 (if rf_level f = [] then js ''WARN'' else rf_level f) of
        Own l \<Rightarrow> JStr l | _ \<Rightarrow> JNull),
     (js ''condition'', or_null (rf_condition f)),
     (js ''suggested_action'', or_null (rf_action f)),
     (js ''weight'', number (if rf_weight f = [] then js ''10'' else rf_weight f)),
     (js ''high_standard'', or_null (rf_high f)),
     (js ''mid_standard'', or_null (rf_mid f)),
     (js ''low_standard'', or_null (rf_low f))]"

definition rules_path :: jstr where "rules_path = js ''/contract-review/rules''"

text \<open>
  The handlers up to their request, and what they show when it is answered. A successful answer is
  followed by the reload of the page (\<open>loadAiRules\<close>). \<open>engine\<close> is the text of an exception.
\<close>

definition reload_rules :: "client \<Rightarrow> effect" where
  "reload_rules c = Send (api_get c (js ''/contract-review/rules-engine''))"

definition saveRuleForm ::
    "(jstr \<Rightarrow> json) \<Rightarrow> (js_error \<Rightarrow> jstr) \<Rightarrow> client \<Rightarrow> jstr option \<Rightarrow> rule_form \<Rightarrow> effect list" where
  "saveRuleForm number engine c rid f =
    (if trim (rf_title f) = [] then [Toast [0x8BF7, 0x586B, 0x5199, 0x89C4, 0x5219, 0x540D, 0x79F0] Warn]
     else let body = JObj [(js ''payload'', rule_payload number f)] in
     if truthy rid then (case encodeURIComponent (the rid) of
         Inl x \<Rightarrow> [Toast ([0x4FDD, 0x5B58, 0x5931, 0x8D25, 0xFF1A] @ engine x) Err]
       | Inr seg \<Rightarrow> [Send (api_put c (rules_path @ [47] @ seg) body)])
     else [Send (api_post c rules_path body)])"

definition finishSaveRule :: "client \<Rightarrow> jstr option \<Rightarrow> outcome \<Rightarrow> effect list" where
  "finishSaveRule c rid out = (case out of
     Inl e \<Rightarrow> [Toast ([0x4FDD, 0x5B58, 0x5931, 0x8D25, 0xFF1A] @ failure_text e) Err]
   | Inr _ \<Rightarrow> [Toast (if truthy rid then [0x89C4, 0x5219, 0x5DF2, 0x66F4, 0x65B0] else [0x89C4, 0x5219, 0x5DF2, 0x521B, 0x5EFA, 0x5E76, 0x542F, 0x7528]) Ok, ModalClose, reload_rules c])"

section \<open>Row buttons\<close>

definition rule_segment :: "rule_row \<Rightarrow> js_error + jstr" where
  "rule_segment r = encodeURIComponent (case ru_id r of None \<Rightarrow> js ''undefined'' | Some i \<Rightarrow> i)"

definition toggleRuleEnabled :: "(js_error \<Rightarrow> jstr) \<Rightarrow> client \<Rightarrow> rule_row \<Rightarrow> bool \<Rightarrow> effect list" where
  "toggleRuleEnabled engine c r enabled =
    (if isDraft r \<and> \<not> enabled then []
     else case rule_segment r of
       Inl x \<Rightarrow> [Toast ([0x64CD, 0x4F5C, 0x5931, 0x8D25, 0xFF1A] @ engine x) Err]
     | Inr seg \<Rightarrow> [Send (api_post c (rules_path @ [47] @ seg @
         (if isDraft r then js ''/confirm'' else if enabled then js ''/enable'' else js ''/disable'')) (JObj []))])"

definition finishToggle :: "client \<Rightarrow> rule_row \<Rightarrow> bool \<Rightarrow> outcome \<Rightarrow> effect list" where
  "finishToggle c r enabled out = (case out of
     Inl e \<Rightarrow> [Toast ([0x64CD, 0x4F5C, 0x5931, 0x8D25, 0xFF1A] @ failure_text e) Err]
   | Inr _ \<Rightarrow> [Toast (if isDraft r then [0x89C4, 0x5219, 0x5DF2, 0x786E, 0x8BA4, 0x542F, 0x7528, 0xFF0C, 0x8FDB, 0x5165, 0x5408, 0x540C, 0x68C0, 0x67E5, 0x6807, 0x51C6]
        else if enabled then [0x89C4, 0x5219, 0x5DF2, 0x542F, 0x7528, 0xFF0C, 0x4E0B, 0x6B21, 0x5BA1, 0x67E5, 0x751F, 0x6548] else [0x89C4, 0x5219, 0x5DF2, 0x505C, 0x7528]) Ok, reload_rules c])"

definition confirmCandidate :: "(js_error \<Rightarrow> jstr) \<Rightarrow> client \<Rightarrow> rule_row \<Rightarrow> effect list" where
  "confirmCandidate engine c r = toggleRuleEnabled engine c r True"

text \<open>The button of a row of \<open>buildApprovalRuleTable\<close>: whether it is on, its text, and its click.\<close>

record rule_button =
  rb_on :: bool
  rb_text :: jstr
  rb_click :: "effect list"

definition row_button :: "(js_error \<Rightarrow> jstr) \<Rightarrow> client \<Rightarrow> rule_row \<Rightarrow> rule_button" where
  "row_button engine c r =
    (let enabled = (\<not> isDraft r \<and> isRuleEnabled r) in
     \<lparr>rb_on = enabled, rb_text = (if isDraft r then [0x786E, 0x8BA4, 0x542F, 0x7528] else if enabled then [0x662F] else [0x5426]),
      rb_click = (if isDraft r then confirmCandidate engine c r else toggleRuleEnabled engine c r (\<not> enabled))\<rparr>)"

definition deleteRule :: "(js_error \<Rightarrow> jstr) \<Rightarrow> client \<Rightarrow> bool \<Rightarrow> rule_row \<Rightarrow> effect list" where
  "deleteRule engine c confirmed r =
    (if \<not> confirmed then []
     else case rule_segment r of
       Inl x \<Rightarrow> [Toast ([0x5220, 0x9664, 0x5931, 0x8D25, 0xFF1A] @ engine x) Err]
     | Inr seg \<Rightarrow> [Send (api_del c (rules_path @ [47] @ seg))])"

definition finishDelete :: "client \<Rightarrow> outcome \<Rightarrow> effect list" where
  "finishDelete c out = (case out of
     Inl e \<Rightarrow> [Toast ([0x5220, 0x9664, 0x5931, 0x8D25, 0xFF1A] @ failure_text e) Err]
   | Inr _ \<Rightarrow> [Toast [0x89C4, 0x5219, 0x5DF2, 0x5220, 0x9664] Ok, reload_rules c])"

section \<open>Pages\<close>

lemma ceil_div_bounds:
  assumes "0 < n"
  shows "m \<le> ceil_div m n * n" "(ceil_div m n - 1) * n < m"
proof -
  have d: "(- m) div n * n = - m - (- m) mod n" using div_mult_mod_eq [of "- m" n] by linarith
  have "0 \<le> (- m) mod n" "(- m) mod n < n" using assms by simp_all
  with d show "m \<le> ceil_div m n * n" "(ceil_div m n - 1) * n < m"
    by (simp_all add: ceil_div_def left_diff_distrib)
qed

lemma page_count_bounds:
  assumes "0 < n" "0 \<le> m"
  shows "1 \<le> page_count m n" "m \<le> page_count m n * n" "0 < m \<Longrightarrow> (page_count m n - 1) * n < m"
proof -
  show "1 \<le> page_count m n" by (simp add: page_count_def)
  have "ceil_div m n * n \<le> page_count m n * n" using assms(1) by (simp add: page_count_def)
  with ceil_div_bounds(1) [OF assms(1), of m] show "m \<le> page_count m n * n" by linarith
  show "(page_count m n - 1) * n < m" if "0 < m"
    using ceil_div_bounds(2) [OF assms(1), of m] that by (auto simp: page_count_def max_def)
qed

lemma concat_slices: "concat (map (\<lambda>k. take n (drop (k * n) xs)) [0..<m]) = take (m * n) xs"
  by (induction m) (simp_all add: take_add add.commute [of n])

definition pager_ok :: "int \<Rightarrow> pager \<Rightarrow> bool" where
  "pager_ok cnt p \<longleftrightarrow> 0 < pager_size p \<and> 1 \<le> pager_page p \<and> pager_page p \<le> page_count cnt (pager_size p)"

lemma redraw_ok: "0 < pager_size p \<Longrightarrow> pager_ok (int (length items)) (redraw_table items p)"
  using page_count_bounds(1) [of "pager_size p" "int (length items)"]
  by (auto simp: redraw_table_def pagedSlice_def pager_ok_def Let_def)

lemma pagedSlice_in_range:
  "pager_ok (int (length items)) p \<Longrightarrow> pagedSlice items p =
    (p, \<lparr>sl_total = int (length items), sl_pages = page_count (int (length items)) (pager_size p),
         sl_start = (pager_page p - 1) * pager_size p,
         sl_rows = take (nat (pager_size p)) (drop (nat ((pager_page p - 1) * pager_size p)) items)\<rparr>)"
  by (simp add: pagedSlice_def pager_ok_def Let_def)

lemma click_size: "0 < pager_size p \<Longrightarrow> 0 < pager_size (pager_click cnt ev p)"
  by (cases ev) (auto simp: pager_click_def RULE_PAGE_SIZES_def nth_Cons split: nat.splits)

text \<open>A table after some clicks, each followed by a redraw.\<close>

definition table_pager :: "'a list \<Rightarrow> pager_click list \<Rightarrow> pager" where
  "table_pager items evs =
     fold (\<lambda>ev p. redraw_table items (pager_click (int (length items)) ev p)) evs (redraw_table items new_pager)"

lemma table_pager_ok: "pager_ok (int (length items)) (table_pager items evs)"
proof -
  have "pager_ok (int (length items)) (fold (\<lambda>ev p. redraw_table items (pager_click (int (length items)) ev p)) evs p)"
    if "pager_ok (int (length items)) p" for p
    using that
  proof (induction evs arbitrary: p)
    case (Cons ev evs)
    then have "0 < pager_size (pager_click (int (length items)) ev p)"
      using click_size by (simp add: pager_ok_def)
    from Cons.IH [OF redraw_ok [OF this]] show ?case by simp
  qed simp
  moreover have "pager_ok (int (length items)) (redraw_table items new_pager)"
    by (rule redraw_ok) (simp add: new_pager_def)
  ultimately show ?thesis by (simp add: table_pager_def)
qed

section \<open>Buckets\<close>

lemma bucket_eq: "bucket b t = (case map_of b t of Some xs \<Rightarrow> xs | None \<Rightarrow> [])"
  by (simp add: bucket_def obj_get_def split: option.split)

lemma fill_buckets_spec:
  "fill_buckets b rs = Inr b' \<Longrightarrow> distinct (map fst b) \<Longrightarrow>
   distinct (map fst b') \<and> fst ` set b' = fst ` set b \<union> topic_of ` set rs
   \<and> (\<forall>t. bucket b' t = bucket b t @ filter (\<lambda>r. topic_of r = t) rs)"
proof (induction b rs rule: fill_buckets.induct)
  case (1 b)
  then show ?case by simp
next
  case (2 b r rs)
  show ?case
  proof (cases "obj_get b (topic_of r)")
    case (Own xs)
    let ?b = "obj_put b (topic_of r) (xs @ [r])"
    have k: "topic_of r \<in> fst ` set b" using Own by (auto simp: map_of_eq_Some_iff dest: map_of_SomeD intro: rev_image_eqI)
    have keys: "map fst ?b = map fst b" using k by (simp add: map_fst_obj_put)
    have "fst ` set ?b = fst ` set b" using arg_cong [OF keys, of set] by simp
    moreover have "distinct (map fst ?b)" using keys "2.prems"(2) by simp
    moreover have "bucket ?b t = bucket b t @ (if topic_of r = t then [r] else [])" for t
      using Own by (auto simp: bucket_eq)
    ultimately show ?thesis
      using "2.IH"(1) [OF Own] "2.prems"(1) Own k by (auto simp: insert_absorb)
  next
    case Missing
    let ?b = "obj_put b (topic_of r) [r]"
    have k: "topic_of r \<notin> fst ` set b"
      using Missing by (auto simp: obj_get_def map_of_eq_None_iff split: option.splits if_splits)
    have keys: "map fst ?b = map fst b @ [topic_of r]" using k by (simp add: map_fst_obj_put)
    have "fst ` set ?b = insert (topic_of r) (fst ` set b)" using arg_cong [OF keys, of set] by simp
    moreover have "distinct (map fst ?b)" using keys "2.prems"(2) k by simp
    moreover have "bucket ?b t = bucket b t @ (if topic_of r = t then [r] else [])" for t
      using Missing by (auto simp: bucket_eq obj_get_def split: option.splits if_splits)
    ultimately show ?thesis
      using "2.IH"(2) [OF Missing] "2.prems"(1) Missing by auto
  next
    case Inherited
    with "2.prems"(1) show ?thesis by simp
  qed
qed

section \<open>Regrouping\<close>

definition adjacent_differ :: "rule_group list \<Rightarrow> bool" where
  "adjacent_differ gs \<longleftrightarrow> (\<forall>i. Suc i < length gs \<longrightarrow> gr_name (gs ! i) \<noteq> gr_name (gs ! Suc i))
     \<and> (\<forall>g \<in> set gs. gr_rules g \<noteq> [])"

lemma flatten_append [simp]: "flattenScoreRows (gs @ hs) = flattenScoreRows gs @ flattenScoreRows hs"
  by (simp add: flattenScoreRows_def)

lemma regroup_step_spec:
  "flattenScoreRows (regroup_step gs x) = flattenScoreRows gs @ [x]
   \<and> (adjacent_differ gs \<longrightarrow> adjacent_differ (regroup_step gs x))"
proof (cases x)
  case (Pair name r)
  show ?thesis
  proof (cases gs rule: rev_cases)
    case Nil
    then show ?thesis by (simp add: Pair flattenScoreRows_def adjacent_differ_def)
  next
    case (snoc hs g)
    then show ?thesis
      by (auto simp: Pair flattenScoreRows_def adjacent_differ_def nth_append less_Suc_eq split: if_splits)
  qed
qed

lemma regroup_spec:
  "flattenScoreRows (regroupScoreRows rows) = rows \<and> adjacent_differ (regroupScoreRows rows)"
proof -
  have "flattenScoreRows (foldl regroup_step gs rows) = flattenScoreRows gs @ rows
      \<and> (adjacent_differ gs \<longrightarrow> adjacent_differ (foldl regroup_step gs rows))" for gs
    by (induction rows arbitrary: gs) (use regroup_step_spec in auto)
  from this [of "[]"] show ?thesis
    by (simp add: regroupScoreRows_def flattenScoreRows_def adjacent_differ_def)
qed

lemma matrix_rows_spec:
  "map mx_rule (matrix_rows no gs) = map snd (flattenScoreRows gs)
   \<and> map mx_no (matrix_rows no gs) = map (\<lambda>i. no + int i) [0..<length (flattenScoreRows gs)]"
proof (induction gs arbitrary: no)
  case Nil
  then show ?case by (simp add: flattenScoreRows_def)
next
  case (Cons g gs)
  have f: "flattenScoreRows (g # gs) = map (Pair (gr_name g)) (gr_rules g) @ flattenScoreRows gs"
    by (simp add: flattenScoreRows_def)
  have "map mx_rule (group_rows no g) = gr_rules g" by (simp add: comp_def map_nth)
  moreover have "map (\<lambda>i. no + int i) [0..<length (gr_rules g) + n]
      = map (\<lambda>i. no + int i) [0..<length (gr_rules g)] @ map (\<lambda>i. no + int (length (gr_rules g)) + int i) [0..<n]" for n
    by (induction n) (simp_all add: algebra_simps)
  ultimately show ?case using Cons.IH [of "no + int (length (gr_rules g))"]
    by (simp add: f comp_def)
qed

lemma matrix_spans:
  "map the (filter (\<lambda>x. x \<noteq> None) (map mx_group (matrix_rows no gs)))
     = map (\<lambda>g. (gr_name g, length (gr_rules g))) (filter (\<lambda>g. gr_rules g \<noteq> []) gs)"
proof (induction gs arbitrary: no)
  case (Cons g gs)
  have "map the (filter (\<lambda>x. x \<noteq> None) (map mx_group (group_rows no g)))
      = (if gr_rules g = [] then [] else [(gr_name g, length (gr_rules g))])"
  proof (cases "length (gr_rules g)")
    case (Suc n)
    have "[0..<Suc n] = 0 # map Suc [0..<n]" by (simp add: map_Suc_upt upt_conv_Cons del: upt_Suc)
    with Suc show ?thesis by (auto simp: comp_def filter_empty_conv simp del: upt_Suc)
  qed simp
  with Cons.IH show ?case by simp
qed simp

section \<open>Some rules, for evaluation\<close>

definition demo_rule :: "string \<Rightarrow> string \<Rightarrow> string \<Rightarrow> rule_row" where
  "demo_rule i topic level = \<lparr>ru_id = Some (js i), ru_code = Some (js i), ru_title = Some (js i),
     ru_condition = None, ru_topic = Some (js topic), ru_risk_level = Some (js level), ru_status = Some (js ''active''),
     ru_enabled = Some True, ru_weight = Some 5, ru_high = None, ru_mid = None, ru_low = None, ru_action = None\<rparr>"

section \<open>Properties\<close>

text \<open>The pages of a table, one after the other, are the table: no rule is missing between two pages
  and none is shown on both.\<close>

theorem pages_partition:
  assumes "0 < n"
  shows "concat (map (\<lambda>k. sl_rows (snd (pagedSlice items \<lparr>pager_page = int k + 1, pager_size = n\<rparr>)))
    [0..<nat (page_count (int (length items)) n)]) = items"
proof -
  let ?m = "nat (page_count (int (length items)) n)"
  have pc: "1 \<le> page_count (int (length items)) n" "int (length items) \<le> page_count (int (length items)) n * n"
    using page_count_bounds [OF assms, of "int (length items)"] by simp_all
  have "sl_rows (snd (pagedSlice items \<lparr>pager_page = int k + 1, pager_size = n\<rparr>))
      = take (nat n) (drop (k * nat n) items)" if "k < ?m" for k
  proof -
    have "pager_ok (int (length items)) \<lparr>pager_page = int k + 1, pager_size = n\<rparr>"
      using assms that pc(1) by (simp add: pager_ok_def)
    from pagedSlice_in_range [OF this] assms show ?thesis by (simp add: nat_mult_distrib)
  qed
  then have "concat (map (\<lambda>k. sl_rows (snd (pagedSlice items \<lparr>pager_page = int k + 1, pager_size = n\<rparr>))) [0..<?m])
      = concat (map (\<lambda>k. take (nat n) (drop (k * nat n) items)) [0..<?m])"
    by (intro arg_cong [where f = concat] map_cong) auto
  also have "\<dots> = take (?m * nat n) items" by (rule concat_slices)
  also have "\<dots> = items"
  proof -
    have "int (length items) \<le> int (?m * nat n)" using pc assms by simp
    then have "length items \<le> ?m * nat n" unfolding of_nat_le_iff .
    then show ?thesis by simp
  qed
  finally show ?thesis .
qed

theorem pages_partition_witness:
  "concat (map (\<lambda>k. sl_rows (snd (pagedSlice [1::nat, 2, 3] \<lparr>pager_page = int k + 1, pager_size = 2\<rparr>)))
    [0..<nat (page_count (int (length [1::nat, 2, 3])) 2)]) = [1, 2, 3]"
  by (rule pages_partition) simp

text \<open>C30: whatever buttons of a pager are pressed, the table stays on an existing page: the page shown is
  within bounds and not blank unless the table is, the text counts exactly the rows shown, and the
  number buttons are at most five existing pages around the current one.\<close>

theorem pager_stays_in_range:
  "let p = table_pager items evs; sl = snd (pagedSlice items p); bar = buildTablePager p (int (length items)) in
   1 \<le> pager_page p \<and> pager_page p \<le> sl_pages sl
   \<and> int (length (sl_rows sl)) = (if items = [] then 0 else pb_to bar - pb_from bar + 1)
   \<and> (items \<noteq> [] \<longrightarrow> sl_rows sl \<noteq> [])
   \<and> pager_page p \<in> set (pb_numbers bar) \<and> set (pb_numbers bar) \<subseteq> {1..sl_pages sl} \<and> length (pb_numbers bar) \<le> 5"
proof -
  define p where "p = table_pager items evs"
  define cnt where "cnt = int (length items)"
  have ok: "pager_ok cnt p" unfolding cnt_def p_def by (rule table_pager_ok)
  then have s: "0 < pager_size p" "1 \<le> pager_page p" "pager_page p \<le> page_count cnt (pager_size p)"
    by (simp_all add: pager_ok_def)
  have sl: "pagedSlice items p = (p, \<lparr>sl_total = cnt, sl_pages = page_count cnt (pager_size p),
      sl_start = (pager_page p - 1) * pager_size p,
      sl_rows = take (nat (pager_size p)) (drop (nat ((pager_page p - 1) * pager_size p)) items)\<rparr>)"
    using pagedSlice_in_range [of items p] ok unfolding cnt_def by simp
  have start: "0 \<le> (pager_page p - 1) * pager_size p" "items \<noteq> [] \<Longrightarrow> (pager_page p - 1) * pager_size p < cnt"
  proof -
    show "0 \<le> (pager_page p - 1) * pager_size p" using s by simp
    assume "items \<noteq> []"
    then have "0 < cnt" by (simp add: cnt_def)
    with page_count_bounds(3) [OF s(1), of cnt] have "(page_count cnt (pager_size p) - 1) * pager_size p < cnt" by simp
    moreover have "(pager_page p - 1) * pager_size p \<le> (page_count cnt (pager_size p) - 1) * pager_size p"
      using s by (intro mult_right_mono) simp_all
    ultimately show "(pager_page p - 1) * pager_size p < cnt" by linarith
  qed
  have split: "pager_page p * pager_size p = (pager_page p - 1) * pager_size p + pager_size p"
    by (simp add: left_diff_distrib)
  have len: "int (length (sl_rows (snd (pagedSlice items p)))) = min (pager_size p) (cnt - (pager_page p - 1) * pager_size p)"
    if "items \<noteq> []" using start(1) start(2) [OF that] s(1) unfolding sl cnt_def by (simp add: of_nat_diff nat_le_iff min_def) linarith
  have rows: "int (length (sl_rows (snd (pagedSlice items p)))) = (if items = [] then 0
      else pb_to (buildTablePager p cnt) - pb_from (buildTablePager p cnt) + 1)"
  proof (cases "items = []")
    case True
    with sl have "sl_rows (snd (pagedSlice items p)) = []" by simp
    with True show ?thesis by simp
  next
    case False
    with len [OF False] split show ?thesis by (simp add: buildTablePager_def cnt_def Let_def min_def)
  qed
  have ne: "items \<noteq> [] \<longrightarrow> sl_rows (snd (pagedSlice items p)) \<noteq> []"
    using start s(1) by (auto simp: sl cnt_def nat_less_iff)
  have nums: "pager_page p \<in> set (pb_numbers (buildTablePager p cnt))"
    "set (pb_numbers (buildTablePager p cnt)) \<subseteq> {1..page_count cnt (pager_size p)}"
    "length (pb_numbers (buildTablePager p cnt)) \<le> 5"
    using s by (auto simp: buildTablePager_def Let_def)
  show ?thesis
    using s rows ne nums sl unfolding p_def [symmetric] cnt_def [symmetric] Let_def by simp
qed

theorem pager_stays_in_range_witness:
  "1 \<le> pager_page (table_pager [1::nat, 2, 3] [Next, Goto 3, Prev])"
  using pager_stays_in_range [of "[1::nat, 2, 3]" "[Next, Goto 3, Prev]"] unfolding Let_def by blast

text \<open>C29: the score matrix shows the rules of its page in order and numbers its rows consecutively across
  pages; its group cells span exactly all rows, and two group cells in a row never name the same
  group, so a group cut by a page break is opened again on the next page.\<close>

theorem score_matrix_correct:
  "let sl = snd (pagedSlice (flattenScoreRows groups) p); rows = score_matrix groups p;
       cells = map the (filter (\<lambda>x. x \<noteq> None) (map mx_group rows)) in
   map mx_rule rows = map snd (sl_rows sl)
   \<and> map mx_no rows = map (\<lambda>i. sl_start sl + 2 + int i) [0..<length (sl_rows sl)]
   \<and> concat (map (\<lambda>(name, n). replicate n name) cells) = map fst (sl_rows sl)
   \<and> (\<forall>i. Suc i < length cells \<longrightarrow> fst (cells ! i) \<noteq> fst (cells ! Suc i))"
proof -
  define sl where "sl = snd (pagedSlice (flattenScoreRows groups) p)"
  define gs where "gs = regroupScoreRows (sl_rows sl)"
  have rows: "score_matrix groups p = matrix_rows (sl_start sl + 2) gs"
    by (simp add: score_matrix_def sl_def gs_def Let_def)
  have gs: "flattenScoreRows gs = sl_rows sl" "adjacent_differ gs"
    using regroup_spec [of "sl_rows sl"] by (simp_all add: gs_def)
  have "filter (\<lambda>g. gr_rules g \<noteq> []) gs = gs"
    using gs(2) by (simp add: adjacent_differ_def filter_id_conv)
  then have cells: "map the (filter (\<lambda>x. x \<noteq> None) (map mx_group (score_matrix groups p)))
      = map (\<lambda>g. (gr_name g, length (gr_rules g))) gs"
    using matrix_spans [of "sl_start sl + 2" gs] by (simp add: rows)
  have "concat (map (\<lambda>(name, n). replicate n name) (map (\<lambda>g. (gr_name g, length (gr_rules g))) gs))
      = map fst (flattenScoreRows gs)"
    by (induction gs) (simp_all add: flattenScoreRows_def comp_def map_replicate_const)
  with gs matrix_rows_spec [of "sl_start sl + 2" gs] show ?thesis
    unfolding sl_def [symmetric] Let_def cells by (simp add: rows adjacent_differ_def)
qed

theorem score_matrix_correct_witness:
  "map mx_rule (score_matrix [\<lparr>gr_name = js ''a'', gr_rules = [demo_rule ''1'' ''a'' ''low'']\<rparr>] new_pager)
    = map snd (sl_rows (snd (pagedSlice (flattenScoreRows
        [\<lparr>gr_name = js ''a'', gr_rules = [demo_rule ''1'' ''a'' ''low'']\<rparr>]) new_pager)))"
  using score_matrix_correct [of "[\<lparr>gr_name = js ''a'', gr_rules = [demo_rule ''1'' ''a'' ''low'']\<rparr>]" new_pager]
  unfolding Let_def by blast

text \<open>Grouping by topic keeps every rule once, under its own topic, in the order of the list; no topic
  has two groups or an empty one.\<close>

theorem topic_groups_partition:
  assumes "groupRulesByTopic topics rules = Inr gs" "distinct topics" "set topics \<inter> set proto_names = {}"
  shows "distinct (map gr_name gs) \<and> mset (concat (map gr_rules gs)) = mset rules
    \<and> (\<forall>g \<in> set gs. gr_rules g = filter (\<lambda>r. topic_of r = gr_name g) rules \<and> gr_rules g \<noteq> [])"
proof -
  obtain b where b: "fill_buckets [] rules = Inr b"
    and gs: "gs = map (\<lambda>name. \<lparr>gr_name = name, gr_rules = bucket b name\<rparr>)
      (filter (obj_has b) topics @ filter (\<lambda>name. name \<notin> set topics) (obj_keys b))"
    using assms(1) by (cases "fill_buckets [] rules") (auto simp: groupRulesByTopic_def)
  have spec: "distinct (map fst b)" "fst ` set b = topic_of ` set rules"
    "bucket b t = filter (\<lambda>r. topic_of r = t) rules" for t
    using fill_buckets_spec [OF b] by (simp_all add: bucket_eq)
  have has: "obj_has b t \<longleftrightarrow> t \<in> topic_of ` set rules" if "t \<in> set topics" for t
    using that assms(3) map_of_eq_None_iff [of b t] unfolding spec(2)
    by (auto simp: obj_has_def obj_get_def split: option.splits)
  define names where "names = filter (obj_has b) topics @ filter (\<lambda>name. name \<notin> set topics) (obj_keys b)"
  have d: "distinct names" using assms(2) distinct_obj_keys [OF spec(1)] by (auto simp: names_def)
  have s: "set names = topic_of ` set rules" using spec(2) has by (auto simp: names_def)
  have "mset (concat (map gr_rules gs)) = mset (concat (map (\<lambda>c. filter (\<lambda>r. topic_of r = c) rules) names))"
    by (simp add: gs names_def spec(3) comp_def)
  also have "\<dots> = mset rules" by (rule mset_columns [OF d]) (simp add: s)
  finally show ?thesis
    using d s by (auto simp: gs names_def [symmetric] spec(3) comp_def filter_empty_conv)
qed

theorem topic_groups_partition_witness:
  "\<exists>gs. groupRulesByTopic [js ''x'', js ''y''] [demo_rule ''1'' ''y'' ''low'', demo_rule ''2'' ''x'' ''low''] = Inr gs
    \<and> distinct (map gr_name gs)"
proof -
  obtain gs where gs: "groupRulesByTopic [js ''x'', js ''y''] [demo_rule ''1'' ''y'' ''low'', demo_rule ''2'' ''x'' ''low''] = Inr gs"
    by (simp add: groupRulesByTopic_def demo_rule_def topic_of_def texts obj_get_def proto_names_def)
  have "set [js ''x'', js ''y''] \<inter> set proto_names = {}" by (simp add: proto_names_def js_inj)
  with topic_groups_partition [OF gs] gs show ?thesis by (simp add: js_inj)
qed

text \<open>C27: editing a rule resets its risk level: the server's levels are not options of the form's select,
  which falls back to its first option, so saving any other field of a rule of low, high, critical
  or no level writes the level medium.\<close>

theorem editing_resets_level:
  assumes "ru_risk_level r = None \<or> ru_risk_level r \<in> Some ` js ` {''low'', ''medium'', ''high'', ''critical''}"
  shows "jget (rule_payload number (openRuleForm topics r)) (js ''risk_level'') = JStr (js ''medium'')"
proof -
  have "rf_level (openRuleForm topics r) = js ''WARN''"
    using assms by (auto simp: openRuleForm_def select_value_def js_inj Let_def js_eval)
  then show ?thesis
    by (simp add: rule_payload_def js_inj) (simp add: RULE_LEVEL_TO_V2_def obj_get_def js_inj js_eval)
qed

theorem editing_resets_level_witness:
  "jget (rule_payload JNum (openRuleForm [] (demo_rule ''1'' ''a'' ''critical''))) (js ''risk_level'') = JStr (js ''medium'')"
  by (rule editing_resets_level) (simp add: demo_rule_def)

text \<open>Apart from that, opening a rule and saving it sends the rule back: its title, and its texts and
  standards, trimmed, with absent ones as null, and its topic when the page lists it.\<close>

theorem edit_keeps_fields:
  assumes "ru_topic r = Some t" "t \<in> set topics" "t \<noteq> []"
  shows "let body = rule_payload number (openRuleForm topics r) in
    jget body (js ''category'') = JStr t
    \<and> jget body (js ''title'') = JStr (trim (str_or (ru_title r) []))
    \<and> jget body (js ''condition'') = or_null (str_or (ru_condition r) [])
    \<and> jget body (js ''high_standard'') = or_null (str_or (ru_high r) [])
    \<and> jget body (js ''mid_standard'') = or_null (str_or (ru_mid r) [])
    \<and> jget body (js ''low_standard'') = or_null (str_or (ru_low r) [])
    \<and> jget body (js ''weight'') = number (dec (case ru_weight r of None \<Rightarrow> 10 | Some w \<Rightarrow> if w = 0 then 10 else w))"
proof -
  have "topics \<noteq> []" using assms(2) by auto
  with assms show ?thesis
    by (simp add: rule_payload_def openRuleForm_def select_value_def js_inj Let_def)
qed

theorem edit_keeps_fields_witness:
  "jget (rule_payload JNum (openRuleForm [js ''b'', js ''a''] (demo_rule ''1'' ''a'' ''low''))) (js ''category'') = JStr (js ''a'')"
  using edit_keeps_fields [of "demo_rule ''1'' ''a'' ''low''" "js ''a''" "[js ''b'', js ''a'']" JNum]
  by (simp add: demo_rule_def js_inj texts Let_def)

text \<open>The button of a row does what it says: a draft is confirmed, a rule shown as on is disabled and
  one shown as off is enabled; the rule's id stays one segment of the path.\<close>

theorem row_button_correct:
  assumes "rule_segment r = Inr seg"
  shows "requests_in (rb_click (row_button engine c r)) = [api_post c (js ''/contract-review/rules/'' @ seg @
      (if isDraft r then js ''/confirm'' else if rb_on (row_button engine c r) then js ''/disable'' else js ''/enable'')) (JObj [])]
    \<and> (\<forall>u \<in> set seg. u \<notin> {32, 35, 47, 63})"
proof -
  have p: "rules_path @ [47] = js ''/contract-review/rules/''" by (simp add: rules_path_def js_eval)
  have "requests_in (rb_click (row_button engine c r)) = [api_post c ((rules_path @ [47]) @ seg @
      (if isDraft r then js ''/confirm'' else if rb_on (row_button engine c r) then js ''/disable'' else js ''/enable'')) (JObj [])]"
    using assms by (simp add: row_button_def confirmCandidate_def toggleRuleEnabled_def Let_def)
  moreover have "\<forall>u \<in> set seg. u \<notin> {32, 35, 47, 63}"
    using encode_safe assms uri_safe_not unfolding rule_segment_def by blast
  ultimately show ?thesis unfolding p by blast
qed

theorem row_button_correct_witness:
  "requests_in (rb_click (row_button (\<lambda>_. []) init_client (demo_rule ''r 1'' ''a'' ''low'')))
     = [api_post init_client (js ''/contract-review/rules/'' @ js ''r%201'' @ js ''/disable'') (JObj [])]"
proof -
  have "rule_segment (demo_rule ''r 1'' ''a'' ''low'') = Inr (js ''r%201'')"
    by (simp add: rule_segment_def demo_rule_def js_eval uri_unreserved_def escape_point_def utf8_def percent_def
        upper_hex_def lead_surrogate_def trail_surrogate_def)
  from row_button_correct [OF this, of "\<lambda>_. []" init_client] show ?thesis
    by (simp add: row_button_def isDraft_def isRuleEnabled_def demo_rule_def js_inj)
qed

end
