(* ===== verification/TasksPage.thy ===== *)
theory TasksPage
  imports ReviewFlow RulesPage Verdict
begin

text \<open>
  The task centre: the query and the pager of the task list, the polling of a task's detail dialog,
  opening a task's result, navigation and the health check. The polling is a state machine: dialogs
  are opened and closed, intervals fire, and answers arrive in any order.
\<close>

section \<open>The task list\<close>

record tasks_state =
  ts_page :: int
  ts_size :: int
  ts_status :: jstr
  ts_type :: jstr

definition init_tasks :: tasks_state where
  "init_tasks = \<lparr>ts_page = 1, ts_size = 15, ts_status = [], ts_type = []\<rparr>"

text \<open>\<open>URLSearchParams\<close>: form encoding of the pairs in order.\<close>

definition form_unit :: "nat \<Rightarrow> jstr" where
  "form_unit c =
    (if 48 \<le> c \<and> c \<le> 57 \<or> 65 \<le> c \<and> c \<le> 90 \<or> 97 \<le> c \<and> c \<le> 122 \<or> c \<in> {42, 45, 46, 95} then [c]
     else if c = 32 then [43] else escape_point c)"

definition search_params :: "(jstr \<times> jstr) list \<Rightarrow> jstr" where
  "search_params ps = join [38] (map (\<lambda>(k, v). concat (map form_unit k) @ [61] @ concat (map form_unit v)) ps)"

definition task_params :: "tasks_state \<Rightarrow> (jstr \<times> jstr) list" where
  "task_params st = [(js ''page'', dec_int (ts_page st)), (js ''size'', dec_int (ts_size st))]
     @ (if ts_status st \<noteq> [] then [(js ''status'', ts_status st)] else [])
     @ (if ts_type st \<noteq> [] then [(js ''task_type'', ts_type st)] else [])"

definition loadTasks :: "client \<Rightarrow> tasks_state \<Rightarrow> formval request" where
  "loadTasks c st = api_get c (js ''/tasks?'' @ search_params (task_params st))"

record task_pager =
  tp_pages :: int
  tp_prev_disabled :: bool
  tp_next_disabled :: bool

definition task_pager :: "tasks_state \<Rightarrow> int \<Rightarrow> task_pager" where
  "task_pager st cnt = (let pages = max 1 (ceil_div cnt (ts_size st)) in
     \<lparr>tp_pages = pages, tp_prev_disabled = (ts_page st \<le> 1), tp_next_disabled = (ts_page st \<ge> pages)\<rparr>)"

text \<open>The controls of the page; each but a disabled button reloads. The list may have \<open>cnt\<close> tasks
  when its pager was drawn.\<close>

datatype tasks_event = SetStatus jstr | SetType jstr | PrevPage | NextPage int

definition tasks_event :: "tasks_event \<Rightarrow> tasks_state \<Rightarrow> tasks_state" where
  "tasks_event ev st = (case ev of
     SetStatus s \<Rightarrow> st\<lparr>ts_status := s, ts_page := 1\<rparr>
   | SetType t \<Rightarrow> st\<lparr>ts_type := t, ts_page := 1\<rparr>
   | PrevPage \<Rightarrow> if ts_page st > 1 then st\<lparr>ts_page := ts_page st - 1\<rparr> else st
   | NextPage cnt \<Rightarrow> if ts_page st < tp_pages (task_pager st cnt) then st\<lparr>ts_page := ts_page st + 1\<rparr> else st)"

section \<open>Polling a task\<close>

definition done_statuses :: "jstr list" where
  "done_statuses = [js ''SUCCEEDED'', js ''FAILED'', js ''CANCELED'', js ''EXPIRED'']"

definition task_done :: "jstr \<Rightarrow> bool" where
  "task_done status \<longleftrightarrow> status \<in> set done_statuses"

text \<open>
  \<open>dt_timer\<close> is the variable \<open>detailTimer\<close>; \<open>dt_intervals\<close> the intervals that are set and not
  cleared, each with the dialog whose \<open>render\<close> it calls and the task it asks for; \<open>dt_asks\<close> the
  unanswered requests with their dialog, their task and whether an interval sent them;
  \<open>dt_modal\<close> the dialog on the page; \<open>dt_shown\<close> the status each dialog rendered last.
\<close>

record ask =
  ask_dialog :: nat
  ask_task :: jstr
  ask_tick :: bool

record detail =
  dt_timer :: "nat option"
  dt_intervals :: "(nat \<times> nat \<times> jstr) list"
  dt_asks :: "ask list"
  dt_modal :: "nat option"
  dt_shown :: "nat \<Rightarrow> jstr option"
  dt_next_dialog :: nat
  dt_next_timer :: nat

definition init_detail :: detail where
  "init_detail = \<lparr>dt_timer = None, dt_intervals = [], dt_asks = [], dt_modal = None,
     dt_shown = (\<lambda>_. None), dt_next_dialog = 0, dt_next_timer = 0\<rparr>"

text \<open>\<open>if (detailTimer) { clearInterval(detailTimer); detailTimer = null; }\<close>\<close>

definition clear_timer :: "detail \<Rightarrow> detail" where
  "clear_timer dt = (case dt_timer dt of None \<Rightarrow> dt | Some i \<Rightarrow>
     dt\<lparr>dt_timer := None, dt_intervals := filter (\<lambda>(j, _). j \<noteq> i) (dt_intervals dt)\<rparr>)"

definition openTaskDetail :: "jstr \<Rightarrow> detail \<Rightarrow> detail" where
  "openTaskDetail task dt = (let dt1 = clear_timer dt; d = dt_next_dialog dt1 in
     dt1\<lparr>dt_modal := Some d, dt_next_dialog := Suc d,
         dt_asks := dt_asks dt1 @ [\<lparr>ask_dialog = d, ask_task = task, ask_tick = False\<rparr>]\<rparr>)"

text \<open>\<open>render\<close> of dialog \<open>d\<close> with an answer that names a task and its status.\<close>

definition render_detail :: "nat \<Rightarrow> jstr \<Rightarrow> jstr \<Rightarrow> detail \<Rightarrow> detail" where
  "render_detail d task status dt =
    (let dt1 = dt\<lparr>dt_shown := (dt_shown dt)(d := Some status)\<rparr> in
     if task_done status then clear_timer dt1
     else if dt_timer dt1 \<noteq> None then dt1
     else dt1\<lparr>dt_timer := Some (dt_next_timer dt1), dt_next_timer := Suc (dt_next_timer dt1),
              dt_intervals := dt_intervals dt1 @ [(dt_next_timer dt1, d, task)]\<rparr>)"

definition take_ask :: "nat \<Rightarrow> detail \<Rightarrow> detail" where
  "take_ask i dt = dt\<lparr>dt_asks := take i (dt_asks dt) @ drop (Suc i) (dt_asks dt)\<rparr>"

definition reply_detail :: "nat \<Rightarrow> (jstr \<times> jstr) option \<Rightarrow> detail \<Rightarrow> detail" where
  "reply_detail i answer dt = (let a = dt_asks dt ! i; dt1 = take_ask i dt in
     case answer of
       Some (task, status) \<Rightarrow> render_detail (ask_dialog a) task status dt1
     | None \<Rightarrow> if ask_tick a then clear_timer dt1 else dt1)"

definition tick_detail :: "nat \<Rightarrow> detail \<Rightarrow> detail" where
  "tick_detail k dt = (let (i, d, task) = dt_intervals dt ! k in
     dt\<lparr>dt_asks := dt_asks dt @ [\<lparr>ask_dialog = d, ask_task = task, ask_tick = True\<rparr>]\<rparr>)"

definition closeModal :: "detail \<Rightarrow> detail" where
  "closeModal dt = dt\<lparr>dt_modal := None\<rparr>"

datatype detail_event = Open jstr | Reply nat "(jstr \<times> jstr) option" | Tick nat | Close

inductive detail_step :: "detail \<Rightarrow> detail_event \<Rightarrow> detail \<Rightarrow> bool" where
  open_dialog: "detail_step dt (Open task) (openTaskDetail task dt)"
| reply: "i < length (dt_asks dt) \<Longrightarrow> detail_step dt (Reply i answer) (reply_detail i answer dt)"
| tick: "k < length (dt_intervals dt) \<Longrightarrow> detail_step dt (Tick k) (tick_detail k dt)"
| close: "detail_step dt Close (closeModal dt)"

inductive_cases detail_stepE: "detail_step dt ev dt'"

inductive_simps detail_step_open: "detail_step dt (Open task) dt'"
inductive_simps detail_step_reply: "detail_step dt (Reply i answer) dt'"

inductive detail_reach :: "(detail \<Rightarrow> detail_event \<Rightarrow> bool) \<Rightarrow> detail \<Rightarrow> bool" for ok where
  start: "detail_reach ok init_detail"
| move: "detail_reach ok dt \<Longrightarrow> ok dt ev \<Longrightarrow> detail_step dt ev dt' \<Longrightarrow> detail_reach ok dt'"

section \<open>Results, navigation, health\<close>

definition openTaskResult ::
    "(json \<Rightarrow> jstr option) \<Rightarrow> outcome \<Rightarrow> review_state \<Rightarrow> review_state \<times> effect list" where
  "openTaskResult draw out st = (case out of
     Inl e \<Rightarrow> (st, [Toast ([0x83B7, 0x53D6, 0x7ED3, 0x679C, 0x5931, 0x8D25, 0x003A, 0x0020] @ failure_text e) Err])
   | Inr resp \<Rightarrow>
       if has_review resp then (case draw resp of
           Some m \<Rightarrow> (st\<lparr>result := resp\<rparr>, [ModalOpen [0x4EFB, 0x52A1, 0x7ED3, 0x679C, 0xFF08, 0x5408, 0x540C, 0x5BA1, 0x67E5, 0xFF09], Toast ([0x83B7, 0x53D6, 0x7ED3, 0x679C, 0x5931, 0x8D25, 0x003A, 0x0020] @ m) Err])
         | None \<Rightarrow> (st\<lparr>result := resp\<rparr>, [ModalOpen [0x4EFB, 0x52A1, 0x7ED3, 0x679C, 0xFF08, 0x5408, 0x540C, 0x5BA1, 0x67E5, 0xFF09],
             AppendView (js ''modal-body'') (VReview resp)]))
       else (st, [ModalOpen [0x4EFB, 0x52A1, 0x7ED3, 0x679C]]))"

definition PAGES :: "jstr list" where
  "PAGES = [js ''review'', js ''draft'', js ''rules'', js ''tasks'']"

text \<open>\<open>present\<close>: the page has a content box. The first component says whether a page was drawn.\<close>

definition navigate :: "jstr \<Rightarrow> bool \<Rightarrow> app \<Rightarrow> app \<times> effect list" where
  "navigate pg present a = (let a' = a\<lparr>currentPage := Some pg\<rparr> in
     if \<not> present then (a', [])
     else if pg \<in> set PAGES then (a', [Draw (js ''content'') VEmpty, Navigate pg])
     else (a', [Draw (js ''content'') VEmpty, Draw (js ''content'') (VError ([0x9875, 0x9762, 0x672A, 0x627E, 0x5230, 0xFF1A] @ pg))]))"

record health =
  h_status :: "jstr option"
  h_service :: "jstr option"
  h_version :: "jstr option"
  h_gateway :: "jstr option"
  h_auth_header :: "jstr option"

record health_view =
  hv_dot :: jstr
  hv_text :: jstr
  hv_version :: "jstr option"

definition refreshHealth :: "failure + health \<Rightarrow> client \<Rightarrow> client \<times> health_view" where
  "refreshHealth out c = (case out of
     Inl e \<Rightarrow> (c, \<lparr>hv_dot = js ''health-dot bad'', hv_text = [0x65E0, 0x6CD5, 0x8FDE, 0x63A5, 0x670D, 0x52A1, 0x003A, 0x0020] @ failure_text e, hv_version = None\<rparr>)
   | Inr h \<Rightarrow> (learn_auth_header (h_auth_header h) c,
       \<lparr>hv_dot = js ''health-dot '' @ (if h_status h = Some (js ''healthy'') then js ''ok'' else js ''bad''),
        hv_text = (if h_status h = Some (js ''healthy'') then [0x670D, 0x52A1, 0x6B63, 0x5E38] else [0x670D, 0x52A1, 0x964D, 0x7EA7]) @ [0x0020, 0x00B7, 0x0020]
          @ str_or (h_service h) [] @ js '' v'' @ str_or (h_version h) [] @ [0x0020, 0x00B7, 0x0020, 0x004F, 0x0043, 0x0052, 0x0020, 0x7F51, 0x5173, 0x003A, 0x0020]
          @ (if h_gateway h = Some (js ''connected'') then [0x5DF2, 0x8FDE, 0x63A5] else [0x672A, 0x8FDE, 0x63A5]),
        hv_version = Some (js ''v'' @ str_or (h_version h) (js ''-''))\<rparr>))"

section \<open>At most one poller\<close>

definition one_poller :: "detail \<Rightarrow> bool" where
  "one_poller dt \<longleftrightarrow> map fst (dt_intervals dt) = (case dt_timer dt of None \<Rightarrow> [] | Some i \<Rightarrow> [i])"

lemma one_poller_cases:
  "one_poller dt \<longleftrightarrow> dt_timer dt = None \<and> dt_intervals dt = []
    \<or> (\<exists>i d task. dt_timer dt = Some i \<and> dt_intervals dt = [(i, d, task)])"
  by (auto simp: one_poller_def map_eq_Cons_conv split: option.splits)

lemma clear_timer_sel:
  "one_poller dt \<Longrightarrow> dt_timer (clear_timer dt) = None \<and> dt_intervals (clear_timer dt) = []"
  by (auto simp: one_poller_cases clear_timer_def)

lemma clear_timer_other [simp]:
  "dt_asks (clear_timer dt) = dt_asks dt" "dt_modal (clear_timer dt) = dt_modal dt"
  "dt_shown (clear_timer dt) = dt_shown dt" "dt_next_dialog (clear_timer dt) = dt_next_dialog dt"
  by (simp_all add: clear_timer_def split: option.split)

lemma take_ask_sel [simp]:
  "dt_timer (take_ask i dt) = dt_timer dt" "dt_intervals (take_ask i dt) = dt_intervals dt"
  "dt_modal (take_ask i dt) = dt_modal dt" "dt_shown (take_ask i dt) = dt_shown dt"
  "dt_next_dialog (take_ask i dt) = dt_next_dialog dt" "dt_next_timer (take_ask i dt) = dt_next_timer dt"
  by (simp_all add: take_ask_def)

lemma one_poller_clear: "one_poller dt \<Longrightarrow> one_poller (clear_timer dt)"
  using clear_timer_sel by (simp add: one_poller_def)

lemma one_poller_cong:
  "dt_timer dt' = dt_timer dt \<Longrightarrow> dt_intervals dt' = dt_intervals dt \<Longrightarrow> one_poller dt' = one_poller dt"
  by (simp add: one_poller_def)

lemma one_poller_render: "one_poller dt \<Longrightarrow> one_poller (render_detail d task status dt)"
proof -
  assume p: "one_poller dt"
  then have "one_poller (dt\<lparr>dt_shown := f\<rparr>)" for f by (simp add: one_poller_def)
  with p show ?thesis
    by (auto simp: render_detail_def Let_def one_poller_clear) (auto simp: one_poller_cases)
qed

lemma one_poller_step: "detail_step dt ev dt' \<Longrightarrow> one_poller dt \<Longrightarrow> one_poller dt'"
proof (induction rule: detail_step.induct)
  case (open_dialog dt task)
  then have "one_poller (clear_timer dt)" by (rule one_poller_clear)
  then show ?case by (simp add: openTaskDetail_def Let_def one_poller_def)
next
  case (reply i dt answer)
  then have "one_poller (take_ask i dt)" by (simp add: one_poller_def)
  then show ?case
    by (auto simp: reply_detail_def Let_def one_poller_render one_poller_clear split: option.splits prod.splits)
next
  case (tick k dt)
  then show ?case by (simp add: tick_detail_def one_poller_def case_prod_beta)
next
  case (close dt)
  then show ?case by (simp add: closeModal_def one_poller_def)
qed

lemma one_poller_reach: "detail_reach ok dt \<Longrightarrow> one_poller dt"
proof (induction rule: detail_reach.induct)
  case start
  then show ?case by (simp add: one_poller_def init_detail_def)
qed (rule one_poller_step)

section \<open>Undisturbed polling\<close>

text \<open>
  A dialog is opened only when nothing is in flight, and no query of an interval fails. Then the
  dialog opened last is the one that polls: while it shows a running task the interval is set, for
  this dialog, and once it shows a finished one it is not.
\<close>

definition undisturbed :: "detail \<Rightarrow> detail_event \<Rightarrow> bool" where
  "undisturbed dt ev \<longleftrightarrow> (case ev of
     Open _ \<Rightarrow> dt_asks dt = []
   | Reply i None \<Rightarrow> \<not> ask_tick (dt_asks dt ! i)
   | _ \<Rightarrow> True)"

definition polls_last :: "detail \<Rightarrow> bool" where
  "polls_last dt \<longleftrightarrow> one_poller dt
     \<and> (\<forall>a \<in> set (dt_asks dt). Suc (ask_dialog a) = dt_next_dialog dt)
     \<and> (\<forall>x \<in> set (dt_intervals dt). Suc (fst (snd x)) = dt_next_dialog dt)
     \<and> (\<forall>d. dt_next_dialog dt \<le> d \<longrightarrow> dt_shown dt d = None)
     \<and> (\<forall>d status. Suc d = dt_next_dialog dt \<longrightarrow> dt_shown dt d = Some status \<longrightarrow>
          (dt_timer dt = None \<longleftrightarrow> task_done status))
     \<and> (\<forall>d. Suc d = dt_next_dialog dt \<longrightarrow> dt_shown dt d = None \<longrightarrow> dt_timer dt = None)"

lemma set_take_drop: "set (take i xs @ drop (Suc i) xs) \<subseteq> set xs"
  using set_take_subset [of i xs] set_drop_subset [of "Suc i" xs] by auto

lemma polls_last_step:
  "detail_step dt ev dt' \<Longrightarrow> undisturbed dt ev \<Longrightarrow> polls_last dt \<Longrightarrow> polls_last dt'"
proof (induction rule: detail_step.induct)
  case (open_dialog dt task)
  then have one: "one_poller dt" and asks: "dt_asks dt = []" and fresh: "dt_shown dt (dt_next_dialog dt) = None"
    "\<forall>d. dt_next_dialog dt \<le> d \<longrightarrow> dt_shown dt d = None"
    by (simp_all add: polls_last_def undisturbed_def)
  have "one_poller (openTaskDetail task dt)"
    using one_poller_clear [OF one] by (simp add: openTaskDetail_def Let_def one_poller_def)
  with clear_timer_sel [OF one] asks fresh show ?case
    by (auto simp: polls_last_def openTaskDetail_def Let_def)
next
  case (reply i dt answer)
  note pl = reply.prems(2)
  define a where "a = dt_asks dt ! i"
  have a: "Suc (ask_dialog a) = dt_next_dialog dt"
    using pl reply.hyps by (simp add: polls_last_def a_def)
  have asks: "\<forall>b \<in> set (dt_asks (take_ask i dt)). Suc (ask_dialog b) = dt_next_dialog dt"
    using pl set_take_drop [of i "dt_asks dt"] by (auto simp: polls_last_def take_ask_def)
  have one: "one_poller (take_ask i dt)" using pl by (simp add: polls_last_def one_poller_def)
  show ?case
  proof (cases answer)
    case None
    then have "\<not> ask_tick a" using reply.prems(1) by (simp add: undisturbed_def a_def)
    then show ?thesis using None pl asks one by (simp add: reply_detail_def a_def polls_last_def Let_def)
  next
    case (Some ts)
    obtain task status where ts: "ts = (task, status)" by (cases ts)
    define dt1 where "dt1 = take_ask i dt"
    have r: "reply_detail i answer dt = render_detail (ask_dialog a) task status dt1"
      by (simp add: reply_detail_def Some ts a_def dt1_def Let_def)
    have one': "one_poller (render_detail (ask_dialog a) task status dt1)"
      using one by (simp add: dt1_def one_poller_render)
    have sel: "dt_asks (render_detail (ask_dialog a) task status dt1) = dt_asks dt1"
      "dt_next_dialog (render_detail (ask_dialog a) task status dt1) = dt_next_dialog dt"
      "dt_shown (render_detail (ask_dialog a) task status dt1) = (dt_shown dt)(ask_dialog a := Some status)"
      "dt_timer (render_detail (ask_dialog a) task status dt1) = None \<longleftrightarrow> task_done status"
      by (auto simp: render_detail_def dt1_def clear_timer_def Let_def split: option.splits)
    have ints: "\<forall>x \<in> set (dt_intervals (render_detail (ask_dialog a) task status dt1)). Suc (fst (snd x)) = dt_next_dialog dt"
      using pl a by (auto simp: render_detail_def dt1_def clear_timer_def polls_last_def Let_def split: option.splits if_splits)
    show ?thesis
      unfolding r polls_last_def sel using one' asks ints pl a
      by (auto simp: dt1_def polls_last_def)
  qed
next
  case (tick k dt)
  then have "Suc (fst (snd (dt_intervals dt ! k))) = dt_next_dialog dt"
    by (simp add: polls_last_def)
  with tick show ?case
    by (auto simp: polls_last_def tick_detail_def case_prod_beta one_poller_def)
next
  case (close dt)
  then show ?case by (simp add: polls_last_def closeModal_def one_poller_def)
qed

lemma polls_last_reach: "detail_reach undisturbed dt \<Longrightarrow> polls_last dt"
proof (induction rule: detail_reach.induct)
  case start
  then show ?case by (simp add: polls_last_def one_poller_def init_detail_def)
next
  case (move dt ev dt')
  then show ?case using polls_last_step by blast
qed

text \<open>Runs of a list of events, for the witnesses.\<close>

definition free :: "detail \<Rightarrow> detail_event \<Rightarrow> bool" where
  "free dt ev = True"

fun run_detail :: "detail_event list \<Rightarrow> detail \<Rightarrow> detail option" where
  "run_detail [] dt = Some dt"
| "run_detail (Open task # evs) dt = run_detail evs (openTaskDetail task dt)"
| "run_detail (Reply i answer # evs) dt =
     (if i < length (dt_asks dt) then run_detail evs (reply_detail i answer dt) else None)"
| "run_detail (Tick k # evs) dt =
     (if k < length (dt_intervals dt) then run_detail evs (tick_detail k dt) else None)"
| "run_detail (Close # evs) dt = run_detail evs (closeModal dt)"

lemma run_detail_reach:
  "run_detail evs dt = Some dt' \<Longrightarrow> detail_reach free dt \<Longrightarrow> detail_reach free dt'"
proof (induction evs dt rule: run_detail.induct)
  case (2 task evs dt)
  then show ?case using detail_reach.move [OF _ _ open_dialog] by (simp add: free_def)
next
  case (3 i answer evs dt)
  then show ?case using detail_reach.move [OF _ _ reply] by (simp add: free_def split: if_splits)
next
  case (4 k evs dt)
  then show ?case using detail_reach.move [OF _ _ tick] by (simp add: free_def split: if_splits)
next
  case (5 evs dt)
  then show ?case using detail_reach.move [OF _ _ close] by (simp add: free_def)
qed simp

lemmas detail_defs = openTaskDetail_def reply_detail_def render_detail_def tick_detail_def closeModal_def
  clear_timer_def take_ask_def init_detail_def

section \<open>Properties\<close>

text \<open>C8: however dialogs are opened and closed and answers are ordered, at most one interval is ever
  set, and it is the one the variable remembers: no poller is orphaned.\<close>

theorem at_most_one_poller:
  assumes "detail_reach ok dt"
  shows "length (dt_intervals dt) \<le> 1 \<and> set (map fst (dt_intervals dt)) = set_option (dt_timer dt)"
  using one_poller_reach [OF assms] by (auto simp: one_poller_cases)

theorem at_most_one_poller_witness:
  "length (dt_intervals (openTaskDetail (js ''t'') init_detail)) \<le> 1"
  using at_most_one_poller [OF detail_reach.move [OF detail_reach.start _ open_dialog], of free "js ''t''"]
  by (simp add: free_def)

text \<open>C9: when a dialog is opened only while nothing is in flight and no interval's query fails, a dialog
  that shows a running task is being refreshed, by an interval of its own, and one that shows a
  finished task is not: polling goes on until the task ends and then stops.\<close>

theorem polling_follows_dialog:
  assumes "detail_reach undisturbed dt" "Suc d = dt_next_dialog dt" "dt_shown dt d = Some status"
  shows "if task_done status then dt_intervals dt = []
    else \<exists>i task. dt_intervals dt = [(i, d, task)] \<and> dt_timer dt = Some i"
proof -
  have p: "polls_last dt" by (rule polls_last_reach [OF assms(1)])
  then have t: "dt_timer dt = None \<longleftrightarrow> task_done status" using assms(2,3) by (simp add: polls_last_def)
  have o: "one_poller dt" and di: "\<forall>x \<in> set (dt_intervals dt). Suc (fst (snd x)) = dt_next_dialog dt"
    using p by (simp_all add: polls_last_def)
  show ?thesis
  proof (cases "task_done status")
    case True
    with t o show ?thesis by (auto simp: one_poller_cases)
  next
    case False
    with t o obtain i d' task where "dt_timer dt = Some i" "dt_intervals dt = [(i, d', task)]"
      by (auto simp: one_poller_cases)
    moreover from this di assms(2) have "d' = d" by simp
    ultimately show ?thesis using False by simp
  qed
qed

theorem polling_follows_dialog_witness:
  "\<exists>i task. dt_intervals (reply_detail 0 (Some (js ''t'', js ''RUNNING'')) (openTaskDetail (js ''t'') init_detail)) = [(i, 0, task)]"
proof -
  define dt where "dt = openTaskDetail (js ''t'') init_detail"
  have "detail_reach undisturbed dt"
    unfolding dt_def by (rule detail_reach.move [OF detail_reach.start _ open_dialog]) (simp add: undisturbed_def init_detail_def)
  then have r: "detail_reach undisturbed (reply_detail 0 (Some (js ''t'', js ''RUNNING'')) dt)"
    by (rule detail_reach.move [OF _ _ reply]) (simp_all add: undisturbed_def dt_def detail_defs)
  have nd: "\<not> task_done (js ''RUNNING'')" by (simp add: task_done_def done_statuses_def js_inj)
  from polling_follows_dialog [OF r, of 0 "js ''RUNNING''"] nd show ?thesis
    by (simp add: dt_def detail_defs)
qed

text \<open>C10: otherwise a dialog can be left without refresh: when the answer for an earlier dialog arrives
  after a second one was opened, its interval takes the variable, and the second dialog shows a
  running task that nothing asks for any more.\<close>

theorem late_answer_starves_dialog:
  assumes "\<not> task_done s1" "\<not> task_done s2"
  shows "\<exists>dt. detail_reach free dt \<and> dt_modal dt = Some 1 \<and> dt_shown dt 1 = Some s2
    \<and> dt_asks dt = [] \<and> map snd (dt_intervals dt) = [(0, a)]"
proof -
  have "\<exists>dt. run_detail [Open a, Open b, Reply 0 (Some (a, s1)), Reply 0 (Some (b, s2))] init_detail = Some dt
    \<and> dt_modal dt = Some 1 \<and> dt_shown dt 1 = Some s2 \<and> dt_asks dt = [] \<and> map snd (dt_intervals dt) = [(0, a)]"
    using assms by (simp add: detail_defs)
  then obtain dt where dt: "run_detail [Open a, Open b, Reply 0 (Some (a, s1)), Reply 0 (Some (b, s2))] init_detail = Some dt"
    "dt_modal dt = Some 1 \<and> dt_shown dt 1 = Some s2 \<and> dt_asks dt = [] \<and> map snd (dt_intervals dt) = [(0, a)]"
    by (elim exE conjE) simp
  with run_detail_reach [OF dt(1) detail_reach.start] show ?thesis by (intro exI [of _ dt]) simp
qed

theorem late_answer_starves_dialog_witness:
  "\<exists>dt. detail_reach free dt \<and> dt_modal dt = Some 1 \<and> dt_shown dt 1 = Some (js ''PENDING'')
    \<and> dt_asks dt = [] \<and> map snd (dt_intervals dt) = [(0, js ''a'')]"
  by (rule late_answer_starves_dialog [where ?s1.0 = "js ''RUNNING''"])
    (simp_all add: task_done_def done_statuses_def js_inj)

text \<open>Closing the dialog does not stop its polling: the interval stays set and goes on asking.\<close>

theorem closing_keeps_polling:
  assumes "\<not> task_done s"
  shows "\<exists>dt. detail_reach free dt \<and> dt_modal dt = None \<and> map snd (dt_intervals dt) = [(0, a)]
    \<and> (\<exists>dt'. detail_step dt (Tick 0) dt' \<and> dt_modal dt' = None \<and> map ask_task (dt_asks dt') = [a])"
proof -
  have "\<exists>dt. run_detail [Open a, Reply 0 (Some (a, s)), Close] init_detail = Some dt
    \<and> dt_modal dt = None \<and> map snd (dt_intervals dt) = [(0, a)] \<and> dt_asks dt = []"
    using assms by (simp add: detail_defs)
  then obtain dt where run: "run_detail [Open a, Reply 0 (Some (a, s)), Close] init_detail = Some dt"
    and dt: "dt_modal dt = None" "map snd (dt_intervals dt) = [(0, a)]" "dt_asks dt = []"
    by (elim exE conjE) simp
  note run_detail_reach [OF run detail_reach.start]
  moreover have "0 < length (dt_intervals dt)" using dt(2) by (cases "dt_intervals dt") auto
  ultimately show ?thesis using tick [of 0 dt] dt
    by (intro exI [of _ dt] conjI exI [of _ "tick_detail 0 dt"]) (auto simp: tick_detail_def)
qed

theorem closing_keeps_polling_witness:
  "\<exists>dt. detail_reach free dt \<and> dt_modal dt = None \<and> map snd (dt_intervals dt) = [(0, js ''t'')]"
proof -
  have "\<not> task_done (js ''RUNNING'')" by (simp add: task_done_def done_statuses_def js_inj)
  from closing_keeps_polling [OF this, of "js ''t''"] show ?thesis by (elim exE conjE) (intro exI conjI)
qed

text \<open>The task list never asks for a page before the first, and the next button never goes past the
  last page of the list it was drawn for; choosing a filter starts again at page one.\<close>

theorem task_pages:
  assumes "1 \<le> ts_page st" "0 < ts_size st"
  shows "1 \<le> ts_page (tasks_event ev st)
    \<and> (case ev of SetStatus s \<Rightarrow> ts_page (tasks_event ev st) = 1 | SetType t \<Rightarrow> ts_page (tasks_event ev st) = 1
       | PrevPage \<Rightarrow> ts_page (tasks_event ev st) \<le> ts_page st
       | NextPage cnt \<Rightarrow> ts_page (tasks_event ev st) = ts_page st
           \<or> (ts_page (tasks_event ev st) - 1) * ts_size st < cnt)"
proof (cases ev)
  case (NextPage cnt)
  show ?thesis
  proof (cases "ts_page st < tp_pages (task_pager st cnt)")
    case True
    then have "ts_page st < ceil_div cnt (ts_size st)" using assms(1) by (simp add: task_pager_def Let_def)
    then have "ts_page st * ts_size st \<le> (ceil_div cnt (ts_size st) - 1) * ts_size st"
      using assms(2) by (intro mult_right_mono) simp_all
    with ceil_div_bounds(2) [OF assms(2), of cnt] True NextPage assms(1) show ?thesis
      by (simp add: tasks_event_def)
  qed (use NextPage assms in \<open>simp add: tasks_event_def\<close>)
qed (use assms in \<open>simp_all add: tasks_event_def\<close>)

theorem task_pages_witness:
  "ts_page (tasks_event (NextPage 31) (init_tasks\<lparr>ts_page := 3\<rparr>)) = 3"
  using task_pages [of "init_tasks\<lparr>ts_page := 3\<rparr>" "NextPage 31"] by (simp add: init_tasks_def tasks_event_def task_pager_def ceil_div_def)

text \<open>Looking at a finished task's result replaces the review page's result with the task's, while
  the files chosen there stay: the page then pairs the files with another contract's review.\<close>

theorem task_result_replaces_review:
  assumes "has_review resp"
  shows "result (fst (openTaskResult draw (Inr resp) st)) = resp
    \<and> files (fst (openTaskResult draw (Inr resp) st)) = files st"
  using assms by (simp add: openTaskResult_def split: option.split)

theorem task_result_replaces_review_witness:
  "result (fst (openTaskResult (\<lambda>_. None) (Inr (JObj [(js ''review_result'', JBool True)])) (init_review demo_env)))
     = JObj [(js ''review_result'', JBool True)]"
  using task_result_replaces_review [of "JObj [(js ''review_result'', JBool True)]"] by (simp add: has_review_def)

text \<open>After a healthy or unhealthy answer requests carry the token under the header name that the
  server announced, or the default one; a failed health check changes nothing but the display.\<close>

theorem health_sets_header:
  "authHeaderName (fst (refreshHealth out c)) = (case out of
     Inl _ \<Rightarrow> authHeaderName c | Inr h \<Rightarrow> str_or (h_auth_header h) DEFAULT_AUTH_HEADER_NAME)
   \<and> localStore (fst (refreshHealth out c)) = localStore c \<and> sessionStore (fst (refreshHealth out c)) = sessionStore c
   \<and> (hv_dot (snd (refreshHealth out c)) = js ''health-dot ok''
        \<longleftrightarrow> (\<exists>h. out = Inr h \<and> h_status h = Some (js ''healthy'')))"
  by (cases out) (auto simp: refreshHealth_def learn_auth_header_def js_eval)

end
