(* ===== verification/Markup.thy ===== *)
theory Markup
  imports Dom Verdict
begin

text \<open>
  What the view builders share: abbreviations for the attributes they pass to \<open>el\<close>, class lists,
  listeners added later, two small builders (\<open>pageHead\<close>, \<open>stat\<close>), rows of tab buttons, and how the
  trees are read: \<open>safe_node A\<close>, all raw markup in the tree belongs to \<open>A\<close>; \<open>table_ok n\<close>, the rows of
  a table fill exactly \<open>n\<close> columns, row spans included; \<open>shown_controls\<close>, the values its controls show;
  and \<open>by_id\<close>, \<open>elements_with\<close>, the lookups by id and by attribute.
\<close>

section \<open>Attributes and later changes\<close>

abbreviation kl :: "string \<Rightarrow> jstr \<times> 'h attr" where
  "kl c \<equiv> (js ''class'', AStr (js c))"

abbreviation tx :: "jstr \<Rightarrow> jstr \<times> 'h attr" where
  "tx t \<equiv> (js ''text'', AStr t)"

abbreviation att :: "string \<Rightarrow> jstr \<Rightarrow> jstr \<times> 'h attr" where
  "att k v \<equiv> (js k, AStr v)"

abbreviation on_click :: "'h \<Rightarrow> jstr \<times> 'h attr" where
  "on_click h \<equiv> (js ''onclick'', AFun h)"

text \<open>A field that may be absent, and an attribute such as \<open>selected\<close> that is set to the empty
  string or left out.\<close>

fun nullable :: "jstr option \<Rightarrow> 'h attr" where
  "nullable None = AUndef"
| "nullable (Some t) = AStr t"

definition flag :: "string \<Rightarrow> bool \<Rightarrow> jstr \<times> 'h attr" where
  "flag k b = (js k, if b then AStr [] else ANull)"

text \<open>An entry of a list of children that is a node or null.\<close>

definition child_if :: "bool \<Rightarrow> 'h node \<Rightarrow> 'h child" where
  "child_if b n = (if b then CNode n else CNull)"

abbreviation nodes :: "('a \<Rightarrow> 'h node) \<Rightarrow> 'a list \<Rightarrow> 'h child" where
  "nodes f xs \<equiv> CList (map (\<lambda>x. CNode (f x)) xs)"

text \<open>\<open>addEventListener\<close> on a node built before.\<close>

fun listen :: "string \<Rightarrow> 'h \<Rightarrow> 'h node \<Rightarrow> 'h node" where
  "listen ev h (Element tg cl at ls ks) = Element tg cl at (ls @ [(js ev, h)]) ks"
| "listen ev h n = n"

text \<open>Class lists: the class attribute split at spaces, without repetition.\<close>

fun words_from :: "jstr \<Rightarrow> jstr \<Rightarrow> jstr list" where
  "words_from w [] = (if w = [] then [] else [w])"
| "words_from w (c # s) = (if c = 32 then (if w = [] then words_from [] s else w # words_from [] s)
     else words_from (w @ [c]) s)"

definition class_tokens :: "'h node \<Rightarrow> jstr list" where
  "class_tokens n = (case n of
     Element _ (Some c) _ _ _ \<Rightarrow> rev (remdups (rev (words_from [] c))) | _ \<Rightarrow> [])"

fun join_words :: "jstr list \<Rightarrow> jstr" where
  "join_words [] = []"
| "join_words [w] = w"
| "join_words (w # ws) = w @ 32 # join_words ws"

fun set_class :: "jstr \<Rightarrow> 'h node \<Rightarrow> 'h node" where
  "set_class c (Element tg cl at ls ks) = Element tg (Some c) at ls ks"
| "set_class c n = n"

definition add_class :: "jstr \<Rightarrow> 'h node \<Rightarrow> 'h node" where
  "add_class c n = (let cs = class_tokens n in set_class (join_words (if c \<in> set cs then cs else cs @ [c])) n)"

definition remove_class :: "jstr \<Rightarrow> 'h node \<Rightarrow> 'h node" where
  "remove_class c n = (let cs = class_tokens n in set_class (join_words (filter (\<lambda>d. d \<noteq> c) cs)) n)"

definition toggle_class :: "jstr \<Rightarrow> bool \<Rightarrow> 'h node \<Rightarrow> 'h node" where
  "toggle_class c b n = (if b then add_class c n else remove_class c n)"

text \<open>A row of tab buttons: \<open>tabs.querySelectorAll(".tab")\<close> and, on each button, the class \<open>active\<close> switched by
  whether its attribute \<open>a\<close> is the current name. The buttons are the same nodes all along.\<close>

definition toggle_tabs :: "string \<Rightarrow> jstr \<Rightarrow> 'h node list \<Rightarrow> 'h node list" where
  "toggle_tabs a current tabs = map (\<lambda>t. if js ''tab'' \<in> set (class_tokens t)
     then toggle_class (js ''active'') (map_of (attrs_of t) (js a) = Some current) t else t) tabs"

text \<open>\<open>host.innerHTML = ""\<close> and then the new content.\<close>

fun refill :: "'h node \<Rightarrow> 'h node list \<Rightarrow> 'h node" where
  "refill (Element tg cl at ls ks) ns = Element tg cl at ls ns"
| "refill n ns = n"

section \<open>Shared builders\<close>

definition pageHead :: "jstr \<Rightarrow> jstr \<Rightarrow> jstr \<Rightarrow> 'h node" where
  "pageHead kicker title desc = el (js ''div'') [kl ''page-head'']
     [CNode (el (js ''div'') [kl ''kicker'', tx kicker] []),
      CNode (el (js ''h1'') [tx title] []),
      CNode (el (js ''p'') [tx desc] [])]"

definition stat :: "jstr \<Rightarrow> jstr \<Rightarrow> jstr \<Rightarrow> 'h node option \<Rightarrow> 'h node" where
  "stat lbl val color sub = el (js ''div'') [(js ''class'', AStr (js ''stat tone-'' @ color))]
     [CNode (el (js ''div'') [kl ''stat-label'', tx lbl] []),
      CNode (el (js ''div'') [kl ''stat-value'', att ''style'' (js ''color: var(--'' @ color @ js '')''), tx val] []),
      (case sub of None \<Rightarrow> CNull | Some n \<Rightarrow> CNode (el (js ''div'') [kl ''stat-sub''] [CNode n]))]"

definition muted :: "jstr \<Rightarrow> 'h node" where
  "muted t = el (js ''p'') [kl ''muted'', tx t] []"

section \<open>Raw markup\<close>

fun no_html :: "(jstr \<times> 'h attr) list \<Rightarrow> bool" where
  "no_html [] = True"
| "no_html ((k, v) # as) \<longleftrightarrow> k \<noteq> js ''html'' \<and> no_html as"

definition safe_node :: "jstr set \<Rightarrow> 'h node \<Rightarrow> bool" where
  "safe_node A n \<longleftrightarrow> set (raw_of n) \<subseteq> A"

fun safe_child :: "jstr set \<Rightarrow> 'h child \<Rightarrow> bool" where
  "safe_child A (CNode n) = safe_node A n"
| "safe_child A (CList cs) = list_all (safe_child A) cs"
| "safe_child A (CStr s) = True"
| "safe_child A CNull = True"
| "safe_child A CFalse = True"

lemma no_html_iff: "no_html as \<longleftrightarrow> list_all (\<lambda>a. fst a \<noteq> js ''html'') as"
  by (induction as) auto

lemma safe_flat: "safe_child A c \<longleftrightarrow> (\<forall>n \<in> set (flat_children c). safe_node A n)"
  by (induction c) (auto simp: safe_node_def list_all_iff)

lemma safe_el [simp]: "no_html as \<Longrightarrow> safe_node A (el tg as cs) \<longleftrightarrow> list_all (safe_child A) cs"
  by (simp add: safe_node_def no_html_iff raw_of_el list_all_iff safe_flat UN_subset_iff)

lemma safe_child_if [simp]: "safe_child A (child_if b n) \<longleftrightarrow> (b \<longrightarrow> safe_node A n)"
  by (simp add: child_if_def)

lemma safe_nodes [simp]: "list_all (safe_child A) (map (\<lambda>x. CNode (f x)) xs) \<longleftrightarrow> (\<forall>x \<in> set xs. safe_node A (f x))"
  by (simp add: list_all_iff)

lemma safe_if [simp]: "safe_node A (if b then m else n) \<longleftrightarrow> (if b then safe_node A m else safe_node A n)"
  by simp

lemma no_html_flag [simp]: "no_html (flag k b # as) \<longleftrightarrow> js k \<noteq> js ''html'' \<and> no_html as"
  by (simp add: flag_def)

lemma raw_listen [simp]: "raw_of (listen ev h n) = raw_of n"
  by (cases n) simp_all

lemma raw_set_class [simp]: "raw_of (set_class c n) = raw_of n"
  by (cases n) simp_all

lemma raw_classes [simp]: "raw_of (add_class c n) = raw_of n" "raw_of (remove_class c n) = raw_of n"
    "raw_of (toggle_class c b n) = raw_of n"
  by (simp_all add: add_class_def remove_class_def toggle_class_def Let_def)

lemma safe_changed [simp]: "safe_node A (listen ev h n) = safe_node A n" "safe_node A (add_class c n) = safe_node A n"
    "safe_node A (remove_class c n) = safe_node A n" "safe_node A (toggle_class c b n) = safe_node A n"
  by (simp_all add: safe_node_def)

lemma safe_badge [simp]: "safe_node A (badge k t)"
  by (simp add: badge_def js_inj split: lookup.split)

lemma safe_stat [simp]: "safe_node A (stat l v c sub) \<longleftrightarrow> (case sub of None \<Rightarrow> True | Some n \<Rightarrow> safe_node A n)"
  by (simp add: stat_def js_inj split: option.split)

lemma safe_pageHead [simp]: "safe_node A (pageHead k t d)"
  by (simp add: pageHead_def js_inj)

lemma safe_muted [simp]: "safe_node A (muted t)"
  by (simp add: muted_def js_inj)

section \<open>Children\<close>

fun no_content :: "(jstr \<times> 'h attr) list \<Rightarrow> bool" where
  "no_content [] = True"
| "no_content ((k, v) # as) \<longleftrightarrow> k \<noteq> js ''html'' \<and> k \<noteq> js ''text'' \<and> no_content as"

lemma set_attr_kids: "k \<noteq> js ''html'' \<Longrightarrow> k \<noteq> js ''text'' \<Longrightarrow>
  \<exists>cl' at' ls'. set_attr (Element tg cl at ls ks) k v = Element tg cl' at' ls' ks"
  by (cases v) auto

lemma fold_attr_kids: "no_content as \<Longrightarrow>
  \<exists>cl' at' ls'. fold (\<lambda>(k, v) n. set_attr n k v) as (Element tg cl at ls ks) = Element tg cl' at' ls' ks"
proof (induction as arbitrary: cl at ls)
  case Nil
  then show ?case by simp
next
  case (Cons a as)
  obtain k v where a: "a = (k, v)" by (cases a)
  obtain cl1 at1 ls1 where "set_attr (Element tg cl at ls ks) k v = Element tg cl1 at1 ls1 ks"
    using set_attr_kids [of k tg cl at ls ks v] Cons.prems a by auto
  then show ?case using Cons.IH [of cl1 at1 ls1] Cons.prems a by simp
qed

lemma kids_el: "no_content as \<Longrightarrow> kids_of (el tg as cs) = concat (map flat_children cs)"
  using fold_attr_kids [of as tg None "[]" "[]" "[]"] by (auto simp: el_def)

text \<open>With \<open>text\<close> among the attributes the children follow one text node at most.\<close>

lemma set_text_nodes: "n \<in> set (set_text v) \<Longrightarrow> \<exists>t. n = TextNode t"
  by (auto simp: set_text_def Let_def split: if_splits)

section \<open>Tables\<close>

definition is_cell :: "'h node \<Rightarrow> bool" where
  "is_cell n \<longleftrightarrow> (case n of Element tg _ _ _ _ \<Rightarrow> tg \<in> {js ''td'', js ''th''} | _ \<Rightarrow> False)"

fun kids :: "'h node \<Rightarrow> 'h node list" where
  "kids (Element tg cl at ls ks) = ks"
| "kids n = []"

definition row_span :: "'h node \<Rightarrow> nat" where
  "row_span n = (case n of Element _ _ at _ _ \<Rightarrow>
     (case map_of at (js ''rowspan'') of None \<Rightarrow> 1 | Some s \<Rightarrow> undec s) | _ \<Rightarrow> 1)"

definition spans :: "'h node \<Rightarrow> nat list" where
  "spans r = map row_span (filter is_cell (kids r))"

text \<open>The spans that reach the next row; the widths of the rows of a row group, and what reaches
  beyond its last row.\<close>

definition carried :: "nat list \<Rightarrow> nat list" where
  "carried ns = map (\<lambda>n. n - 1) (filter (\<lambda>n. 1 < n) ns)"

fun row_widths :: "nat list \<Rightarrow> nat list list \<Rightarrow> nat list" where
  "row_widths pend [] = []"
| "row_widths pend (r # rs) = (length pend + length r) # row_widths (carried (pend @ r)) rs"

fun left_over :: "nat list \<Rightarrow> nat list list \<Rightarrow> nat list" where
  "left_over pend [] = pend"
| "left_over pend (r # rs) = left_over (carried (pend @ r)) rs"

definition group_ok :: "nat \<Rightarrow> nat list list \<Rightarrow> bool" where
  "group_ok n rows \<longleftrightarrow> list_all (\<lambda>w. w = n) (row_widths [] rows) \<and> left_over [] rows = []"

definition table_ok :: "nat \<Rightarrow> 'h node \<Rightarrow> bool" where
  "table_ok n t \<longleftrightarrow> list_all (\<lambda>sec. group_ok n (map spans (kids sec))) (kids t)"

lemma el_Element: "\<exists>cl ls ks. el tg as cs = Element tg cl (attrs_of (el tg as cs)) ls ks"
  using fold_set_attr [of as tg None "[]" "[]" "[]"] by (auto simp: el_def)

lemma kids_kids_of: "kids (el tg as cs) = kids_of (el tg as cs)"
proof -
  obtain cl at ls ks where "el tg as cs = Element tg cl at ls ks" using el_Element [of tg as cs] by blast
  then show ?thesis by simp
qed

lemma kids_el' [simp]: "no_content as \<Longrightarrow> kids (el tg as cs) = concat (map flat_children cs)"
  by (simp add: kids_kids_of kids_el)

lemma is_cell_el [simp]: "is_cell (el tg as cs) \<longleftrightarrow> tg = js ''td'' \<or> tg = js ''th''"
proof -
  obtain cl at ls ks where "el tg as cs = Element tg cl at ls ks" using el_Element [of tg as cs] by blast
  then show ?thesis by (simp add: is_cell_def)
qed

lemma row_span_el: "row_span (el tg as cs) =
    (case map_of (attrs_of (el tg as cs)) (js ''rowspan'') of None \<Rightarrow> 1 | Some s \<Rightarrow> undec s)"
proof -
  obtain cl ls ks where e: "el tg as cs = Element tg cl (attrs_of (el tg as cs)) ls ks"
    using el_Element [of tg as cs] by blast
  show ?thesis by (subst e) (simp add: row_span_def)
qed

fun no_span :: "(jstr \<times> 'h attr) list \<Rightarrow> bool" where
  "no_span [] = True"
| "no_span ((k, v) # as) \<longleftrightarrow> k \<noteq> js ''rowspan'' \<and> no_span as"

lemma no_span_iff: "no_span as \<longleftrightarrow> list_all (\<lambda>a. fst a \<noteq> js ''rowspan'') as"
  by (induction as) auto

lemma row_span_one [simp]: "no_span as \<Longrightarrow> row_span (el tg as cs) = 1"
  by (simp add: row_span_el attrs_no_key no_span_iff)

text \<open>Rows of simple cells.\<close>

lemma carried_ones [simp]: "list_all (\<lambda>n. n = 1) r \<Longrightarrow> carried r = []"
  by (induction r) (simp_all add: carried_def)

lemma group_ok_plain:
  assumes "list_all (\<lambda>r. list_all (\<lambda>n. n = 1) r \<and> length r = n) rows"
  shows "group_ok n rows"
proof -
  have "list_all (\<lambda>w. w = n) (row_widths [] rows) \<and> left_over [] rows = []"
    using assms by (induction rows) simp_all
  then show ?thesis by (simp add: group_ok_def)
qed

section \<open>Class lists\<close>

definition has_class :: "jstr \<Rightarrow> 'h node \<Rightarrow> bool" where
  "has_class c n \<longleftrightarrow> c \<in> set (class_tokens n)"

definition clean_word :: "jstr \<Rightarrow> bool" where
  "clean_word w \<longleftrightarrow> w \<noteq> [] \<and> 32 \<notin> set w"

lemma words_from_append: "32 \<notin> set w \<Longrightarrow> words_from acc (w @ s) = words_from (acc @ w) s"
  by (induction w arbitrary: acc) auto

lemma words_join: "list_all clean_word ws \<Longrightarrow> words_from [] (join_words ws) = ws"
proof (induction ws rule: join_words.induct)
  case (2 w)
  then show ?case using words_from_append [of w "[]" "[]"] by (simp add: clean_word_def)
next
  case (3 w v ws)
  then show ?case by (simp add: clean_word_def words_from_append)
qed simp

lemma words_from_clean: "32 \<notin> set acc \<Longrightarrow> list_all clean_word (words_from acc s)"
  by (induction acc s rule: words_from.induct) (auto simp: clean_word_def)

lemma class_tokens_clean: "list_all clean_word (class_tokens n)"
proof (cases n)
  case (Element tg cl at ls ks)
  then show ?thesis
    using words_from_clean [of "[]"] by (auto simp: class_tokens_def list_all_iff split: option.split)
qed (simp_all add: class_tokens_def)

lemma tokens_set_class:
  assumes "list_all clean_word ws"
  shows "set (class_tokens (Element tg (Some (join_words ws)) at ls ks)) = set ws"
  using assms by (simp add: class_tokens_def words_join)

lemma has_toggle_Element:
  assumes "clean_word c"
  shows "has_class c (toggle_class c b (Element tg cl at ls ks)) \<longleftrightarrow> b"
    and "d \<noteq> c \<Longrightarrow> has_class d (toggle_class c b (Element tg cl at ls ks)) \<longleftrightarrow> has_class d (Element tg cl at ls ks)"
proof -
  have clean: "list_all clean_word (class_tokens (Element tg cl at ls ks))" by (rule class_tokens_clean)
  have add: "set (class_tokens (add_class c (Element tg cl at ls ks))) = insert c (set (class_tokens (Element tg cl at ls ks)))"
    using assms clean by (auto simp: add_class_def Let_def tokens_set_class)
  have remove: "set (class_tokens (remove_class c (Element tg cl at ls ks))) = set (class_tokens (Element tg cl at ls ks)) - {c}"
  proof -
    have "list_all clean_word (filter (\<lambda>d. d \<noteq> c) (class_tokens (Element tg cl at ls ks)))"
      using clean by (auto simp: list_all_iff)
    then show ?thesis by (auto simp: remove_class_def Let_def tokens_set_class)
  qed
  show "has_class c (toggle_class c b (Element tg cl at ls ks)) \<longleftrightarrow> b"
    by (simp add: has_class_def toggle_class_def add remove)
  show "d \<noteq> c \<Longrightarrow> has_class d (toggle_class c b (Element tg cl at ls ks)) \<longleftrightarrow> has_class d (Element tg cl at ls ks)"
    by (simp add: has_class_def toggle_class_def add remove)
qed

lemma has_toggle_class:
  assumes "clean_word c"
  shows "has_class c (toggle_class c b (el tg as cs)) \<longleftrightarrow> b"
    and "d \<noteq> c \<Longrightarrow> has_class d (toggle_class c b (el tg as cs)) \<longleftrightarrow> has_class d (el tg as cs)"
proof -
  obtain cl at ls ks where e: "el tg as cs = Element tg cl at ls ks" using el_Element [of tg as cs] by blast
  show "has_class c (toggle_class c b (el tg as cs)) \<longleftrightarrow> b"
    unfolding e by (rule has_toggle_Element [OF assms])
  show "d \<noteq> c \<Longrightarrow> has_class d (toggle_class c b (el tg as cs)) \<longleftrightarrow> has_class d (el tg as cs)"
    unfolding e by (rule has_toggle_Element [OF assms])
qed

lemma kept_parts [simp]:
  "class_tokens (listen ev h n) = class_tokens n"
  "attrs_of (toggle_class c b (el tg as cs)) = attrs_of (el tg as cs)"
  "attrs_of (listen ev h (toggle_class c b (el tg as cs))) = attrs_of (el tg as cs)"
proof -
  obtain cl at ls ks where e: "el tg as cs = Element tg cl at ls ks" using el_Element [of tg as cs] by blast
  show "class_tokens (listen ev h n) = class_tokens n" by (cases n) (simp_all add: class_tokens_def)
  show "attrs_of (toggle_class c b (el tg as cs)) = attrs_of (el tg as cs)"
    "attrs_of (listen ev h (toggle_class c b (el tg as cs))) = attrs_of (el tg as cs)"
    by (simp_all add: e toggle_class_def add_class_def remove_class_def Let_def)
qed

lemma has_class_listen [simp]: "has_class c (listen ev h n) = has_class c n"
  by (simp add: has_class_def)

lemma attrs_toggle [simp]: "attrs_of (toggle_class c b n) = attrs_of n"
  by (cases n) (simp_all add: toggle_class_def add_class_def remove_class_def Let_def)

text \<open>Whatever was active before: after switching, exactly the button with the current name is.\<close>

definition is_element :: "'h node \<Rightarrow> bool" where
  "is_element n \<longleftrightarrow> (\<exists>tg cl at ls ks. n = Element tg cl at ls ks)"

lemma is_element_kept [simp]: "is_element (el tg as cs)" "is_element (listen ev h n) = is_element n"
    "is_element (toggle_class c b n) = is_element n" "is_element (refill n ns) = is_element n"
proof -
  show "is_element (el tg as cs)" unfolding is_element_def using el_Element [of tg as cs] by blast
  show "is_element (listen ev h n) = is_element n" "is_element (toggle_class c b n) = is_element n"
    "is_element (refill n ns) = is_element n"
    by (cases n; simp add: is_element_def toggle_class_def add_class_def remove_class_def Let_def)+
qed

lemma kids_refill [simp]: "is_element n \<Longrightarrow> kids (refill n ns) = ns"
  by (auto simp: is_element_def)

definition tab_named :: "string \<Rightarrow> jstr \<Rightarrow> 'h node \<Rightarrow> bool" where
  "tab_named a n t \<longleftrightarrow> is_element t \<and> map_of (attrs_of t) (js a) = Some n \<and> has_class (js ''tab'') t"

definition tab_row :: "string \<Rightarrow> jstr list \<Rightarrow> 'h node list \<Rightarrow> bool" where
  "tab_row a names tabs \<longleftrightarrow> list_all2 (tab_named a) names tabs"

lemma toggle_tab:
  assumes "tab_named a n t"
  shows "tab_named a n (toggle_class (js ''active'') b t)" "has_class (js ''active'') (toggle_class (js ''active'') b t) \<longleftrightarrow> b"
proof -
  obtain tg cl at ls ks where t: "t = Element tg cl at ls ks" using assms by (auto simp: tab_named_def is_element_def)
  have act: "clean_word (js ''active'')" "js ''tab'' \<noteq> js ''active''" by (simp_all add: clean_word_def js_eval)
  show "has_class (js ''active'') (toggle_class (js ''active'') b t) \<longleftrightarrow> b"
    unfolding t by (rule has_toggle_Element [OF act(1)])
  have "has_class (js ''tab'') (toggle_class (js ''active'') b t)"
    unfolding t has_toggle_Element(2) [OF act(1,2)] using assms by (simp add: t tab_named_def)
  then show "tab_named a n (toggle_class (js ''active'') b t)"
    using assms by (simp add: tab_named_def)
qed

lemma toggle_tabs_row: "tab_row a names tabs \<Longrightarrow> tab_row a names (toggle_tabs a cur tabs)"
  unfolding tab_row_def toggle_tabs_def
  by (induction rule: list_all2_induct) (auto simp: toggle_tab has_class_def)

lemma toggle_tabs_active:
  "tab_row a names tabs \<Longrightarrow>
   map (\<lambda>t. (map_of (attrs_of t) (js a), has_class (js ''active'') t)) (toggle_tabs a cur tabs) = map (\<lambda>n. (Some n, n = cur)) names"
  unfolding tab_row_def toggle_tabs_def
proof (induction rule: list_all2_induct)
  case (Cons n ns t ts)
  then have "js ''tab'' \<in> set (class_tokens t)" "map_of (attrs_of t) (js a) = Some n"
    by (simp_all add: tab_named_def has_class_def)
  with Cons toggle_tab(2) [OF Cons(1)] show ?case by simp
qed simp

text \<open>The text of a node whose last attribute is its text.\<close>

lemma text_of_el_text: "no_content as \<Longrightarrow> text_of (el tg (as @ [tx t]) []) = t"
  using fold_attr_kids [of as tg None "[]" "[]" "[]"] by (auto simp: el_def set_text_def Let_def js_inj)

lemma text_kept [simp]: "text_of (listen ev h n) = text_of n" "text_of (toggle_class c b n) = text_of n"
  "text_of (add_class c n) = text_of n"
  by (cases n, simp_all add: toggle_class_def add_class_def remove_class_def Let_def)+

lemma toggle_tabs_text: "map text_of (toggle_tabs a cur tabs) = map text_of tabs"
  by (simp add: toggle_tabs_def)

lemma toggle_tabs_safe: "list_all (safe_node A) (toggle_tabs a cur tabs) = list_all (safe_node A) tabs"
  by (induction tabs) (simp_all add: toggle_tabs_def)

section \<open>Form controls\<close>

text \<open>What a control of the page shows when it is drawn: an input the value attribute, a text area its
  text, a select the last option marked selected or else its first one.\<close>

definition has_attr :: "jstr \<Rightarrow> 'h node \<Rightarrow> bool" where
  "has_attr k n \<longleftrightarrow> (case n of Element _ _ ats _ _ \<Rightarrow> map_of ats k \<noteq> None | _ \<Rightarrow> False)"

definition attr_value :: "jstr \<Rightarrow> 'h node \<Rightarrow> jstr" where
  "attr_value k n = (case n of Element _ _ ats _ _ \<Rightarrow> (case map_of ats k of Some v \<Rightarrow> v | None \<Rightarrow> []) | _ \<Rightarrow> [])"

definition select_shown :: "'h node list \<Rightarrow> jstr" where
  "select_shown opts = (case filter (has_attr (js ''selected'')) opts of
     [] \<Rightarrow> (case opts of [] \<Rightarrow> [] | o1 # _ \<Rightarrow> attr_value (js ''value'') o1)
   | sel \<Rightarrow> attr_value (js ''value'') (last sel))"

fun shown_controls :: "'h node \<Rightarrow> jstr list" where
  "shown_controls (TextNode t) = []"
| "shown_controls (RawHtml t) = []"
| "shown_controls (Element tg cl ats ls ks) =
    (if tg = js ''input'' then [case map_of ats (js ''value'') of Some v \<Rightarrow> v | None \<Rightarrow> []]
     else if tg = js ''textarea'' then [concat (map text_of ks)]
     else if tg = js ''select'' then [select_shown ks]
     else concat (map shown_controls ks))"

lemma fold_attr_texts:
  "no_html as \<Longrightarrow> \<exists>cl' ls' ts'. fold (\<lambda>(k, v) n. set_attr n k v) as (Element tg cl at ls (map TextNode ts))
     = Element tg cl' (fold (\<lambda>(k, v). put_attr k v) as at) ls' (map TextNode ts')"
proof (induction as arbitrary: cl at ls ts)
  case Nil
  show ?case by (simp, rule exI [where x = ts], rule refl)
next
  case (Cons a as)
  obtain k v where a: "a = (k, v)" by (cases a)
  have k: "k \<noteq> js ''html''" using Cons.prems a by simp
  have tns: "\<exists>ts'. (set_text v :: 'a node list) = map TextNode ts'" for v :: "'a attr"
    by (auto simp: set_text_def Let_def intro: exI [of _ "[]"] exI [of _ "[attr_nullable v]"])
  have "\<exists>cl1 ls1 ts1. set_attr (Element tg cl at ls (map TextNode ts)) k v = Element tg cl1 (put_attr k v at) ls1 (map TextNode ts1)"
  proof (cases "k = js ''text''")
    case True
    obtain ts1 where "(set_text v :: 'a node list) = map TextNode ts1" using tns [of v] by blast
    then have "set_attr (Element tg cl at ls (map TextNode ts)) k v = Element tg cl (put_attr k v at) ls (map TextNode ts1)"
      by (simp add: True put_attr_def js_inj)
    then show ?thesis by blast
  next
    case False
    have "\<exists>cl1 ls1. set_attr (Element tg cl at ls ks) k v = Element tg cl1 (put_attr k v at) ls1 ks" for ks
      using k False by (cases v) (auto simp: put_attr_def)
    then show ?thesis by blast
  qed
  then obtain cl1 ls1 ts1
    where "set_attr (Element tg cl at ls (map TextNode ts)) k v = Element tg cl1 (put_attr k v at) ls1 (map TextNode ts1)"
    by blast
  then show ?case using Cons.IH [of cl1 "put_attr k v at" ls1 ts1] Cons.prems a by simp
qed

lemma el_shape:
  assumes "no_html as"
  shows "\<exists>cl ls ts. el tg as cs = Element tg cl (attrs_of (el tg as cs)) ls (map TextNode ts @ concat (map flat_children cs))"
proof -
  obtain cl ls ts where "fold (\<lambda>(k, v) n. set_attr n k v) as (Element tg None [] [] (map TextNode []))
      = Element tg cl (fold (\<lambda>(k, v). put_attr k v) as []) ls (map TextNode ts)"
    using fold_attr_texts [OF assms, of tg None "[]" "[]" "[]"] by blast
  then show ?thesis by (auto simp: el_def)
qed

lemma texts_no_controls: "concat (map shown_controls (map TextNode ts)) = []"
  by (induction ts) simp_all

lemma controls_el [simp]:
  assumes "no_html as" "tg \<noteq> js ''input''" "tg \<noteq> js ''textarea''" "tg \<noteq> js ''select''"
  shows "shown_controls (el tg as cs) = concat (map shown_controls (concat (map flat_children cs)))"
proof -
  obtain cl at ls ts where "el tg as cs = Element tg cl at ls (map TextNode ts @ concat (map flat_children cs))"
    using el_shape [OF assms(1), of tg cs] by metis
  then show ?thesis using assms(2-4) texts_no_controls [of ts] by simp
qed

lemma controls_input [simp]:
  "no_html as \<Longrightarrow> shown_controls (el (js ''input'') as cs)
     = [case map_of (attrs_of (el (js ''input'') as cs)) (js ''value'') of Some v \<Rightarrow> v | None \<Rightarrow> []]"
  using el_shape [of as "js ''input''" cs] by (metis shown_controls.simps(3))

lemma controls_select [simp]:
  assumes "no_content as"
  shows "shown_controls (el (js ''select'') as cs) = [select_shown (concat (map flat_children cs))]"
proof -
  obtain cl at ls ks where e: "el (js ''select'') as cs = Element (js ''select'') cl at ls ks"
    using el_Element [of "js ''select''" as cs] by blast
  have "ks = concat (map flat_children cs)"
    using kids_el' [OF assms, of "js ''select''" cs] by (simp add: e)
  then show ?thesis by (simp add: e js_inj)
qed

lemma controls_textarea [simp]:
  assumes "no_content as"
  shows "shown_controls (el (js ''textarea'') as []) = [[]]"
proof -
  obtain cl at ls ks where e: "el (js ''textarea'') as [] = Element (js ''textarea'') cl at ls ks"
    using el_Element [of "js ''textarea''" as "[]"] by blast
  have "ks = []" using kids_el' [OF assms, of "js ''textarea''" "[]"] by (simp add: e)
  then show ?thesis by (simp add: e js_inj)
qed

lemma attrs_el [simp]: "has_attr k (el tg as cs) \<longleftrightarrow> map_of (attrs_of (el tg as cs)) k \<noteq> None"
  "attr_value k (el tg as cs) = (case map_of (attrs_of (el tg as cs)) k of Some v \<Rightarrow> v | None \<Rightarrow> [])"
proof -
  obtain cl ls ks where e: "el tg as cs = Element tg cl (attrs_of (el tg as cs)) ls ks"
    using el_Element [of tg as cs] by blast
  show "has_attr k (el tg as cs) \<longleftrightarrow> map_of (attrs_of (el tg as cs)) k \<noteq> None"
    by (subst e) (simp add: has_attr_def)
  show "attr_value k (el tg as cs) = (case map_of (attrs_of (el tg as cs)) k of Some v \<Rightarrow> v | None \<Rightarrow> [])"
    by (subst e) (simp add: attr_value_def)
qed

lemma controls_stat [simp]: "shown_controls (muted t) = []" "shown_controls (pageHead k t d) = []"
  by (simp_all add: muted_def pageHead_def js_inj)

lemma attrs_listen [simp]: "attrs_of (listen ev h n) = attrs_of n"
  by (cases n) simp_all

lemma put_attr_nothing [simp]: "put_attr k ANull ob = ob" "put_attr k AUndef ob = ob"
  by (simp_all add: put_attr_def)

declare put_attr_other [simp]

text \<open>A select whose options are the values of a list, the current one marked.\<close>

lemma select_shown_marked:
  fixes f :: "'b \<Rightarrow> 'h node"
  assumes "\<And>x. x \<in> set xs \<Longrightarrow> has_attr (js ''selected'') (f x) \<longleftrightarrow> v x = cur" "\<And>x. x \<in> set xs \<Longrightarrow> attr_value (js ''value'') (f x) = v x"
    and "cur \<in> v ` set xs"
  shows "select_shown (map f xs) = cur"
proof -
  let ?sel = "filter (has_attr (js ''selected'')) (map f xs)"
  have ne: "?sel \<noteq> []" using assms(1,3) by (auto simp: filter_empty_conv)
  then have "last ?sel \<in> set ?sel" by (rule last_in_set)
  then have "attr_value (js ''value'') (last ?sel) = cur" using assms(1,2) by auto
  then show ?thesis using ne by (cases ?sel) (simp_all add: select_shown_def)
qed

section \<open>Looking controls up\<close>

text \<open>\<open>querySelectorAll("[a]")\<close>: the elements of a tree that have the attribute \<open>a\<close>, in document order, each
  with its value; and \<open>$("#i")?.value\<close> and \<open>$("#i")?.checked\<close>, where \<open>$\<close> takes the first element with
  the id. Text that was inserted as markup is not parsed: the forms below have none.\<close>

fun elements_with :: "jstr \<Rightarrow> 'h node \<Rightarrow> (jstr \<times> 'h node) list" where
  "elements_with a (TextNode t) = []"
| "elements_with a (RawHtml t) = []"
| "elements_with a (Element tg cl ats ls ks) =
    (case map_of ats a of None \<Rightarrow> [] | Some v \<Rightarrow> [(v, Element tg cl ats ls ks)]) @ concat (map (elements_with a) ks)"

definition by_id :: "string \<Rightarrow> 'h node \<Rightarrow> 'h node option" where
  "by_id i n = map_of (elements_with (js ''id'') n) (js i)"

definition control_value :: "string \<Rightarrow> 'h node \<Rightarrow> jstr option" where
  "control_value i n = (case by_id i n of None \<Rightarrow> None
     | Some m \<Rightarrow> (case shown_controls m of [v] \<Rightarrow> Some v | _ \<Rightarrow> None))"

definition control_checked :: "string \<Rightarrow> 'h node \<Rightarrow> bool" where
  "control_checked i n = (case by_id i n of None \<Rightarrow> False | Some m \<Rightarrow> has_attr (js ''checked'') m)"

lemma elements_texts: "concat (map (elements_with a) (map TextNode ts)) = []"
  by (induction ts) simp_all

lemma elements_el [simp]:
  assumes "no_html as"
  shows "elements_with a (el tg as cs) =
    (case map_of (attrs_of (el tg as cs)) a of None \<Rightarrow> [] | Some v \<Rightarrow> [(v, el tg as cs)])
      @ concat (map (elements_with a) (concat (map flat_children cs)))"
proof -
  obtain cl ls ts where e: "el tg as cs = Element tg cl (attrs_of (el tg as cs)) ls (map TextNode ts @ concat (map flat_children cs))"
    using el_shape [OF assms] by blast
  have "elements_with a (Element tg cl A ls (map TextNode ts @ K)) =
      (case map_of A a of None \<Rightarrow> [] | Some v \<Rightarrow> [(v, Element tg cl A ls (map TextNode ts @ K))])
      @ concat (map (elements_with a) K)" for A K
    using elements_texts [of a ts] by simp
  then show ?thesis by (metis e)
qed

end
