(* ===== verification/PanelViews.thy ===== *)
theory PanelViews
  imports Panels Markup
begin

text \<open>
  The markup of a review's four panels: the control list (\<open>buildControlBody\<close>,
  \<open>buildControlRuleList\<close>, \<open>buildControlPanel\<close>), the reasonableness columns, the metric cards with
  their icons (\<open>metricIconSvg\<close>, \<open>buildInsightCard\<close>), the donut chart, and the two panels made of cards
  (\<open>buildRiskPointPanel\<close>, \<open>buildCreditPanel\<close>). The data they show is that of \<open>Panels\<close>; the
  verdict buttons are made once and switched by every click (\<open>show_verdict\<close>). A click
  listener is labelled by the call it makes. \<open>native\<close> is the text of a member of \<open>Object.prototype\<close>,
  \<open>num\<close> the text of a number.
\<close>

datatype panel_click =
    CopyText jstr
  | RerunReview
  | ToggleRow nat
  | OpenControl item
  | ShowVerdict jstr
  | ShowPanel jstr
  | OpenDraftForm

section \<open>The control list\<close>

text \<open>\<open>[^\w\u4e00-\u9fff-]+\<close>, replaced globally: every maximal run becomes one underscore. The flag says
  that the character before was replaced.\<close>

definition id_char :: "nat \<Rightarrow> bool" where
  "id_char c \<longleftrightarrow> (48 \<le> c \<and> c \<le> 57) \<or> (65 \<le> c \<and> c \<le> 90) \<or> (97 \<le> c \<and> c \<le> 122) \<or> c = 95 \<or> c = 45
     \<or> (0x4E00 \<le> c \<and> c \<le> 0x9FFF)"

fun id_text :: "bool \<Rightarrow> jstr \<Rightarrow> jstr" where
  "id_text run [] = []"
| "id_text run (c # s) = (if id_char c then c # id_text False s
     else if run then id_text True s else 95 # id_text True s)"

definition controlItemDomId :: "item \<Rightarrow> jstr" where
  "controlItemDomId it = js ''control-item-'' @
     id_text False (str_or (i_rule_id it) (str_or (i_risk_id it) (controlNavTitle it)))"

definition buildControlBody :: "item \<Rightarrow> panel_click node" where
  "buildControlBody it = el (js ''div'') [kl ''ppt-acc-body'']
     [CNode (el (js ''div'') [kl ''ppt-field'']
        [CNode (el (js ''div'') [kl ''ppt-field-label'', tx [0x539F, 0x6587]] []),
         CNode (el (js ''div'') [kl ''ppt-quote'', tx (controlQuote it)] [])]),
      CNode (el (js ''div'') [kl ''ppt-field'']
        [CNode (el (js ''div'') [kl ''ppt-field-label'', tx [0x5EFA, 0x8BAE]] []),
         CNode (el (js ''div'') [kl ''ppt-advice'', tx (controlAdvice it)] [])]),
      CNode (el (js ''div'') [kl ''ppt-control-actions'']
        [CNode (el (js ''button'') [kl ''ppt-btn primary'', tx [0x63D2, 0x5165, 0x8C03, 0x6574], on_click (CopyText (controlAdvice it))] []),
         CNode (el (js ''button'') [kl ''ppt-btn'', tx [0x63D2, 0x5165, 0x8BC4, 0x8BBA], on_click (CopyText (control_comment it))] []),
         CNode (el (js ''button'') [kl ''ppt-btn'', tx [0x91CD, 0x65B0, 0x5BA1, 0x67E5], on_click RerunReview] [])])]"

text \<open>\<open>(VERDICT_META[verdict] || ...).cls\<close>; a verdict is never missing from the table
  (\<open>itemVerdict_known\<close>), but it may be the name of a member of \<open>Object.prototype\<close>.\<close>

definition verdict_cls :: "jstr \<Rightarrow> jstr" where
  "verdict_cls v = (case obj_get VERDICT_META v of
     Own m \<Rightarrow> cls (fst m) | Inherited \<Rightarrow> js ''undefined'' | Missing \<Rightarrow> js ''gray'')"

definition control_row :: "nat \<Rightarrow> item \<Rightarrow> panel_click node" where
  "control_row i it = el (js ''div'')
     [(js ''class'', AStr (js ''ppt-acc-item verdict-'' @ verdict_cls (itemVerdict it))), att ''id'' (controlItemDomId it)]
     [CNode (el (js ''button'') [att ''type'' (js ''button''), kl ''ppt-acc-head'', on_click (ToggleRow i)]
        [CNode (el (js ''span'') [kl ''ppt-acc-caret'', tx [0x25B8]] []),
         CNode (el (js ''span'') [tx (dec (i + 1) @ js ''. '' @ controlNavTitle it)] [])]),
      CNode (buildControlBody it)]"

text \<open>\<open>row.classList.toggle("open", i === opened)\<close> on every row, or the first row's \<open>add("open")\<close>.\<close>

definition control_list_node :: "item list \<Rightarrow> panel_click node" where
  "control_list_node items = (if items = [] then muted [0x8BE5, 0x5206, 0x7C7B, 0x6682, 0x65E0, 0x89C4, 0x5219, 0x3002]
     else append_kids (el (js ''div'') [kl ''ppt-acc''] [])
       (map (\<lambda>i. (if i = 0 then add_class (js ''open'') else id) (control_row i (items ! i))) [0..<length items]))"

definition toggle_rows :: "accordion \<Rightarrow> panel_click node list \<Rightarrow> panel_click node list" where
  "toggle_rows ac rows = map (\<lambda>(i, r). toggle_class (js ''open'') (ac_opened ac = Some i) r) (enumerate 0 rows)"

text \<open>The drawn control panel: its data, the three buttons, which stay the same nodes, and the box of the
  list. \<open>new_verdict_tab\<close> is a button as it is created, \<open>show_verdict\<close> the handler \<open>renderVerdict\<close> on the
  nodes.\<close>

record control_view =
  cw_panel :: control_panel
  cw_tabs :: "panel_click node list"
  cw_list :: "panel_click node"

definition new_verdict_tab :: "(jstr \<times> item list) list \<Rightarrow> jstr \<Rightarrow> panel_click node" where
  "new_verdict_tab grouped name = listen ''click'' (ShowVerdict name)
     (el (js ''button'') [att ''type'' (js ''button''), (js ''class'', AStr (js ''tab verdict-tab '' @ verdict_cls name)),
        att ''data-verdict'' name, tx (name @ [32] @ dec (length (column grouped name)))] [])"

definition show_verdict :: "jstr \<Rightarrow> control_view \<times> workspace \<Rightarrow> control_view \<times> workspace" where
  "show_verdict name = (\<lambda>(cv, ws). let (cp, ws') = renderVerdict name (cw_panel cv, ws) in
     (cv\<lparr>cw_panel := cp, cw_tabs := toggle_tabs ''data-verdict'' name (cw_tabs cv),
         cw_list := refill (cw_list cv) [control_list_node (cp_shown cp)]\<rparr>, ws'))"

definition new_control_view :: "(jstr \<times> item list) list \<Rightarrow> control_view" where
  "new_control_view grouped = \<lparr>cw_panel = \<lparr>cp_groups = grouped, cp_current = [], cp_shown = []\<rparr>,
     cw_tabs = map (new_verdict_tab grouped) VERDICT_ORDER, cw_list = el (js ''div'') [kl ''ppt-control-list''] []\<rparr>"

text \<open>\<open>buildControlPanel\<close> on nodes: the data is that of \<open>Panels.buildControlPanel\<close> (\<open>control_view_panel\<close>). None
  is the paragraph that says there are no rules.\<close>

definition build_control_view :: "item list \<Rightarrow> workspace \<Rightarrow> js_error + (control_view option \<times> workspace)" where
  "build_control_view items ws = (let source = controlItems items in
     if source = [] then Inr (None, ws)
     else case group_into VERDICT_ORDER itemVerdict source of
       Inl e \<Rightarrow> Inl e
     | Inr grouped \<Rightarrow> (let (cv, ws') = show_verdict (default_tab grouped (controlVerdict ws)) (new_control_view grouped, ws)
         in Inr (Some cv, ws')))"

definition control_panel_node :: "control_view option \<Rightarrow> panel_click node" where
  "control_panel_node p = (case p of
     None \<Rightarrow> muted [0x672C, 0x6B21, 0x5BA1, 0x67E5, 0x6CA1, 0x6709, 0x89C4, 0x5219, 0x3002]
   | Some cv \<Rightarrow> el (js ''div'') [kl ''ppt-control-groups'']
       [CNode (el (js ''div'') [kl ''tabs ppt-tabs ppt-control-tabs''] (map CNode (cw_tabs cv))), CNode (cw_list cv)])"

lemma control_view_panel:
  "map_sum id (\<lambda>(cv, ws'). (map_option cw_panel cv, ws')) (build_control_view items ws) = buildControlPanel items ws"
  by (simp add: build_control_view_def buildControlPanel_def show_verdict_def new_control_view_def renderVerdict_def Let_def
      split: sum.split)

section \<open>The reasonableness panel\<close>

definition reason_line_node :: "reason_line \<Rightarrow> panel_click node" where
  "reason_line_node l =
    (case rl_control l of
       None \<Rightarrow> el (js ''li'') [kl '''']
         [CNode (el (js ''b'') [tx (rl_name l)] []), CNode (el (js ''span'') [tx (rl_text l)] []), CNull]
     | Some c \<Rightarrow> listen ''click'' (OpenControl c) (el (js ''li'') [kl ''ppt-reason-link'']
         [CNode (el (js ''b'') [tx (rl_name l)] []), CNode (el (js ''span'') [tx (rl_text l)] []),
          CNode (el (js ''span'') [kl ''ppt-link-hint'', tx ([0x5185, 0x63A7, 0x0020, 0x00B7, 0x0020] @ itemVerdict c)] [])]))"

definition reasonableness_node :: "item list \<Rightarrow> js_error + panel_click node" where
  "reasonableness_node items = map_sum id (\<lambda>cols. el (js ''div'') [kl ''ppt-reason'']
     [nodes (\<lambda>(name, lines). el (js ''div'') [kl ''ppt-reason-col'']
        [CNode (el (js ''div'') [kl ''ppt-reason-head'', tx name] []),
         CNode (el (js ''ol'') [kl ''ppt-reason-ol'']
           [nodes (\<lambda>(title, it). reason_line_node (reasonablenessLine title it items)) lines])]) cols])
     (buildReasonablenessPanel items)"

section \<open>Metric cards\<close>

abbreviation svg_head :: string where
  "svg_head \<equiv> ''<svg viewBox=\"0 0 24 24\" fill=\"none\" stroke=\"currentColor\" stroke-width=\"1.7\">''"

definition metric_svgs :: "jstr obj" where
  "metric_svgs = [
     ([0x5229, 0x6DA6, 0x7387], js (svg_head @ ''<path d=\"M12 3a9 9 0 1 1-9 9h9V3z\"/><path d=\"M12 3a9 9 0 0 1 9 9\"/></svg>'')),
     ([0x8D44, 0x91D1, 0x8981, 0x6C42], js (svg_head @ ''<rect x=\"3\" y=\"6\" width=\"18\" height=\"12\" rx=\"2\"/><path d=\"M3 10h18\"/><circle cx=\"8\" cy=\"14\" r=\"1\" fill=\"currentColor\"/><circle cx=\"12\" cy=\"14\" r=\"1\" fill=\"currentColor\"/></svg>'')),
     ([0x9879, 0x76EE, 0x9884, 0x7B97], js (svg_head @ ''<path d=\"M4 19h16M7 16V10M12 16V7M17 16v-4\"/></svg>'')),
     ([0x6536, 0x6B3E, 0x8FDB, 0x5EA6], js (svg_head @ ''<path d=\"M4 16l5-4 4 3 7-7\"/><path d=\"M15 8h5v5\"/></svg>'')),
     ([0x5C65, 0x884C, 0x671F, 0x9650], js (svg_head @ ''<circle cx=\"12\" cy=\"12\" r=\"8\"/><path d=\"M12 8v5l3 2\"/></svg>'')),
     ([0x6743, 0x5C5E, 0x8303, 0x56F4], js (svg_head @ ''<path d=\"M12 3l8 4v6c0 5-3.5 7.5-8 9-4.5-1.5-8-4-8-9V7z\"/></svg>'')),
     ([0x6CE8, 0x518C, 0x8D44, 0x672C], js (svg_head @ ''<circle cx=\"12\" cy=\"8\" r=\"3\"/><path d=\"M5 19c1.5-3 4-5 7-5s5.5 2 7 5\"/></svg>'')),
     ([0x5408, 0x4F5C, 0x5386, 0x53F2], js (svg_head @ ''<circle cx=\"8\" cy=\"8\" r=\"3\"/><circle cx=\"16\" cy=\"8\" r=\"3\"/><path d=\"M3 19c1-3 3.5-5 5-5M21 19c-1-3-3.5-5-5-5M8 14c1.2 0 3 .6 4 2\"/></svg>'')),
     ([0x5F53, 0x524D, 0x5408, 0x540C], js (svg_head @ ''<path d=\"M7 3h8l4 4v14H7z\"/><path d=\"M15 3v5h5\"/></svg>'')),
     ([0x7ECF, 0x8425, 0x72B6, 0x51B5], js (svg_head @ ''<path d=\"M4 19h16M6 16V9l4 3 4-6 4 5v5\"/></svg>''))]"

text \<open>\<open>svgs[name] || (the icon of the current contract)\<close>: the name may come from the server's data.\<close>

definition icon_markup :: "(jstr \<Rightarrow> jstr) \<Rightarrow> jstr \<Rightarrow> jstr" where
  "icon_markup native name = (case obj_get metric_svgs name of
     Own s \<Rightarrow> s | Inherited \<Rightarrow> native name
   | Missing \<Rightarrow> the (map_of metric_svgs [0x5F53, 0x524D, 0x5408, 0x540C]))"

fun set_inner :: "jstr \<Rightarrow> 'h node \<Rightarrow> 'h node" where
  "set_inner t (Element tg cl ats ls ks) = Element tg cl ats ls (if t = [] then [] else [RawHtml t])"
| "set_inner t n = n"

definition metricIconSvg :: "(jstr \<Rightarrow> jstr) \<Rightarrow> jstr \<Rightarrow> panel_click node" where
  "metricIconSvg native name = set_inner (icon_markup native name) (el (js ''span'') [kl ''ppt-metric-icon''] [])"

definition insight_card :: "(jstr \<Rightarrow> jstr) \<Rightarrow> jstr \<Rightarrow> item \<Rightarrow> item option \<Rightarrow> panel_click node" where
  "insight_card native name it control = el (js ''div'')
     [(js ''class'', AStr (js ''ppt-metric-card'' @ (if control = None then [] else js '' ppt-metric-link'')))]
     [CNode (el (js ''div'') [kl ''ppt-metric-head'']
        [CNode (metricIconSvg native name), CNode (el (js ''span'') [tx name] []),
         (case control of None \<Rightarrow> CNull | Some c \<Rightarrow> CNode (el (js ''span'')
            [(js ''class'', AStr (js ''badge '' @ verdict_cls (itemVerdict c))), tx (itemVerdict c)] []))]),
      CNode (el (js ''p'') [tx (metricCardText it name)] []),
      (case control of None \<Rightarrow> CNull | Some c \<Rightarrow>
         CNode (el (js ''div'') [kl ''ppt-link-hint'', tx ([0x5BF9, 0x5E94, 0x5185, 0x63A7, 0xFF1A] @ controlNavTitle c)] []))]"

definition buildInsightCard :: "(jstr \<Rightarrow> jstr) \<Rightarrow> item \<Rightarrow> jstr \<Rightarrow> item list \<Rightarrow> panel_click node" where
  "buildInsightCard native it key allItems =
    (let name = str_or (Some key) (metricKey it); control = linkedControlItem it allItems;
         card = insight_card native name it control
     in case control of None \<Rightarrow> card | Some c \<Rightarrow> listen ''click'' (OpenControl c) card)"

section \<open>The donut chart\<close>

text \<open>The arithmetic is that of the reals; \<open>num\<close> prints a number. A ring is its length, the rest of the
  circle, and the negated offset at which it starts.\<close>

definition circle :: real where "circle = 2 * pi * 54"

definition slice_total :: "(jstr \<times> nat) list \<Rightarrow> nat" where
  "slice_total slices = (let t = sum_list (map snd slices) in if t = 0 then 1 else t)"

fun rings_from :: "nat \<Rightarrow> real \<Rightarrow> (jstr \<times> nat) list \<Rightarrow> (real \<times> real \<times> real) list" where
  "rings_from t offset [] = []"
| "rings_from t offset ((l, v) # slices) = (let len = (real v / real t) * circle in
     (len, circle - len, - offset) # rings_from t (offset + len) slices)"

definition donut_colors :: "jstr list" where
  "donut_colors = [js ''#73a0fa'', js ''#67e0a3'']"

definition donut_color :: "nat \<Rightarrow> jstr" where
  "donut_color i = donut_colors ! (i mod length donut_colors)"

definition ring_markup :: "(real \<Rightarrow> jstr) \<Rightarrow> nat \<Rightarrow> real \<times> real \<times> real \<Rightarrow> jstr" where
  "ring_markup num i = (\<lambda>(len, gap, off).
     js ''<circle cx=\"70\" cy=\"70\" r=\"54\" fill=\"none\" stroke=\"'' @ donut_color i
     @ js ''\" stroke-width=\"22\" stroke-dasharray=\"'' @ num len @ [32] @ num gap
     @ js ''\" stroke-dashoffset=\"'' @ num off @ js ''\" transform=\"rotate(-90 70 70)\"/>'')"

definition donut_markup :: "(real \<Rightarrow> jstr) \<Rightarrow> (jstr \<times> nat) list \<Rightarrow> jstr" where
  "donut_markup num slices = js ''<svg viewBox=\"0 0 140 140\">''
     @ concat (map (\<lambda>(i, r). ring_markup num i r) (enumerate 0 (rings_from (slice_total slices) 0 slices))) @ js ''</svg>''"

definition donutChart :: "(real \<Rightarrow> jstr) \<Rightarrow> (jstr \<times> nat) list \<Rightarrow> panel_click node" where
  "donutChart num slices = el (js ''div'') [kl ''ppt-donut-wrap'']
     [CNode (set_inner (donut_markup num slices) (el (js ''div'') [kl ''ppt-donut''] [])),
      CNode (el (js ''div'') [kl ''ppt-donut-legend'']
        [nodes (\<lambda>(i, l, v). el (js ''div'') [kl ''ppt-legend-item'']
           [CNode (el (js ''span'') [kl ''ppt-swatch'', att ''style'' (js ''background:'' @ donut_color i)] []),
            CNode (el (js ''span'') [tx l] [])]) (enumerate 0 slices)])]"

section \<open>The panels made of cards\<close>

definition keyed_cards :: "(jstr \<Rightarrow> jstr) \<Rightarrow> item list \<Rightarrow> jstr list \<Rightarrow> panel_click child" where
  "keyed_cards native items keys = nodes (\<lambda>key. buildInsightCard native (pickMetric items key) key items) keys"

definition block_title :: "jstr \<Rightarrow> panel_click child" where
  "block_title t = CNode (el (js ''div'') [kl ''ppt-block-title'', tx t] [])"

definition buildRiskPointPanel :: "(jstr \<Rightarrow> jstr) \<Rightarrow> (real \<Rightarrow> jstr) \<Rightarrow> item list \<Rightarrow> panel_click node" where
  "buildRiskPointPanel native num items = el (js ''div'') [kl ''ppt-risk'']
     [CNode (el (js ''div'') [kl ''ppt-risk-block''] [block_title [0x8D22, 0x52A1, 0x98CE, 0x9669],
        CNode (el (js ''div'') [kl ''ppt-metric-row''] [keyed_cards native items [[0x5229, 0x6DA6, 0x7387], [0x8D44, 0x91D1, 0x8981, 0x6C42]]])]),
      CNode (el (js ''div'') [kl ''ppt-risk-block''] [block_title [0x9879, 0x76EE, 0x98CE, 0x9669],
        CNode (el (js ''div'') [kl ''ppt-risk-split'']
          [CNode (el (js ''div'') [kl ''ppt-metric-col''] [keyed_cards native items [[0x9879, 0x76EE, 0x9884, 0x7B97], [0x6536, 0x6B3E, 0x8FDB, 0x5EA6]],
             nodes (\<lambda>it. buildInsightCard native it (metricKey it) items) (extraRiskItems items)]),
           CNode (donutChart num [([0x9879, 0x76EE, 0x9884, 0x7B97], 58), ([0x6536, 0x6B3E, 0x8FDB, 0x5EA6], 42)])])])]"

definition buildCreditPanel :: "(jstr \<Rightarrow> jstr) \<Rightarrow> (real \<Rightarrow> jstr) \<Rightarrow> item list \<Rightarrow> panel_click node" where
  "buildCreditPanel native num items = el (js ''div'') [kl ''ppt-credit'']
     [CNode (el (js ''div'') [kl ''ppt-risk-block''] [block_title [0x5BA2, 0x6237, 0x8D44, 0x4FE1, 0x98CE, 0x9669],
        CNode (el (js ''div'') [kl ''ppt-metric-row''] [keyed_cards native items [[0x5408, 0x4F5C, 0x5386, 0x53F2], [0x5F53, 0x524D, 0x5408, 0x540C]]])]),
      CNode (el (js ''div'') [kl ''ppt-risk-block''] [block_title [0x7ECF, 0x8425, 0x98CE, 0x9669],
        CNode (el (js ''div'') [kl ''ppt-risk-split'']
          [CNode (el (js ''div'') [kl ''ppt-metric-col''] [keyed_cards native items [[0x6CE8, 0x518C, 0x8D44, 0x672C], [0x7ECF, 0x8425, 0x72B6, 0x51B5]]]),
           CNode (donutChart num [([0x6CE8, 0x518C, 0x8D44, 0x672C], 58), ([0x7ECF, 0x8425, 0x72B6, 0x51B5], 42)])])])]"

section \<open>Facts\<close>

definition icon_texts :: "(jstr \<Rightarrow> jstr) \<Rightarrow> jstr set" where
  "icon_texts native = snd ` set metric_svgs \<union> native ` set proto_names"

lemma itemVerdict_known: "obj_get VERDICT_META (itemVerdict it) \<noteq> Missing"
proof -
  have "obj_get VERDICT_META v \<noteq> Missing" if "v \<in> set VERDICT_ORDER" for v
    using that map_of_VERDICT_META by (auto simp: obj_get_def split: option.splits)
  moreover have "obj_get VERDICT_META v \<noteq> Missing" if "obj_get VERDICT_ALIASES v = Inherited" for v
    using that by (auto simp: obj_get_def split: option.splits if_splits)
  moreover have "x \<in> set VERDICT_ORDER" if "obj_get VERDICT_ALIASES v = Own x" for v x
    using that by (auto simp: obj_get_def VERDICT_ALIASES_def set_VERDICT_ORDER split: option.splits if_splits)
  ultimately show ?thesis
    using level_verdict_range
    by (auto simp: itemVerdict_def verdict_for_def obj_has_def split: lookup.splits)
qed

lemma icon_known: "icon_markup native name \<in> icon_texts native"
proof -
  have own: "s \<in> snd ` set metric_svgs" if "map_of metric_svgs k = Some s" for k s
    using map_of_SomeD [OF that] by force
  have "map_of metric_svgs [0x5F53, 0x524D, 0x5408, 0x540C] \<noteq> None" by (simp add: metric_svgs_def)
  then obtain d where d: "map_of metric_svgs [0x5F53, 0x524D, 0x5408, 0x540C] = Some d" by blast
  show ?thesis
    using own [OF d] own [of name]
    by (auto simp: icon_markup_def icon_texts_def d obj_get_def split: option.splits)
qed

lemma raw_set_inner: "set (raw_of (set_inner t n)) \<subseteq> insert t (set (raw_of n))"
  by (cases n) auto

lemma safe_set_inner: "t \<in> A \<Longrightarrow> safe_node A n \<Longrightarrow> safe_node A (set_inner t n)"
  using raw_set_inner [of t n] by (auto simp: safe_node_def)

lemma safe_icon: "icon_texts native \<subseteq> A \<Longrightarrow> safe_node A (metricIconSvg native name)"
  unfolding metricIconSvg_def using icon_known [of native name]
  by (intro safe_set_inner) (auto simp: js_inj)

lemma safe_body: "safe_node A (buildControlBody it)"
  by (simp add: buildControlBody_def js_inj)

lemma safe_row: "safe_node A (control_row i it)"
  by (simp add: control_row_def js_inj safe_body)

lemma safe_append: "safe_node A n \<Longrightarrow> (\<forall>m \<in> set ns. safe_node A m) \<Longrightarrow> safe_node A (append_kids n ns)"
  by (cases n) (auto simp: safe_node_def)

lemma safe_control_list: "safe_node A (control_list_node items)"
  by (auto simp: control_list_node_def js_inj safe_row intro!: safe_append)

lemma safe_refill: "(\<forall>m \<in> set ns. safe_node A m) \<Longrightarrow> safe_node A n \<Longrightarrow> safe_node A (refill n ns)"
  by (cases n) (auto simp: safe_node_def)

definition safe_view :: "jstr set \<Rightarrow> control_view \<Rightarrow> bool" where
  "safe_view A cv \<longleftrightarrow> list_all (safe_node A) (cw_tabs cv) \<and> safe_node A (cw_list cv)"

lemma safe_show_verdict: "safe_view A cv \<Longrightarrow> safe_view A (fst (show_verdict name (cv, ws)))"
  by (simp add: safe_view_def show_verdict_def renderVerdict_def toggle_tabs_safe safe_refill safe_control_list)

lemma safe_new_view: "safe_view A (new_control_view grouped)"
  by (simp add: safe_view_def new_control_view_def new_verdict_tab_def js_inj list_all_iff)

lemma safe_control_view: "build_control_view items ws = Inr (Some cv, ws') \<Longrightarrow> safe_view A cv"
  using safe_show_verdict [OF safe_new_view]
  by (auto simp: build_control_view_def Let_def split: if_splits sum.splits prod.splits) (metis fst_conv)

lemma safe_control_panel: "(case p of None \<Rightarrow> True | Some cv \<Rightarrow> safe_view A cv) \<Longrightarrow> safe_node A (control_panel_node p)"
  by (auto simp: control_panel_node_def safe_view_def js_inj list_all_iff split: option.split_asm)

lemma safe_reason_line: "safe_node A (reason_line_node l)"
  by (simp add: reason_line_node_def js_inj split: option.split)

lemma safe_reasonableness: "reasonableness_node items = Inr n \<Longrightarrow> safe_node A n"
  by (cases "buildReasonablenessPanel items")
    (auto simp: reasonableness_node_def js_inj safe_reason_line)

lemma safe_card: "icon_texts native \<subseteq> A \<Longrightarrow> safe_node A (buildInsightCard native it key allItems)"
  by (simp add: buildInsightCard_def insight_card_def Let_def js_inj safe_icon split: option.split)

lemma safe_donut: "donut_markup num slices \<in> A \<Longrightarrow> safe_node A (donutChart num slices)"
  by (auto simp: donutChart_def js_inj intro!: safe_set_inner)

lemma safe_keyed: "icon_texts native \<subseteq> A \<Longrightarrow> safe_child A (keyed_cards native items keys)"
  by (simp add: keyed_cards_def safe_card)

definition donut_texts :: "(real \<Rightarrow> jstr) \<Rightarrow> jstr set" where
  "donut_texts num = {donut_markup num [([0x9879, 0x76EE, 0x9884, 0x7B97], 58), ([0x6536, 0x6B3E, 0x8FDB, 0x5EA6], 42)], donut_markup num [([0x6CE8, 0x518C, 0x8D44, 0x672C], 58), ([0x7ECF, 0x8425, 0x72B6, 0x51B5], 42)]}"

lemma safe_risk: "icon_texts native \<subseteq> A \<Longrightarrow> donut_texts num \<subseteq> A \<Longrightarrow> safe_node A (buildRiskPointPanel native num items)"
  by (simp add: buildRiskPointPanel_def block_title_def js_inj safe_keyed safe_card safe_donut donut_texts_def)

lemma safe_credit: "icon_texts native \<subseteq> A \<Longrightarrow> donut_texts num \<subseteq> A \<Longrightarrow> safe_node A (buildCreditPanel native num items)"
  by (simp add: buildCreditPanel_def block_title_def js_inj safe_keyed safe_donut donut_texts_def)

end
