(* ===== verification/ReviewView.thy ===== *)
theory ReviewView
  imports PanelViews Format
begin

text \<open>
  A rendered review (\<open>renderReviewViews\<close>): the summary line, the hints, the file list, and the panels
  with their tabs (\<open>buildReviewPanels\<close>, \<open>buildPanelContent\<close>), with the clicks on the panel and verdict buttons
  (\<open>click_tabs\<close>), which stay the same nodes. The record holds what these functions
  read of the server's answer beside the checklist; \<open>jtext\<close> is the answer as
  \<open>JSON.stringify(resp, null, 2)\<close> prints it. The result is the list of nodes appended to the box.
\<close>

section \<open>Data\<close>

record review_document =
  doc_filename :: "jstr option"
  doc_parse_status :: "jstr option"
  doc_page_count :: "nat option"
  doc_sha256 :: "jstr option"

record review_answer =
  an_result :: "review_result option"
  an_cached :: bool
  an_overall :: "jstr option"
  an_generated :: "jstr option"
  an_run_status :: "jstr option"
  an_fingerprint :: "jstr option"
  an_rule_version :: "jstr option"
  an_model_version :: "jstr option"
  an_documents :: "review_document list"
  an_type_name :: "jstr option"
  an_type_basis :: "jstr option"
  an_declared_type :: "jstr option"
  an_package_id :: "jstr option"

text \<open>The host: text of a prototype member, of a number, a parsed time stamp.\<close>

record host =
  native :: "jstr \<Rightarrow> jstr"
  num :: "real \<Rightarrow> jstr"
  parse_time :: "jstr \<Rightarrow> datetime option"

section \<open>The panels\<close>

text \<open>The four panels by name; the callers pass only names of \<open>REVIEW_PANELS\<close>. What the code does with any
  other name is \<open>panel_fallback\<close> in \<open>LegacyViews\<close>.\<close>

datatype panel_content = NoContent | ControlContent "control_view option" | OtherContent "panel_click node"

definition content_node :: "panel_content \<Rightarrow> panel_click node list" where
  "content_node pc = (case pc of NoContent \<Rightarrow> [] | ControlContent cv \<Rightarrow> [control_panel_node cv] | OtherContent n \<Rightarrow> [n])"

definition buildPanelContent :: "host \<Rightarrow> jstr \<Rightarrow> item list \<Rightarrow> workspace \<Rightarrow> js_error + (panel_content \<times> workspace)" where
  "buildPanelContent h name items ws =
    (if name = M_INTERNAL then map_sum id (\<lambda>(p, ws'). (ControlContent p, ws')) (build_control_view items ws)
     else if name = M_REASON then map_sum id (\<lambda>n. (OtherContent n, ws)) (reasonableness_node items)
     else if name = M_RISK then Inr (OtherContent (buildRiskPointPanel (native h) (num h) items), ws)
     else Inr (OtherContent (buildCreditPanel (native h) (num h) items), ws))"

text \<open>The panels on the page: the four buttons, which stay the same nodes, and what the host holds.
  \<open>new_panels\<close> is the state in which \<open>renderPanel\<close> is called for the first time.\<close>

record panels_view =
  pv_current :: jstr
  pv_tabs :: "panel_click node list"
  pv_content :: panel_content

definition new_panel_tab :: "jstr \<Rightarrow> panel_click node" where
  "new_panel_tab name = listen ''click'' (ShowPanel name)
     (el (js ''button'') [att ''type'' (js ''button''), kl ''tab'', att ''data-panel'' name, tx name] [])"

definition new_panels :: panels_view where
  "new_panels = \<lparr>pv_current = M_INTERNAL, pv_tabs = map new_panel_tab REVIEW_PANELS, pv_content = NoContent\<rparr>"

definition renderPanel :: "host \<Rightarrow> item list \<Rightarrow> (jstr \<times> item list) list \<Rightarrow> jstr \<Rightarrow> panels_view \<times> workspace
    \<Rightarrow> js_error + (panels_view \<times> workspace)" where
  "renderPanel h items grouped name = (\<lambda>(pv, ws). map_sum id (\<lambda>(content, ws').
     (\<lparr>pv_current = name, pv_tabs = toggle_tabs ''data-panel'' name (pv_tabs pv), pv_content = content\<rparr>, ws'))
     (buildPanelContent h name (panel_items name items grouped) ws))"

definition host_node :: "panels_view \<Rightarrow> panel_click node" where
  "host_node pv = refill (el (js ''div'') [kl ''review-panel-body ppt-panel-body''] []) (content_node (pv_content pv))"

text \<open>The clicks on the buttons, counted from the left: each listener reads the name from its own button.\<close>

datatype tab_click = ClickPanel nat | ClickVerdict nat

definition tab_name :: "string \<Rightarrow> panel_click node \<Rightarrow> jstr" where
  "tab_name a t = (case map_of (attrs_of t) (js a) of Some n \<Rightarrow> n | None \<Rightarrow> [])"

definition click_tab :: "host \<Rightarrow> item list \<Rightarrow> (jstr \<times> item list) list \<Rightarrow> tab_click \<Rightarrow> panels_view \<times> workspace
    \<Rightarrow> js_error + (panels_view \<times> workspace)" where
  "click_tab h items grouped ev = (\<lambda>(pv, ws). case ev of
     ClickPanel i \<Rightarrow> (if i < length (pv_tabs pv)
       then renderPanel h items grouped (tab_name ''data-panel'' (pv_tabs pv ! i)) (pv, ws) else Inr (pv, ws))
   | ClickVerdict i \<Rightarrow> (case pv_content pv of
       ControlContent (Some cv) \<Rightarrow> (if i < length (cw_tabs cv)
         then (let (cv', ws') = show_verdict (tab_name ''data-verdict'' (cw_tabs cv ! i)) (cv, ws)
           in Inr (pv\<lparr>pv_content := ControlContent (Some cv')\<rparr>, ws'))
         else Inr (pv, ws))
     | _ \<Rightarrow> Inr (pv, ws)))"

fun click_tabs :: "host \<Rightarrow> item list \<Rightarrow> (jstr \<times> item list) list \<Rightarrow> tab_click list \<Rightarrow> panels_view \<times> workspace
    \<Rightarrow> js_error + (panels_view \<times> workspace)" where
  "click_tabs h items grouped [] s = Inr s"
| "click_tabs h items grouped (ev # evs) s = (case click_tab h items grouped ev s of
     Inl e \<Rightarrow> Inl e | Inr s' \<Rightarrow> click_tabs h items grouped evs s')"

text \<open>\<open>${statusText(...)}\<close>\<close>

definition shown_text :: "host \<Rightarrow> shown \<Rightarrow> jstr" where
  "shown_text h s = (case s of Shown t \<Rightarrow> t | ProtoMember k \<Rightarrow> native h k)"

definition buildReviewPanels :: "host \<Rightarrow> jstr \<Rightarrow> review_answer \<Rightarrow> item list \<Rightarrow> workspace
    \<Rightarrow> js_error + (panel_click node \<times> workspace)" where
  "buildReviewPanels h current an items ws = (case panel_groups items of
     Inl e \<Rightarrow> Inl e
   | Inr grouped \<Rightarrow> map_sum id (\<lambda>(pv, ws').
       (el (js ''div'') [kl ''card'']
          [CNode (el (js ''div'') [kl ''card-title'', tx [0x0041, 0x0049, 0x0020, 0x5BA1, 0x67E5]]
             [CNode (el (js ''span'') [kl ''hint'', tx ([0x5171, 0x0020] @ dec (length items) @ [0x0020, 0x6761, 0x89C4, 0x5219])] [])]),
           CNode (el (js ''div'') [kl ''tabs review-tabs ppt-tabs''] (map CNode (pv_tabs pv))), CNode (host_node pv),
           CNode (el (js ''div'') [kl ''muted mt-8'', tx ([0x5408, 0x540C, 0x5305, 0x003A, 0x0020] @ str_or (an_package_id an) (js ''-'')
             @ [0x0020, 0x00B7, 0x0020, 0x5BA1, 0x67E5, 0x72B6, 0x6001, 0x003A, 0x0020] @ shown_text h (statusText (an_run_status an))
             @ [0x0020, 0x00B7, 0x0020, 0x751F, 0x6210, 0x65F6, 0x95F4, 0x003A, 0x0020] @ fmtTime (parse_time h) (an_generated an))] [])], ws'))
       (renderPanel h items grouped current (new_panels, ws)))"

section \<open>The summary line\<close>

text \<open>\<open>FINDING_META[overall] || FINDING_META.UNKNOWN\<close>: label and class; a prototype member has neither.\<close>

definition overall_meta :: "jstr \<Rightarrow> jstr \<times> jstr" where
  "overall_meta overall = (case obj_get FINDING_META overall of
     Own m \<Rightarrow> (label m, cls m) | Inherited \<Rightarrow> ([], []) | Missing \<Rightarrow> ([0x672A, 0x77E5], js ''gray''))"

definition overall_cls :: "jstr \<Rightarrow> jstr" where
  "overall_cls c = (if c \<in> {js ''red'', js ''yellow'', js ''green''} then c else js ''gray'')"

definition lead_sub :: "jstr \<Rightarrow> jstr" where
  "lead_sub c = (if c = js ''red'' then [0x5B58, 0x5728, 0x62E6, 0x622A, 0x7EA7, 0x98CE, 0x9669, 0xFF0C, 0x5EFA, 0x8BAE, 0x4EBA, 0x5DE5, 0x590D, 0x6838, 0x540E, 0x518D, 0x7B7E, 0x7F72]
     else if c = js ''yellow'' then [0x5B58, 0x5728, 0x9700, 0x5173, 0x6CE8, 0x9879, 0xFF0C, 0x5EFA, 0x8BAE, 0x9010, 0x6761, 0x6838, 0x5BF9]
     else if c = js ''green'' then [0x6574, 0x4F53, 0x901A, 0x8FC7, 0xFF0C, 0x672A, 0x53D1, 0x73B0, 0x98CE, 0x9669, 0x9879]
     else [0x90E8, 0x5206, 0x9879, 0x65E0, 0x6CD5, 0x5224, 0x5B9A, 0xFF0C, 0x9700, 0x4EBA, 0x5DE5, 0x786E, 0x8BA4])"

definition sub_text :: "jstr \<Rightarrow> panel_click node option" where
  "sub_text t = Some (el (js ''span'') [kl ''lead-sub'', tx t] [])"

definition summary_line :: "review_answer \<Rightarrow> item list \<Rightarrow> panel_click node" where
  "summary_line an items =
    (let (lbl, c) = overall_meta (str_or (an_overall an) (js ''UNKNOWN'')); oc = overall_cls c; sm = review_summary items in
     el (js ''div'') [kl ''grid grid-4'']
      [CNode (add_class oc (add_class (js ''stat-lead'') (stat [0x603B, 0x4F53, 0x7ED3, 0x8BBA] lbl oc (sub_text (lead_sub oc))))),
       CNode (stat [0x89C4, 0x5219, 0x9879] (dec (sm_total sm)) (js ''blue'')
         (sub_text ([0x4E0D, 0x7B26, 0x0020] @ dec (sm_mismatch sm) @ [0x0020, 0x00B7, 0x0020, 0x5F85, 0x786E, 0x8BA4, 0x0020] @ dec (sm_pending sm) @ [0x0020, 0x00B7, 0x0020, 0x7B26, 0x5408, 0x0020] @ dec (sm_conform sm)))),
       CNode (stat [0x9700, 0x4EBA, 0x5DE5, 0x590D, 0x6838] (if sm_blocked sm then [0x662F] else [0x5426]) (js (if sm_blocked sm then ''orange'' else ''green'')) None),
       CNode (stat [0x5BA1, 0x67E5, 0x6307, 0x7EB9] (if truthy (an_fingerprint an) then the (shortId (an_fingerprint an)) else js ''-'') (js ''gray'')
         (Some (el (js ''span'') [kl ''muted'', tx ([0x89C4, 0x5219, 0x0020] @ str_or (an_rule_version an) (js ''-'')
            @ [0x0020, 0x00B7, 0x0020, 0x6A21, 0x578B, 0x0020] @ str_or (an_model_version an) [0x672A, 0x542F, 0x7528])] [])))])"

section \<open>The file list\<close>

definition parse_badge :: "jstr option \<Rightarrow> panel_click node" where
  "parse_badge status = (if status = Some (js ''parsed'') then el (js ''span'') [kl ''badge green'', tx [0x5DF2, 0x89E3, 0x6790]] []
     else if status = Some (js ''needs_ocr'') then el (js ''span'') [kl ''badge orange'', tx [0x9700, 0x0020, 0x004F, 0x0043, 0x0052]] []
     else el (js ''span'') [kl ''badge red'', tx (str_or status (js ''-''))] [])"

definition document_row :: "review_document \<Rightarrow> panel_click node" where
  "document_row d = el (js ''div'') [kl ''doc-row'']
     [CNode (el (js ''div'') []
        [CNode (el (js ''div'') [kl ''doc-name'', tx (str_or (doc_filename d) (js ''-''))] []),
         CNode (el (js ''div'') [kl ''doc-meta'']
           [CNode (el (js ''span'') [kl ''badge gray'', tx (fileFormat (doc_filename d))] []),
            CNode (parse_badge (doc_parse_status d)),
            CNode (el (js ''span'') [kl ''muted'', tx (case doc_page_count d of
               Some n \<Rightarrow> if n \<noteq> 0 then dec n @ [0x0020, 0x9875] else [0x9875, 0x6570, 0x672A, 0x77E5] | None \<Rightarrow> [0x9875, 0x6570, 0x672A, 0x77E5])] [])])]),
      CNode (el (js ''span'') [kl ''mono muted'', tx (if truthy (doc_sha256 d) then take 12 (the (doc_sha256 d)) @ [0x2026] else js ''-'')] [])]"

definition document_card :: "review_document list \<Rightarrow> panel_click node" where
  "document_card ds = el (js ''div'') [kl ''card'']
     [CNode (el (js ''div'') [kl ''card-title'', tx [0x5408, 0x540C, 0x6587, 0x4EF6]]
        [CNode (el (js ''span'') [kl ''hint'', tx (dec (length ds) @ [0x0020, 0x4EFD])] [])]),
      CNode (el (js ''div'') [kl ''doc-list''] [nodes document_row ds])]"

section \<open>The whole\<close>

definition raw_answer :: "jstr \<Rightarrow> panel_click node" where
  "raw_answer jtext = el (js ''div'') [kl ''card'']
     [CNode (el (js ''div'') [kl ''card-title'', tx [0x5BA1, 0x67E5, 0x7ED3, 0x679C]] []),
      CNode (el (js ''div'') [kl ''json-view'', (js ''html'', AStr (escapeHtml (Some jtext)))] [])]"

definition cache_hint :: "jstr \<Rightarrow> panel_click node" where
  "cache_hint t = el (js ''div'') [kl ''cache-hit''] [CNode (el (js ''span'') [tx t] [])]"

definition type_hint :: "review_answer \<Rightarrow> panel_click node list" where
  "type_hint an = (if truthy (an_type_name an) \<and> trim (str_or (an_declared_type an) []) = []
     then [cache_hint ([0x6A21, 0x578B, 0x5224, 0x5B9A, 0x5408, 0x540C, 0x7C7B, 0x578B, 0xFF1A] @ the (an_type_name an) @ [0xFF08, 0x4F9D, 0x636E, 0xFF1A]
       @ str_or (an_type_basis an) [0x5408, 0x540C, 0x6458, 0x5F55] @ [0xFF09, 0x3002, 0x672C, 0x6B21, 0x5BA1, 0x67E5, 0x672A, 0x6309, 0x7C7B, 0x578B, 0x7B5B, 0x9009, 0x89C4, 0x5219, 0xFF1B, 0x586B, 0x5199, 0x5408, 0x540C, 0x7C7B, 0x578B, 0x540E, 0x91CD, 0x65B0, 0x5BA1, 0x67E5, 0xFF0C, 0x7ED3, 0x8BBA, 0x4F1A, 0x66F4, 0x7CBE, 0x786E, 0x3002])]
     else [])"

definition backfill_card :: "panel_click node" where
  "backfill_card = el (js ''div'') [kl ''card'']
     [CNode (el (js ''div'') [kl ''card-title'']
        [CNode (el (js ''span'') [tx [0x6807, 0x51C6, 0x8981, 0x7D20, 0x56DE, 0x586B]] []),
         CNode (el (js ''span'') [kl ''hint'', tx [0x5728, 0x300C, 0x5408, 0x540C, 0x62DF, 0x5B9A, 0x300D, 0x9875, 0x586B, 0x5199, 0x3001, 0x590D, 0x5236, 0x5B57, 0x6BB5, 0x503C]] [])]),
      CNode (el (js ''div'') [kl ''action-bar'']
        [CNode (el (js ''button'') [kl ''btn btn-secondary'', tx [0x5728, 0x5408, 0x540C, 0x62DF, 0x5B9A, 0x4E2D, 0x6253, 0x5F00, 0x8981, 0x7D20, 0x8868, 0x5355], on_click OpenDraftForm] [])])]"

definition renderReviewViews :: "host \<Rightarrow> jstr \<Rightarrow> review_answer \<Rightarrow> workspace
    \<Rightarrow> js_error + (panel_click node list \<times> workspace)" where
  "renderReviewViews h jtext an ws = (case an_result an of
     None \<Rightarrow> Inr ([raw_answer jtext], ws)
   | Some rr \<Rightarrow> (case reviewItems (Some rr) of
       Inl e \<Rightarrow> Inl e
     | Inr items \<Rightarrow> map_sum id (\<lambda>(panels, ws').
         ((if an_cached an then [cache_hint [0x2713, 0x0020, 0x8F93, 0x5165, 0x672A, 0x53D8, 0x5316, 0xFF0C, 0x5DF2, 0x76F4, 0x63A5, 0x590D, 0x7528, 0x4E0A, 0x6B21, 0x5BA1, 0x67E5, 0x7ED3, 0x679C, 0xFF08, 0x672A, 0x91CD, 0x65B0, 0x5206, 0x6790, 0xFF0C, 0x7ED3, 0x679C, 0x4E0E, 0x4E0A, 0x6B21, 0x4E00, 0x81F4, 0xFF09]] else [])
          @ [summary_line an items] @ type_hint an @ [backfill_card]
          @ (if an_documents an = [] then [] else [document_card (an_documents an)]) @ [panels], ws'))
         (buildReviewPanels h M_INTERNAL an items ws)))"

section \<open>Facts\<close>

lemma safe_overall [simp]: "safe_node A (summary_line an items)"
  by (simp add: summary_line_def sub_text_def Let_def js_inj split: prod.split)

lemma safe_document [simp]: "safe_node A (document_row d)"
  by (simp add: document_row_def parse_badge_def js_inj split: option.split)

lemma safe_parts [simp]: "safe_node A (document_card ds)" "safe_node A (cache_hint t)" "safe_node A backfill_card"
  "n \<in> set (type_hint an) \<Longrightarrow> safe_node A n"
  by (auto simp: document_card_def cache_hint_def backfill_card_def type_hint_def js_inj split: if_splits)

definition code_texts :: "host \<Rightarrow> jstr set" where
  "code_texts h = icon_texts (native h) \<union> donut_texts (num h)"

lemma safe_content:
  assumes "buildPanelContent h name items ws = Inr (c, ws')" "n \<in> set (content_node c)"
  shows "safe_node (code_texts h) n"
proof (cases "name = M_INTERNAL")
  case True
  then obtain p where p: "build_control_view items ws = Inr (p, ws')" "c = ControlContent p"
    using assms(1) by (auto simp: buildPanelContent_def map_sum_def split: sum.splits)
  have "safe_node (code_texts h) (control_panel_node p)"
    by (rule safe_control_panel) (use p(1) in \<open>auto intro: safe_control_view split: option.split\<close>)
  then show ?thesis using assms(2) p(2) by (simp add: content_node_def)
next
  case False
  then show ?thesis
    using assms safe_reasonableness [of items n "code_texts h"]
    by (auto simp: buildPanelContent_def content_node_def code_texts_def safe_risk safe_credit
        map_sum_def split: if_splits sum.splits)
qed

lemma safe_new_tabs: "list_all (safe_node A) (pv_tabs new_panels)"
  by (simp add: new_panels_def new_panel_tab_def js_inj list_all_iff)

lemma safe_panels:
  assumes "buildReviewPanels h current an items ws = Inr (n, ws')"
  shows "safe_node (code_texts h) n"
proof -
  obtain grouped c where g: "panel_groups items = Inr grouped"
    and c: "buildPanelContent h current (panel_items current items grouped) ws = Inr (c, ws')"
    using assms by (auto simp: buildReviewPanels_def renderPanel_def map_sum_def split: sum.splits)
  define pv where "pv = \<lparr>pv_current = current, pv_tabs = toggle_tabs ''data-panel'' current (pv_tabs new_panels), pv_content = c\<rparr>"
  have tabs: "list_all (safe_node (code_texts h)) (pv_tabs pv)"
    by (simp add: pv_def toggle_tabs_safe safe_new_tabs)
  have "safe_node (code_texts h) (host_node pv)"
    using safe_content [OF c] by (auto simp: host_node_def pv_def js_inj intro!: safe_refill)
  with tabs show ?thesis
    using assms by (auto simp: buildReviewPanels_def renderPanel_def g c pv_def [symmetric] js_inj list_all_iff)
qed

lemma panels_render:
  assumes "reviewItems (Some rr) = Inr items" "name \<in> set REVIEW_PANELS" "panel_groups items = Inr grouped"
  shows "\<exists>n ws'. buildPanelContent h name (panel_items name items grouped) ws = Inr (n, ws')"
proof -
  have ok: "\<forall>it \<in> set (controlItems items). verdict_ok it"
    using reviewItems_ok [OF assms(1)] by (simp add: controlItems_def)
  obtain g where g: "group_into VERDICT_ORDER itemVerdict (controlItems items) = Inr g"
    using controls.group_into_eq [OF ok] by blast
  obtain b where b: "group_into BUCKETS reasonablenessBucket (reason_source items) = Inr b"
    using buckets.group_into_eq [of "reason_source items"] by blast
  have "\<exists>p ws'. build_control_view items ws = Inr (p, ws')"
    using g by (auto simp: build_control_view_def Let_def split: prod.split)
  moreover have "\<exists>c. buildReasonablenessPanel items = Inr c"
    using b by (simp add: buildReasonablenessPanel_def)
  ultimately show ?thesis
    by (auto simp: buildPanelContent_def panel_items_def reasonableness_node_def)
qed

lemma panels_open:
  assumes "reviewItems (Some rr) = Inr items" "name \<in> set REVIEW_PANELS"
  shows "\<exists>n ws'. buildReviewPanels h name an items ws = Inr (n, ws')"
proof -
  obtain grouped where g: "panel_groups items = Inr grouped"
    using modules.group_into_eq [of items] by (auto simp: panel_groups_def)
  from panels_render [OF assms g, where h = h and ws = ws] show ?thesis
    by (auto simp: buildReviewPanels_def g renderPanel_def)
qed

lemma view_drawn:
  assumes "reviewItems (Some rr) = Inr items" "an_result an = Some rr"
  shows "\<exists>ns ws'. renderReviewViews h t an ws = Inr (ns, ws')"
  using panels_open [OF assms(1), of M_INTERNAL h an ws]
  by (auto simp: renderReviewViews_def assms REVIEW_PANELS_def)

section \<open>The tabs\<close>

text \<open>What holds of the control panel and of the panels after every click.\<close>

definition verdict_rules :: "item list \<Rightarrow> jstr \<Rightarrow> item list" where
  "verdict_rules items v = filter (\<lambda>it. itemVerdict it = v) (controlItems items)"

definition control_ok :: "item list \<Rightarrow> control_view \<Rightarrow> bool" where
  "control_ok items cv \<longleftrightarrow> tab_row ''data-verdict'' VERDICT_ORDER (cw_tabs cv)
     \<and> map text_of (cw_tabs cv) = map (\<lambda>v. v @ [32] @ dec (length (verdict_rules items v))) VERDICT_ORDER
     \<and> cp_groups (cw_panel cv) = map (\<lambda>v. (v, verdict_rules items v)) VERDICT_ORDER \<and> is_element (cw_list cv)"

definition control_shown :: "item list \<Rightarrow> control_view \<Rightarrow> workspace \<Rightarrow> bool" where
  "control_shown items cv ws \<longleftrightarrow> control_ok items cv \<and> cp_current (cw_panel cv) \<in> set VERDICT_ORDER
     \<and> map (\<lambda>t. (map_of (attrs_of t) (js ''data-verdict''), has_class (js ''active'') t)) (cw_tabs cv)
         = map (\<lambda>v. (Some v, v = cp_current (cw_panel cv))) VERDICT_ORDER
     \<and> kids (cw_list cv) = [control_list_node (verdict_rules items (cp_current (cw_panel cv)))]
     \<and> controlVerdict ws = cp_current (cw_panel cv)"

lemma tab_class [simp]:
  "has_class (js ''tab'') (el (js ''button'') [att ''type'' (js ''button''), (js ''class'', AStr (js ''tab'' @ 32 # c)), att ''data-verdict'' v, tx t] [])"
  "has_class (js ''tab'') (el (js ''button'') [att ''type'' (js ''button''), kl ''tab'', att ''data-panel'' v, tx t] [])"
  by (simp_all add: has_class_def class_tokens_def el_def js_eval)

lemma new_tabs:
  "tab_named ''data-panel'' n (new_panel_tab n)" "tab_named ''data-verdict'' v (new_verdict_tab grouped v)"
  "text_of (new_verdict_tab grouped v) = v @ [32] @ dec (length (column grouped v))"
proof -
  have t: "text_of (el tg [a, b, c, tx s] [] :: panel_click node) = s" if "no_content [a, b, c]" for tg a b c s
    using text_of_el_text [OF that, of tg s] by simp
  have c: "js ''tab verdict-tab '' @ c = js ''tab'' @ 32 # (js ''verdict-tab '' @ c)" for c by (simp add: js_eval)
  show "tab_named ''data-panel'' n (new_panel_tab n)" "tab_named ''data-verdict'' v (new_verdict_tab grouped v)"
    by (simp_all add: tab_named_def new_panel_tab_def new_verdict_tab_def c el_fields js_inj)
  show "text_of (new_verdict_tab grouped v) = v @ [32] @ dec (length (column grouped v))"
    by (simp add: new_verdict_tab_def t js_inj)
qed

lemma tab_row_new: "(\<And>n. tab_named a n (f n)) \<Longrightarrow> tab_row a ns (map f ns)"
  by (simp add: tab_row_def list_all2_conv_all_nth)

lemma tab_row_name: "tab_row a ns ts \<Longrightarrow> i < length ts \<Longrightarrow> tab_name a (ts ! i) \<in> set ns"
  by (auto simp: tab_row_def tab_name_def tab_named_def list_all2_conv_all_nth)

lemma new_control_ok:
  "control_ok items (new_control_view (map (\<lambda>v. (v, verdict_rules items v)) VERDICT_ORDER))"
proof -
  have "column (map (\<lambda>v. (v, verdict_rules items v)) VERDICT_ORDER) v = verdict_rules items v" if "v \<in> set VERDICT_ORDER" for v
    using column_control [OF that, of "controlItems items"] by (simp add: verdict_rules_def)
  then show ?thesis
    by (simp add: control_ok_def new_control_view_def tab_row_new new_tabs)
qed

lemma show_verdict_ok:
  assumes "control_ok items cv" "name \<in> set VERDICT_ORDER" "show_verdict name (cv, ws) = (cv', ws')"
  shows "control_shown items cv' ws'"
proof -
  have "column (cp_groups (cw_panel cv)) name = verdict_rules items name"
    using assms(1) column_control [OF assms(2), of "controlItems items"] by (simp add: control_ok_def verdict_rules_def)
  moreover have "tab_row ''data-verdict'' VERDICT_ORDER (cw_tabs cv)" using assms(1) by (simp add: control_ok_def)
  ultimately show ?thesis
    using assms toggle_tabs_row toggle_tabs_active
    by (auto simp: control_shown_def control_ok_def show_verdict_def renderVerdict_def toggle_tabs_text)
qed

lemma default_tab_range: "default_tab (map (\<lambda>v. (v, f v)) VERDICT_ORDER) cur \<in> set VERDICT_ORDER"
proof -
  have "cur \<in> set VERDICT_ORDER" if "column (map (\<lambda>v. (v, f v)) VERDICT_ORDER) cur \<noteq> []"
    using that column_outside [of cur VERDICT_ORDER f] by blast
  moreover have "hd VERDICT_ORDER \<in> set VERDICT_ORDER" by (simp add: VERDICT_ORDER_def)
  ultimately show ?thesis
    by (auto simp: default_tab_def dest: find_js_Some split: option.split)
qed

lemma control_drawn:
  assumes "\<forall>it \<in> set items. verdict_ok it"
  shows "\<exists>p ws'. build_control_view items ws = Inr (p, ws') \<and> (\<forall>cv. p = Some cv \<longrightarrow> control_shown items cv ws')"
proof (cases "controlItems items = []")
  case True
  then show ?thesis by (simp add: build_control_view_def)
next
  case False
  define grouped where "grouped = map (\<lambda>v. (v, verdict_rules items v)) VERDICT_ORDER"
  obtain cv ws' where s: "show_verdict (default_tab grouped (controlVerdict ws)) (new_control_view grouped, ws) = (cv, ws')"
    by (cases "show_verdict (default_tab grouped (controlVerdict ws)) (new_control_view grouped, ws)")
  then have "control_shown items cv ws'"
    using show_verdict_ok new_control_ok default_tab_range unfolding grouped_def by blast
  moreover have "build_control_view items ws = Inr (Some cv, ws')"
    using False s control_groups [OF assms]
    by (simp add: build_control_view_def grouped_def verdict_rules_def)
  ultimately show ?thesis by simp
qed

text \<open>The panels: \<open>pl\<close> is the list a panel is built from.\<close>

definition content_ok :: "host \<Rightarrow> item list \<Rightarrow> item list \<Rightarrow> panels_view \<Rightarrow> workspace \<Rightarrow> bool" where
  "content_ok h items pl pv ws \<longleftrightarrow> (case pv_content pv of
     ControlContent (Some cv) \<Rightarrow> pv_current pv = M_INTERNAL \<and> control_shown items cv ws
   | c \<Rightarrow> (\<exists>w w'. buildPanelContent h (pv_current pv) pl w = Inr (c, w')))"

definition panels_ok :: "host \<Rightarrow> item list \<Rightarrow> (jstr \<times> item list) list \<Rightarrow> panels_view \<Rightarrow> workspace \<Rightarrow> bool" where
  "panels_ok h items grouped pv ws \<longleftrightarrow> tab_row ''data-panel'' REVIEW_PANELS (pv_tabs pv) \<and> pv_current pv \<in> set REVIEW_PANELS
     \<and> map (\<lambda>t. (map_of (attrs_of t) (js ''data-panel''), has_class (js ''active'') t)) (pv_tabs pv)
         = map (\<lambda>n. (Some n, n = pv_current pv)) REVIEW_PANELS
     \<and> content_ok h items (panel_items (pv_current pv) items grouped) pv ws"

lemma panel_drawn:
  assumes "reviewItems (Some rr) = Inr items" "panel_groups items = Inr grouped"
    and "tab_row ''data-panel'' REVIEW_PANELS (pv_tabs pv)" "name \<in> set REVIEW_PANELS"
  shows "\<exists>pv' ws'. renderPanel h items grouped name (pv, ws) = Inr (pv', ws') \<and> panels_ok h items grouped pv' ws'"
proof -
  obtain c ws' where c: "buildPanelContent h name (panel_items name items grouped) ws = Inr (c, ws')"
    using panels_render [OF assms(1,4,2)] by blast
  define pv' where "pv' = \<lparr>pv_current = name, pv_tabs = toggle_tabs ''data-panel'' name (pv_tabs pv), pv_content = c\<rparr>"
  have r: "renderPanel h items grouped name (pv, ws) = Inr (pv', ws')" by (simp add: renderPanel_def c pv'_def)
  have "content_ok h items (panel_items name items grouped) pv' ws'"
  proof (cases "\<exists>cv. c = ControlContent (Some cv)")
    case True
    then obtain cv where cv: "c = ControlContent (Some cv)" ..
    then have "name = M_INTERNAL" "build_control_view items ws = Inr (Some cv, ws')"
      using c by (auto simp: buildPanelContent_def panel_items_def map_sum_def split: if_splits sum.splits)
    with control_drawn [OF reviewItems_ok [OF assms(1)], of ws] cv show ?thesis
      by (auto simp: content_ok_def pv'_def)
  next
    case False
    with c show ?thesis by (auto simp: content_ok_def pv'_def split: panel_content.split option.split)
  qed
  then have "panels_ok h items grouped pv' ws'"
    using assms(3,4) by (simp add: panels_ok_def pv'_def toggle_tabs_row toggle_tabs_active)
  with r show ?thesis by blast
qed

lemma tab_clicked:
  assumes "reviewItems (Some rr) = Inr items" "panel_groups items = Inr grouped" "panels_ok h items grouped pv ws"
  shows "\<exists>pv' ws'. click_tab h items grouped ev (pv, ws) = Inr (pv', ws') \<and> panels_ok h items grouped pv' ws'"
proof (cases ev)
  case (ClickPanel i)
  have row: "tab_row ''data-panel'' REVIEW_PANELS (pv_tabs pv)" using assms(3) by (simp add: panels_ok_def)
  show ?thesis
    using panel_drawn [OF assms(1,2) row tab_row_name [OF row]] assms(3)
    by (auto simp: click_tab_def ClickPanel)
next
  case (ClickVerdict i)
  show ?thesis
  proof (cases "\<exists>cv. pv_content pv = ControlContent (Some cv) \<and> i < length (cw_tabs cv)")
    case True
    then obtain cv where cv: "pv_content pv = ControlContent (Some cv)" "i < length (cw_tabs cv)" by blast
    obtain cv' ws' where s: "show_verdict (tab_name ''data-verdict'' (cw_tabs cv ! i)) (cv, ws) = (cv', ws')"
      by (cases "show_verdict (tab_name ''data-verdict'' (cw_tabs cv ! i)) (cv, ws)")
    have old: "pv_current pv = M_INTERNAL" "control_ok items cv"
      using assms(3) cv(1) by (simp_all add: panels_ok_def content_ok_def control_shown_def)
    then have "control_shown items cv' ws'"
      using show_verdict_ok [OF old(2) tab_row_name s] cv(2) by (simp add: control_ok_def)
    then have "panels_ok h items grouped (pv\<lparr>pv_content := ControlContent (Some cv')\<rparr>) ws'"
      using assms(3) old(1) by (simp add: panels_ok_def content_ok_def)
    then show ?thesis using cv s by (simp add: click_tab_def ClickVerdict)
  next
    case False
    then have "click_tab h items grouped ev (pv, ws) = Inr (pv, ws)"
      by (auto simp: click_tab_def ClickVerdict split: panel_content.split option.split)
    with assms(3) show ?thesis by blast
  qed
qed

lemma tabs_clicked:
  assumes "reviewItems (Some rr) = Inr items" "panel_groups items = Inr grouped"
  shows "panels_ok h items grouped pv ws \<Longrightarrow>
    \<exists>pv' ws'. click_tabs h items grouped evs (pv, ws) = Inr (pv', ws') \<and> panels_ok h items grouped pv' ws'"
proof (induction evs arbitrary: pv ws)
  case (Cons ev evs)
  from tab_clicked [OF assms Cons.prems, of ev] obtain pv1 ws1
    where s: "click_tab h items grouped ev (pv, ws) = Inr (pv1, ws1)" "panels_ok h items grouped pv1 ws1" by blast
  from Cons.IH [OF s(2)] s(1) show ?case by simp
qed simp

section \<open>An answer, for evaluation\<close>

definition demo_host :: host where
  "demo_host = \<lparr>native = (\<lambda>_. js ''function''), num = (\<lambda>_. js ''0''), parse_time = (\<lambda>_. None)\<rparr>"

definition demo_answer :: review_answer where
  "demo_answer = \<lparr>an_result = Some demo_review, an_cached = False, an_overall = Some (js ''WARN''), an_generated = None,
     an_run_status = Some (js ''FINALIZED''), an_fingerprint = None, an_rule_version = None, an_model_version = None,
     an_documents = [], an_type_name = None, an_type_basis = None, an_declared_type = None, an_package_id = None\<rparr>"

section \<open>Properties\<close>

text \<open>C12: no text of the server reaches the page of a review as markup: every piece of raw HTML in what
  is drawn, whichever panel is open, is one of the icons and charts written in the code, the text of a
  member of the object prototype, or the escaped answer, which contains no character of a tag.\<close>

theorem review_markup_safe:
  assumes "renderReviewViews h t an ws = Inr (ns, ws')"
  shows "(\<forall>n \<in> set ns. set (raw_of n) \<subseteq> code_texts h \<union> {escapeHtml (Some t)})
     \<and> set (escapeHtml (Some t)) \<inter> {60, 62, 34, 39} = {}
     \<and> (\<forall>name items ws c ws' n. buildPanelContent h name items ws = Inr (c, ws') \<and> n \<in> set (content_node c)
          \<longrightarrow> set (raw_of n) \<subseteq> code_texts h)"
proof -
  have raw: "safe_node {escapeHtml (Some t)} (raw_answer t)"
    by (simp add: safe_node_def raw_answer_def el_def set_html_def set_text_def Let_def js_inj)
  have "safe_node (code_texts h \<union> {escapeHtml (Some t)}) n" if n: "n \<in> set ns" for n
  proof (cases "an_result an")
    case None
    then show ?thesis using assms n raw by (auto simp: renderReviewViews_def safe_node_def)
  next
    case (Some rr)
    then obtain items where items: "reviewItems (Some rr) = Inr items"
      using assms by (auto simp: renderReviewViews_def split: sum.splits)
    obtain panels wp where p: "buildReviewPanels h M_INTERNAL an items ws = Inr (panels, wp)"
      using assms Some items by (auto simp: renderReviewViews_def map_sum_def split: sum.splits)
    have "n = panels \<or> safe_node (code_texts h) n"
      using n assms by (auto simp: renderReviewViews_def Some items p split: if_splits)
    then show ?thesis using safe_panels [OF p] by (auto simp: safe_node_def)
  qed
  then show ?thesis
    using html_entity_safe safe_content by (fastforce simp: safe_node_def escapeHtml_def)
qed

theorem review_markup_safe_witness:
  "\<exists>ns ws'. renderReviewViews demo_host (js ''<b>'') demo_answer init_workspace = Inr (ns, ws')
    \<and> (\<forall>n \<in> set ns. set (raw_of n) \<subseteq> code_texts demo_host \<union> {js ''&lt;b&gt;''})"
proof -
  have "an_result demo_answer = Some demo_review" by (simp add: demo_answer_def)
  from view_drawn [OF demo_run this, where h = demo_host and t = "js ''<b>''" and ws = init_workspace] obtain ns ws'
    where drawn: "renderReviewViews demo_host (js ''<b>'') demo_answer init_workspace = Inr (ns, ws')" by blast
  have "escapeHtml (Some (js ''<b>'')) = js ''&lt;b&gt;''" by (simp add: escapeHtml_def html_entity_def js_eval)
  then show ?thesis using drawn review_markup_safe [OF drawn] by auto
qed

text \<open>C15: a review is drawn, and every panel can be opened, whenever its checklist can be built: no tab,
  verdict or column of the panels raises.\<close>

theorem review_renders:
  assumes "reviewItems (Some rr) = Inr items" "an_result an = Some rr"
  shows "(\<exists>ns ws'. renderReviewViews h t an ws = Inr (ns, ws'))
     \<and> (\<forall>name \<in> set REVIEW_PANELS. \<exists>n ws'. buildReviewPanels h name an items ws = Inr (n, ws'))"
  using panels_open [OF assms(1)] view_drawn [OF assms] by blast

theorem review_renders_witness:
  "\<exists>ns ws'. renderReviewViews demo_host [] demo_answer init_workspace = Inr (ns, ws')"
  using review_renders [OF demo_run, of demo_answer demo_host "[]" init_workspace] by (simp add: demo_answer_def)

text \<open>C16: the tabs tell what is shown, after any clicks on the panel tabs and on the verdict tabs of the
  control panel. The buttons are the ones created with the panels, and each click only switches their
  class; still exactly the tab of the open panel is active, the host holds that panel's content, and when
  it is the control panel, exactly one verdict tab is active, it is the one whose rules are listed and
  the one that is remembered, and every verdict tab bears the number of its rules. No click raises.\<close>

theorem tabs_follow_content:
  assumes "reviewItems (Some rr) = Inr items" "panel_groups items = Inr grouped"
  shows "\<exists>s0 pv ws. renderPanel h items grouped M_INTERNAL (new_panels, ws0) = Inr s0
    \<and> click_tabs h items grouped evs s0 = Inr (pv, ws)
    \<and> pv_current pv \<in> set REVIEW_PANELS
    \<and> map (\<lambda>t. (map_of (attrs_of t) (js ''data-panel''), has_class (js ''active'') t)) (pv_tabs pv)
        = map (\<lambda>n. (Some n, n = pv_current pv)) REVIEW_PANELS
    \<and> (case pv_content pv of
        ControlContent (Some cv) \<Rightarrow> pv_current pv = M_INTERNAL \<and> (\<exists>v. v \<in> set VERDICT_ORDER \<and> controlVerdict ws = v
          \<and> map (\<lambda>t. (map_of (attrs_of t) (js ''data-verdict''), has_class (js ''active'') t)) (cw_tabs cv)
              = map (\<lambda>u. (Some u, u = v)) VERDICT_ORDER
          \<and> map text_of (cw_tabs cv) = map (\<lambda>u. u @ [32] @ dec (length (verdict_rules items u))) VERDICT_ORDER
          \<and> kids (cw_list cv) = [control_list_node (verdict_rules items v)])
      | c \<Rightarrow> (\<exists>w w'. buildPanelContent h (pv_current pv) (panel_items (pv_current pv) items grouped) w = Inr (c, w')))"
proof -
  have row: "tab_row ''data-panel'' REVIEW_PANELS (pv_tabs new_panels)"
    by (simp add: new_panels_def tab_row_new new_tabs)
  have m: "M_INTERNAL \<in> set REVIEW_PANELS" by (simp add: REVIEW_PANELS_def)
  from panel_drawn [OF assms row m] obtain pv0 ws1
    where r: "renderPanel h items grouped M_INTERNAL (new_panels, ws0) = Inr (pv0, ws1)" "panels_ok h items grouped pv0 ws1" by blast
  from tabs_clicked [OF assms r(2)] obtain pv ws
    where c: "click_tabs h items grouped evs (pv0, ws1) = Inr (pv, ws)" "panels_ok h items grouped pv ws" by blast
  have "case pv_content pv of
        ControlContent (Some cv) \<Rightarrow> pv_current pv = M_INTERNAL \<and> (\<exists>v. v \<in> set VERDICT_ORDER \<and> controlVerdict ws = v
          \<and> map (\<lambda>t. (map_of (attrs_of t) (js ''data-verdict''), has_class (js ''active'') t)) (cw_tabs cv)
              = map (\<lambda>u. (Some u, u = v)) VERDICT_ORDER
          \<and> map text_of (cw_tabs cv) = map (\<lambda>u. u @ [32] @ dec (length (verdict_rules items u))) VERDICT_ORDER
          \<and> kids (cw_list cv) = [control_list_node (verdict_rules items v)])
      | c \<Rightarrow> (\<exists>w w'. buildPanelContent h (pv_current pv) (panel_items (pv_current pv) items grouped) w = Inr (c, w'))"
    using c(2) by (auto simp: panels_ok_def content_ok_def control_shown_def control_ok_def split: panel_content.splits option.splits)
  with r(1) c show ?thesis
    by (intro exI [of _ "(pv0, ws1)"] exI [of _ pv] exI [of _ ws]) (simp add: panels_ok_def)
qed

theorem tabs_follow_content_witness:
  "\<exists>grouped s0 pv ws. renderPanel demo_host demo_items grouped M_INTERNAL (new_panels, init_workspace) = Inr s0
    \<and> click_tabs demo_host demo_items grouped [ClickPanel 2, ClickPanel 0, ClickVerdict 2] s0 = Inr (pv, ws)
    \<and> length (filter (has_class (js ''active'')) (pv_tabs pv)) = 1"
proof -
  obtain grouped where g: "panel_groups demo_items = Inr grouped"
    using modules.group_into_eq [of demo_items] by (auto simp: panel_groups_def)
  from tabs_follow_content [OF demo_run g] obtain s0 pv ws
    where r: "renderPanel demo_host demo_items grouped M_INTERNAL (new_panels, init_workspace) = Inr s0"
      "click_tabs demo_host demo_items grouped [ClickPanel 2, ClickPanel 0, ClickVerdict 2] s0 = Inr (pv, ws)"
      and cur: "pv_current pv \<in> set REVIEW_PANELS"
      and tabs: "map (\<lambda>t. (map_of (attrs_of t) (js ''data-panel''), has_class (js ''active'') t)) (pv_tabs pv)
        = map (\<lambda>n. (Some n, n = pv_current pv)) REVIEW_PANELS"
    by blast
  have "map (has_class (js ''active'')) (pv_tabs pv) = map (\<lambda>n. n = pv_current pv) REVIEW_PANELS"
    using arg_cong [OF tabs, of "map snd"] by (simp add: comp_def)
  moreover have "length (filter P xs) = length (filter id (map P xs))" for P and xs :: "'x list"
    by (induction xs) simp_all
  ultimately have "length (filter (has_class (js ''active'')) (pv_tabs pv)) = length (filter (\<lambda>n. n = pv_current pv) REVIEW_PANELS)"
    by metis
  also have "\<dots> = 1"
    using cur unfolding REVIEW_PANELS_def module_texts set_simps insert_iff by (elim disjE) simp_all
  finally show ?thesis using r by blast
qed

end
