(* ===== verification/RuleViews.thy ===== *)
theory RuleViews
  imports RulesPage Markup
begin

text \<open>
  The markup of the rule engine page: the rule table (\<open>buildApprovalRuleTable\<close>), the pager bar
  (\<open>buildTablePager\<close>), the score matrix with its row spans (\<open>buildScoreMatrixCard\<close>), a pack of rules
  (\<open>buildRulePack\<close>) with its two pagers, and the page (\<open>loadAiRules\<close>). A listener is labelled by the call
  it makes; the numbers, slices and buttons are those of \<open>RulesPage\<close>.
\<close>

datatype rule_click =
    OpenRule rule_row "jstr option"
  | NewRule jstr "jstr option"
  | DeleteRule rule_row
  | ConfirmRule rule_row
  | ToggleRule rule_row bool
  | ReloadRules
  | ClickPager jstr pager_click
  | ChangeSize jstr

section \<open>The rule table\<close>

definition rule_head :: "jstr option \<Rightarrow> rule_click node" where
  "rule_head col = el (js ''tr'') []
     [CNode (el (js ''th'') [kl ''col-index'', tx []] []), CNode (el (js ''th'') [tx [0x89C4, 0x5219, 0x7F16, 0x53F7]] []),
      CNode (el (js ''th'') [tx [0x89C4, 0x5219, 0x540D, 0x79F0]] []),
      child_if (truthy col) (el (js ''th'') [tx (str_or col [])] []),
      CNode (el (js ''th'') [tx [0x662F, 0x5426, 0x542F, 0x7528]] []), CNode (el (js ''th'') [tx [0x64CD, 0x4F5C]] [])]"

text \<open>The row with number \<open>i\<close>.\<close>

definition rule_row_node :: "jstr option \<Rightarrow> nat \<Rightarrow> rule_row \<Rightarrow> rule_click node" where
  "rule_row_node col i r = (let enabled = (\<not> isDraft r \<and> isRuleEnabled r) in
     el (js ''tr'') []
      [CNode (el (js ''td'') [kl ''muted'', tx (dec i)] []),
       CNode (el (js ''td'') [kl ''mono'', tx (str_or (ru_code r) (js ''-''))] []),
       CNode (el (js ''td'') []
         [CNode (el (js ''div'') [kl ''rule-title'', (js ''text'', nullable (ru_title r))] []),
          child_if (isDraft r) (el (js ''span'') [kl ''badge orange'', tx [0x5F85, 0x786E, 0x8BA4]] [])]),
       child_if (truthy col) (el (js ''td'') [kl ''rule-condition'', tx (str_or (ru_condition r) (js ''-''))] []),
       CNode (el (js ''td'') [] [CNode (el (js ''button'')
         [(js ''class'', AStr (js ''enable-toggle'' @ (if enabled then js '' on'' else []) @ (if isDraft r then js '' draft-confirm'' else []))),
          tx (if isDraft r then [0x786E, 0x8BA4, 0x542F, 0x7528] else if enabled then [0x662F] else [0x5426]),
          on_click (if isDraft r then ConfirmRule r else ToggleRule r (\<not> enabled))] [])]),
       CNode (el (js ''td'') []
         [CNode (el (js ''button'') [kl ''link-btn'', tx [0x7F16, 0x8F91], on_click (OpenRule r col)] []),
          CNode (el (js ''button'') [kl ''link-btn danger'', tx [0x5220, 0x9664], on_click (DeleteRule r)] [])])])"

definition buildApprovalRuleTable :: "rule_row list \<Rightarrow> nat \<Rightarrow> jstr option \<Rightarrow> rule_click node" where
  "buildApprovalRuleTable rules start col = el (js ''table'') [kl ''table rule-engine-table'']
     [CNode (el (js ''thead'') [] [CNode (rule_head col)]),
      CNode (el (js ''tbody'') [] [nodes (\<lambda>(i, r). rule_row_node col i r) (enumerate (start + 1) rules)])]"

section \<open>The pager bar\<close>

definition pager_size_option :: "pager \<Rightarrow> int \<Rightarrow> rule_click node" where
  "pager_size_option p n = el (js ''option'') [att ''value'' (dec_int n), tx (dec_int n @ [0x6761, 0x002F, 0x9875]),
     flag ''selected'' (pager_size p = n)] []"

text \<open>\<open>key\<close> names the pager in \<open>aiRulesState.pager\<close>.\<close>

definition pager_node :: "jstr \<Rightarrow> pager \<Rightarrow> int \<Rightarrow> rule_click node" where
  "pager_node key p cnt = (let bar = buildTablePager p cnt in
     el (js ''div'') [kl ''table-pager'']
      [CNode (el (js ''span'') [kl ''pager-info'', tx ([0x663E, 0x793A, 0x0020] @ dec_int (pb_from bar) @ [0x0020, 0x5230, 0x0020] @ dec_int (pb_to bar)
         @ [0x0020, 0x6761, 0xFF0C, 0x5171, 0x0020] @ dec_int cnt @ [0x0020, 0x6761])] []),
       CNode (el (js ''div'') [kl ''pager-controls'']
        [CNode (el (js ''select'') [kl ''pager-size'', (js ''onchange'', AFun (ChangeSize key))]
           [nodes (pager_size_option p) RULE_PAGE_SIZES]),
         CNode (el (js ''button'') [kl ''pager-btn'', tx [0x2039], flag ''disabled'' (pb_prev_disabled bar), on_click (ClickPager key Prev)] []),
         nodes (\<lambda>(i, n). el (js ''button'')
           [(js ''class'', AStr (js ''pager-btn'' @ (if n = pager_page p then js '' active'' else []))), tx (dec_int n),
            on_click (ClickPager key (Goto i))] []) (enumerate 0 (pb_numbers bar)),
         CNode (el (js ''button'') [kl ''pager-btn'', tx [0x203A], flag ''disabled'' (pb_next_disabled bar), on_click (ClickPager key Next)] [])])])"

section \<open>The score matrix\<close>

definition matrix_row_node :: "matrix_row \<Rightarrow> rule_click node" where
  "matrix_row_node m = (let r = mx_rule m in el (js ''tr'') []
     [CNode (el (js ''td'') [kl ''muted col-index'', tx (dec_int (mx_no m))] []),
      (case mx_group m of None \<Rightarrow> CList []
       | Some (name, n) \<Rightarrow> CNode (el (js ''td'') [kl ''score-group'', att ''rowspan'' (dec n), tx name] [])),
      CNode (el (js ''td'') [(js ''text'', nullable (ru_title r))] []),
      CNode (el (js ''td'') [kl ''score-weight'', tx (dec (case ru_weight r of None \<Rightarrow> 10 | Some w \<Rightarrow> w))] []),
      CNode (el (js ''td'') [kl ''score-high'', tx (str_or (ru_high r) (js ''-''))] []),
      CNode (el (js ''td'') [kl ''score-mid'', tx (str_or (ru_mid r) (js ''-''))] []),
      CNode (el (js ''td'') [kl ''score-low'', tx (str_or (ru_low r) (js ''-''))] [])])"

definition matrix_letters :: "rule_click node" where
  "matrix_letters = el (js ''tr'') [kl ''score-letters'']
     [CNode (el (js ''th'') [kl ''col-index''] []), nodes (\<lambda>c. el (js ''th'') [tx [c]] []) [65, 66, 67, 68, 69, 70]]"

definition matrix_titles :: "rule_click node" where
  "matrix_titles = el (js ''tr'') []
     [CNode (el (js ''th'') [kl ''col-index'', tx (js ''1'')] []),
      nodes (\<lambda>t. el (js ''th'') [tx t] []) [[0x68C0, 0x67E5, 0x7EF4, 0x5EA6], [0x89C4, 0x5219, 0x540D, 0x79F0], [0x6743, 0x91CD],
        [0x9AD8, 0x5206, 0x6807, 0x51C6, 0x0020, 0x0028, 0x0038, 0x002D, 0x0031, 0x0030, 0x0020, 0x5206, 0x0029], [0x4E2D, 0x7B49, 0x6807, 0x51C6, 0x0020, 0x0028, 0x0034, 0x002D, 0x0037, 0x0020, 0x5206, 0x0029], [0x4F4E, 0x5206, 0x6807, 0x51C6, 0x0020, 0x0028, 0x0030, 0x002D, 0x0033, 0x0020, 0x5206, 0x0029]]]"

definition matrix_table :: "matrix_row list \<Rightarrow> rule_click node" where
  "matrix_table rows = el (js ''table'') [kl ''table score-matrix'']
     [CNode (el (js ''thead'') [] [CNode matrix_letters, CNode matrix_titles]),
      CNode (el (js ''tbody'') [] [nodes matrix_row_node rows])]"

section \<open>Packs\<close>

record rule_pack =
  pk_mark :: jstr
  pk_title :: jstr
  pk_hint :: jstr
  pk_empty :: jstr
  pk_rules :: "rule_row list"
  pk_groups :: "rule_group list"
  pk_engineTitle :: jstr
  pk_engineHint :: jstr
  pk_guide :: jstr
  pk_defaultTopic :: jstr
  pk_hideCreate :: bool
  pk_conditionColumn :: "jstr option"

text \<open>A pager that was read is stored, and clamped in place by \<open>pagedSlice\<close>.\<close>

definition paged :: "jstr \<Rightarrow> 'a list \<Rightarrow> pager obj \<Rightarrow> pager \<times> 'a slice \<times> pager obj" where
  "paged key xs ps = (let (p, ps1) = rulePager key ps; (p', sl) = pagedSlice xs p in (p', sl, obj_put ps1 key p'))"

definition list_key :: "rule_pack \<Rightarrow> jstr" where "list_key pk = pk_mark pk @ js ''-list''"
definition matrix_key :: "rule_pack \<Rightarrow> jstr" where "matrix_key pk = pk_mark pk @ js ''-matrix''"

definition render_list :: "rule_pack \<Rightarrow> pager obj \<Rightarrow> rule_click node list \<times> pager obj" where
  "render_list pk ps = (let (p, sl, ps') = paged (list_key pk) (pk_rules pk) ps in
     (if pk_rules pk = [] then [muted (pk_empty pk)]
      else [el (js ''div'') [kl ''table-wrap'']
              [CNode (buildApprovalRuleTable (sl_rows sl) (nat (sl_start sl)) (pk_conditionColumn pk))],
            pager_node (list_key pk) p (sl_total sl)], ps'))"

definition render_matrix :: "rule_pack \<Rightarrow> pager obj \<Rightarrow> rule_click node list \<times> pager obj" where
  "render_matrix pk ps = (let rows = flattenScoreRows (pk_groups pk); (p, sl, ps') = paged (matrix_key pk) rows ps in
     (if rows = [] then [muted [0x6682, 0x65E0, 0x89C4, 0x5219, 0x53EF, 0x5C55, 0x793A, 0x3002]]
      else [el (js ''div'') [kl ''table-wrap'']
              [CNode (matrix_table (matrix_rows (sl_start sl + 2) (regroupScoreRows (sl_rows sl))))],
            pager_node (matrix_key pk) p (sl_total sl)], ps'))"

definition buildScoreMatrixCard :: "rule_pack \<Rightarrow> pager obj \<Rightarrow> rule_click node \<times> pager obj" where
  "buildScoreMatrixCard pk ps = (let (body, ps') = render_matrix pk ps in
     (el (js ''div'') [kl ''card'']
       [CNode (el (js ''div'') [kl ''card-title'']
          [CNode (el (js ''span'') [tx (pk_engineTitle pk)] []),
           CNode (el (js ''span'') [kl ''hint'', tx (pk_engineHint pk @ [0x0020, 0x00B7, 0x0020, 0x5171, 0x0020] @ dec (length (pk_rules pk)) @ [0x0020, 0x6761])] [])]),
        CNode (el (js ''div'') [kl ''score-guide'']
          [CNode (el (js ''b'') [tx [0x64CD, 0x4F5C, 0x6307, 0x5F15]] []), CNode (el (js ''span'') [tx (pk_guide pk)] [])]),
        CNode (append_kids (el (js ''div'') [kl ''score-matrix-host''] []) body)], ps'))"

definition buildRulePack :: "rule_pack \<Rightarrow> pager obj \<Rightarrow> rule_click node \<times> pager obj" where
  "buildRulePack pk ps = (let (body, ps1) = render_list pk ps; (card, ps2) = buildScoreMatrixCard pk ps1 in
     (el (js ''div'') [kl ''rule-pack'']
       [CNode (el (js ''div'') [kl ''card'']
          [CNode (el (js ''div'') [kl ''card-title'']
             [CNode (el (js ''span'') [kl ''rule-pack-mark'', tx (pk_mark pk)] []),
              CNode (el (js ''span'') [tx (pk_title pk)] []),
              CNode (el (js ''span'') [kl ''hint'', tx (pk_hint pk)] []),
              CNode (el (js ''span'') [kl ''grow''] []),
              child_if (\<not> pk_hideCreate pk) (el (js ''button'') [kl ''btn btn-primary btn-sm'', tx [0x65B0, 0x589E, 0x89C4, 0x5219],
                on_click (NewRule (pk_defaultTopic pk) (pk_conditionColumn pk))] []),
              CNode (el (js ''button'') [kl ''btn btn-secondary btn-sm'', tx [0x5237, 0x65B0], on_click ReloadRules] [])]),
           CNode (append_kids (el (js ''div'') [kl ''rule-table-host''] []) body)]),
        CNode card], ps2))"

section \<open>The page\<close>

text \<open>What \<open>loadAiRules\<close> reads of the answer: the topics, and per pack its rules and its groups. A pack
  without groups of its own is grouped here, which may raise.\<close>

record engine_answer =
  en_topics :: "jstr list option"
  en_approval :: "rule_row list"
  en_approval_groups :: "rule_group list option"
  en_ai :: "rule_row list"
  en_ai_groups :: "rule_group list option"

record rules_state =
  rs_topics :: "jstr list"
  rs_pagers :: "pager obj"

definition approval_pack :: "rule_row list \<Rightarrow> rule_group list \<Rightarrow> rule_pack" where
  "approval_pack rules gs = \<lparr>pk_mark = js ''HT'', pk_title = [0x5408, 0x540C, 0x68C0, 0x67E5, 0x6807, 0x51C6],
     pk_hint = [0x5171, 0x0020] @ dec (length rules) @ [0x0020, 0x6761], pk_empty = [0x6682, 0x65E0, 0x5408, 0x540C, 0x5BA1, 0x6279, 0x89C4, 0x5219, 0x3002, 0x670D, 0x52A1, 0x542F, 0x52A8, 0x540E, 0x4F1A, 0x5199, 0x5165, 0x68C0, 0x67E5, 0x6807, 0x51C6, 0xFF0C, 0x4E5F, 0x53EF, 0x624B, 0x52A8, 0x65B0, 0x589E, 0x3002],
     pk_rules = rules, pk_groups = gs, pk_engineTitle = [0x89C4, 0x5219, 0x5F15, 0x64CE], pk_engineHint = [0x6309, 0x68C0, 0x67E5, 0x7EF4, 0x5EA6, 0x5206, 0x7C7B, 0xFF0C, 0x5C55, 0x793A, 0x6743, 0x91CD, 0x548C, 0x9AD8, 0x4E2D, 0x4F4E, 0x5206, 0x6807, 0x51C6],
     pk_guide = [0x5217, 0x8868, 0x4E2D, 0x65B0, 0x589E, 0x3001, 0x7F16, 0x8F91, 0x3001, 0x542F, 0x7528, 0x6216, 0x5220, 0x9664, 0x540E, 0x7ACB, 0x5373, 0x751F, 0x6548, 0xFF0C, 0x89C4, 0x5219, 0x5F15, 0x64CE, 0x8BC4, 0x5206, 0x77E9, 0x9635, 0x540C, 0x6B65, 0x66F4, 0x65B0, 0x3002],
     pk_defaultTopic = [0x5408, 0x89C4, 0x6027, 0x002F, 0x4EA4, 0x4ED8, 0x95EE, 0x9898], pk_hideCreate = False, pk_conditionColumn = None\<rparr>"

definition ai_pack :: "rule_row list \<Rightarrow> rule_group list \<Rightarrow> rule_pack" where
  "ai_pack rules gs = \<lparr>pk_mark = js ''AI'', pk_title = [0x0041, 0x0049, 0x0020, 0x81EA, 0x8FDB, 0x5316, 0x89C4, 0x5219],
     pk_hint = [0x5171, 0x0020] @ dec (length rules) @ [0x0020, 0x6761, 0x0020, 0x00B7, 0x0020, 0x5BA1, 0x67E5, 0x540E, 0x7531, 0x6A21, 0x578B, 0x63D0, 0x70BC, 0xFF0C, 0x5F85, 0x786E, 0x8BA4, 0x540E, 0x751F, 0x6548],
     pk_empty = [0x6682, 0x65E0, 0x0020, 0x0041, 0x0049, 0x0020, 0x89C4, 0x5219, 0x3002, 0x5B8C, 0x6210, 0x4E00, 0x6B21, 0x5408, 0x540C, 0x5BA1, 0x67E5, 0x540E, 0xFF0C, 0x6A21, 0x578B, 0x63D0, 0x70BC, 0x7684, 0x68C0, 0x67E5, 0x70B9, 0x4F1A, 0x51FA, 0x73B0, 0x5728, 0x8FD9, 0x91CC, 0x3002],
     pk_rules = rules, pk_groups = gs, pk_engineTitle = [0x0041, 0x0049, 0x0020, 0x89C4, 0x5219, 0x5F15, 0x64CE], pk_engineHint = [0x4E0E, 0x4E0A, 0x65B9, 0x540C, 0x4E00, 0x6279, 0x0020, 0x0041, 0x0049, 0x0020, 0x89C4, 0x5219, 0xFF0C, 0x6309, 0x7EF4, 0x5EA6, 0x5C55, 0x793A, 0x8BC4, 0x5206, 0x6807, 0x51C6],
     pk_guide = [0x786E, 0x8BA4, 0x542F, 0x7528, 0x540E, 0x8FDB, 0x5165, 0x5BA1, 0x67E5, 0x63D0, 0x793A, 0x6C60, 0xFF1B, 0x89C4, 0x5219, 0x5F15, 0x64CE, 0x6309, 0x540C, 0x4E00, 0x6279, 0x89C4, 0x5219, 0x5206, 0x7EF4, 0x5EA6, 0x5C55, 0x793A, 0x3002],
     pk_defaultTopic = [0x5176, 0x4ED6, 0x68C0, 0x67E5], pk_hideCreate = True, pk_conditionColumn = Some [0x63D0, 0x70BC, 0x4F9D, 0x636E]\<rparr>"

definition groups_or :: "rule_group list option \<Rightarrow> jstr list \<Rightarrow> rule_row list \<Rightarrow> js_error + rule_group list" where
  "groups_or gs topics rules = (case gs of Some g \<Rightarrow> Inr g | None \<Rightarrow> groupRulesByTopic topics rules)"

definition rules_failed :: "jstr \<Rightarrow> rule_click node" where
  "rules_failed m = el (js ''div'') [kl ''card''] [CNode (muted ([0x52A0, 0x8F7D, 0x5931, 0x8D25, 0xFF1A] @ m))]"

text \<open>The body of \<open>#ai-rules-list\<close> after the answer. An exception is caught and shown after the box is
  emptied; what the code had changed before it raised stays changed.\<close>

definition finishLoadRules :: "(js_error \<Rightarrow> jstr) \<Rightarrow> failure + engine_answer \<Rightarrow> rules_state \<Rightarrow> rule_click node list \<times> rules_state" where
  "finishLoadRules engine out st = (case out of
     Inl e \<Rightarrow> ([rules_failed (failure_text e)], st)
   | Inr an \<Rightarrow>
      (let topics = (case en_topics an of Some ts \<Rightarrow> if ts \<noteq> [] then ts else RULE_TOPICS | None \<Rightarrow> RULE_TOPICS);
           st1 = st\<lparr>rs_topics := topics\<rparr>
       in case groups_or (en_approval_groups an) topics (en_approval an) of
            Inl x \<Rightarrow> ([rules_failed (engine x)], st1)
          | Inr g1 \<Rightarrow> (let (n1, ps1) = buildRulePack (approval_pack (en_approval an) g1) (rs_pagers st1); st2 = st1\<lparr>rs_pagers := ps1\<rparr>
              in case groups_or (en_ai_groups an) topics (en_ai an) of
                   Inl x \<Rightarrow> ([rules_failed (engine x)], st2)
                 | Inr g2 \<Rightarrow> (let (n2, ps2) = buildRulePack (ai_pack (en_ai an) g2) ps1 in ([n1, n2], st2\<lparr>rs_pagers := ps2\<rparr>)))))"

definition renderRulesPage :: "rule_click node list" where
  "renderRulesPage = [pageHead (js ''RULE ENGINE'') [0x89C4, 0x5219, 0x5F15, 0x64CE, 0x5E93]
      [0x6BCF, 0x5957, 0x89C4, 0x5219, 0x90FD, 0x6709, 0x4E24, 0x90E8, 0x5206, 0xFF1A, 0x4E0A, 0x65B9, 0x89C4, 0x5219, 0x5217, 0x8868, 0xFF0C, 0x4E0B, 0x65B9, 0x89C4, 0x5219, 0x5F15, 0x64CE, 0x6309, 0x0020, 0x0050, 0x0050, 0x0054, 0x0020, 0x8BC4, 0x5206, 0x77E9, 0x9635, 0x5C55, 0x793A, 0xFF08, 0x6743, 0x91CD, 0x0020, 0x002B, 0x0020, 0x9AD8, 0x002F, 0x4E2D, 0x002F, 0x4F4E, 0x5206, 0x6807, 0x51C6, 0xFF09],
     el (js ''div'') [att ''id'' (js ''ai-rules-list'')] []]"

section \<open>Facts\<close>

lemma spans_rule_row: "spans (rule_row_node col i r) = (if truthy col then [1, 1, 1, 1, 1, 1] else [1, 1, 1, 1, 1])"
  by (simp add: rule_row_node_def spans_def Let_def js_inj child_if_def)

lemma spans_rule_head: "spans (rule_head col) = (if truthy col then [1, 1, 1, 1, 1, 1] else [1, 1, 1, 1, 1])"
  by (simp add: rule_head_def spans_def js_inj child_if_def)

lemma rule_table_ok: "table_ok (if truthy col then 6 else 5) (buildApprovalRuleTable rules start col)"
proof -
  let ?n = "if truthy col then 6 else 5 :: nat"
  have "group_ok ?n [spans (rule_head col)]"
    by (rule group_ok_plain) (simp add: spans_rule_head list_all_iff)
  moreover have "group_ok ?n (map (\<lambda>x. spans (case x of (i, r) \<Rightarrow> rule_row_node col i r)) (enumerate (start + 1) rules))"
    by (rule group_ok_plain) (auto simp: list_all_iff spans_rule_row)
  ultimately show ?thesis
    by (simp add: table_ok_def buildApprovalRuleTable_def js_inj concat_map_singleton comp_def)
qed

lemma spans_matrix_row:
  "spans (matrix_row_node m) = (case mx_group m of None \<Rightarrow> [1, 1, 1, 1, 1, 1] | Some (name, n) \<Rightarrow> [1, n, 1, 1, 1, 1, 1])"
proof -
  have "row_span (el (js ''td'') [kl ''score-group'', att ''rowspan'' (dec n), tx name] [] :: rule_click node) = n" for n name
    by (simp add: row_span_el el_fields js_inj)
  then show ?thesis
    by (simp add: matrix_row_node_def spans_def Let_def js_inj split: option.split prod.split)
qed

lemma row_widths_append: "row_widths pend (xs @ ys) = row_widths pend xs @ row_widths (left_over pend xs) ys"
  by (induction xs arbitrary: pend) simp_all

lemma left_over_append: "left_over pend (xs @ ys) = left_over (left_over pend xs) ys"
  by (induction xs arbitrary: pend) simp_all

text \<open>Below a cell that still reaches \<open>k\<close> rows, rows of six cells fill seven columns.\<close>

lemma below_span:
  "row_widths (if k = 0 then [] else [k]) (replicate k [1, 1, 1, 1, 1, 1]) = replicate k 7
   \<and> left_over (if k = 0 then [] else [k]) (replicate k [1, 1, 1, 1, 1, 1]) = []"
proof (induction k)
  case (Suc k)
  have "carried (Suc k # [1, 1, 1, 1, 1, 1]) = (if k = 0 then [] else [k])"
    by (auto simp: carried_def)
  with Suc show ?case by simp
qed simp

lemma group_rows_spans:
  assumes "gr_rules g \<noteq> []"
  shows "row_widths [] (map (\<lambda>m. spans (matrix_row_node m)) (group_rows no g)) = replicate (length (gr_rules g)) 7"
    and "left_over [] (map (\<lambda>m. spans (matrix_row_node m)) (group_rows no g)) = []"
proof -
  obtain k where k: "length (gr_rules g) = Suc k" using assms by (cases "gr_rules g") auto
  have idx: "[0..<Suc k] = 0 # map Suc [0..<k]" by (simp add: map_Suc_upt upt_conv_Cons del: upt_Suc)
  have rows: "map (\<lambda>m. spans (matrix_row_node m)) (group_rows no g)
      = [1, Suc k, 1, 1, 1, 1, 1] # replicate k [1, 1, 1, 1, 1, 1]"
    by (simp add: k idx spans_matrix_row comp_def map_replicate_const del: upt_Suc)
  have c: "carried [Suc 0, Suc k, Suc 0, Suc 0, Suc 0, Suc 0, Suc 0] = (if k = 0 then [] else [k])"
    by (auto simp: carried_def)
  show "row_widths [] (map (\<lambda>m. spans (matrix_row_node m)) (group_rows no g)) = replicate (length (gr_rules g)) 7"
    "left_over [] (map (\<lambda>m. spans (matrix_row_node m)) (group_rows no g)) = []"
    unfolding rows k using below_span [of k] by (simp_all add: c)
qed

lemma matrix_rows_spans:
  assumes "\<forall>g \<in> set gs. gr_rules g \<noteq> []"
  shows "list_all (\<lambda>w. w = 7) (row_widths [] (map (\<lambda>m. spans (matrix_row_node m)) (matrix_rows no gs)))
    \<and> left_over [] (map (\<lambda>m. spans (matrix_row_node m)) (matrix_rows no gs)) = []"
  using assms
proof (induction gs arbitrary: no)
  case (Cons g gs)
  then have g: "gr_rules g \<noteq> []" by simp
  from Cons show ?case
    by (simp add: row_widths_append left_over_append group_rows_spans [OF g] list_all_iff del: group_rows.simps)
qed simp

lemma matrix_table_ok: "table_ok 7 (matrix_table (matrix_rows no (regroupScoreRows rows)))"
proof -
  have ne: "\<forall>g \<in> set (regroupScoreRows rows). gr_rules g \<noteq> []"
    using regroup_spec [of rows] by (simp add: adjacent_differ_def)
  have "group_ok 7 [spans matrix_letters, spans matrix_titles]"
    by (rule group_ok_plain) (simp add: matrix_letters_def matrix_titles_def spans_def js_inj)
  moreover have "group_ok 7 (map (\<lambda>m. spans (matrix_row_node m)) (matrix_rows no (regroupScoreRows rows)))"
    using matrix_rows_spans [OF ne, of no] by (simp add: group_ok_def)
  ultimately show ?thesis
    by (simp add: table_ok_def matrix_table_def js_inj concat_map_singleton comp_def)
qed

lemma safe_pager [simp]: "safe_node A (pager_node key p cnt)"
  by (simp add: pager_node_def pager_size_option_def flag_def Let_def js_inj split: prod.split)

lemma safe_rule_table [simp]: "safe_node A (buildApprovalRuleTable rules start col)"
  by (auto simp: buildApprovalRuleTable_def rule_head_def rule_row_node_def Let_def js_inj)

lemma safe_matrix_table [simp]: "safe_node A (matrix_table rows)"
  by (auto simp: matrix_table_def matrix_letters_def matrix_titles_def matrix_row_node_def Let_def js_inj split: option.split)

lemma safe_list: "n \<in> set (fst (render_list pk ps)) \<Longrightarrow> safe_node A n"
  by (auto simp: render_list_def Let_def js_inj split: prod.splits if_splits)

lemma safe_matrix: "n \<in> set (fst (render_matrix pk ps)) \<Longrightarrow> safe_node A n"
  by (auto simp: render_matrix_def Let_def js_inj split: prod.splits if_splits)

lemma safe_appended: "safe_node A n \<Longrightarrow> (\<forall>m \<in> set ns. safe_node A m) \<Longrightarrow> safe_node A (append_kids n ns)"
  by (cases n) (auto simp: safe_node_def)

lemma safe_score_card: "safe_node A (fst (buildScoreMatrixCard pk ps))"
proof -
  have "safe_node A (append_kids (el (js ''div'') [kl ''score-matrix-host''] []) (fst (render_matrix pk ps)))"
    using safe_matrix by (intro safe_appended) (auto simp: js_inj)
  then show ?thesis by (simp add: buildScoreMatrixCard_def case_prod_beta Let_def js_inj)
qed

lemma safe_pack: "safe_node A (fst (buildRulePack pk ps))"
proof -
  have "safe_node A (append_kids (el (js ''div'') [kl ''rule-table-host''] []) (fst (render_list pk ps)))"
    using safe_list by (intro safe_appended) (auto simp: js_inj)
  then show ?thesis using safe_score_card by (simp add: buildRulePack_def case_prod_beta Let_def js_inj)
qed

lemma safe_rules: "n \<in> set (fst (finishLoadRules engine out st)) \<Longrightarrow> safe_node A n"
  using safe_pack [of A]
  by (auto simp: finishLoadRules_def rules_failed_def Let_def case_prod_beta js_inj split: sum.splits)

lemma safe_rules_page: "n \<in> set renderRulesPage \<Longrightarrow> safe_node A n"
  by (auto simp: renderRulesPage_def js_inj)

end
