(* ===== verification/DialogViews.thy ===== *)
theory DialogViews
  imports DraftFlow Markup
begin

text \<open>
  The markup of two dialogs: the document comparison (\<open>openCompareDialog\<close>, \<open>renderCompareFiles\<close>,
  \<open>renderCompareResult\<close>, \<open>downloadCompareReport\<close>) and the counterparty risk view
  (\<open>renderCreditRiskView\<close>). The records hold the fields of the server's answers that are read; \<open>native\<close>
  is the text of a member of \<open>Object.prototype\<close>.
\<close>

section \<open>The comparison dialog\<close>

datatype compare_click = PickFile jstr | TickFlag jstr | StartCompare | CloseDialog | ExportReport

definition base_hint :: "compare_state \<Rightarrow> jstr" where
  "base_hint st = (case baseFile st of Some f \<Rightarrow> fname f | None \<Rightarrow> [0x672A, 0x9009, 0x62E9, 0x57FA, 0x51C6, 0x6587, 0x6863])"

definition compare_hint :: "compare_state \<Rightarrow> jstr" where
  "compare_hint st = (case compareFile st of Some f \<Rightarrow> fname f | None \<Rightarrow> [0x672A, 0x9009, 0x62E9, 0x6BD4, 0x5BF9, 0x6587, 0x6863])"

definition pick_row :: "string \<Rightarrow> string \<Rightarrow> jstr \<Rightarrow> jstr \<Rightarrow> compare_click node" where
  "pick_row kind i lbl hint = el (js ''div'') [kl ''form-row'']
     [CNode (el (js ''label'') [] [CNode (el (js ''span'') [kl ''req'', tx (js ''*'')] []), CStr lbl]),
      CNode (el (js ''div'') [kl ''flex'']
        [CNode (el (js ''button'') [kl ''btn btn-ghost btn-sm'', tx [0x9009, 0x62E9, 0x6587, 0x4EF6], on_click (PickFile (js kind))] []),
         CNode (el (js ''span'') [kl ''muted'', att ''id'' (js i), tx hint] [])])]"

definition ignore_box :: "jstr \<times> jstr \<Rightarrow> compare_click node" where
  "ignore_box = (\<lambda>(key, lbl). el (js ''label'') [kl ''compare-ignore'']
     [CNode (el (js ''input'') [att ''type'' (js ''checkbox''), (js ''onchange'', AFun (TickFlag key))] []),
      CNode (el (js ''span'') [tx lbl] [])])"

text \<open>The dialog's body, drawn from the state \<open>openCompareDialog\<close> leaves.\<close>

definition compare_dialog :: "app \<Rightarrow> compare_click node" where
  "compare_dialog a = el (js ''div'') [kl ''compare-dialog'']
     [CNode (muted [0x652F, 0x6301, 0x0020, 0x0057, 0x006F, 0x0072, 0x0064, 0x3001, 0x0050, 0x0044, 0x0046, 0x0020, 0x5BF9, 0x6BD4, 0x548C, 0x76F8, 0x4F3C, 0x5EA6, 0x63D0, 0x9192, 0x3002, 0x4E0A, 0x4F20, 0x57FA, 0x51C6, 0x6587, 0x6863, 0x4E0E, 0x6BD4, 0x5BF9, 0x6587, 0x6863, 0x540E, 0x67E5, 0x770B, 0x5DEE, 0x5F02, 0x5217, 0x8868, 0x3002]),
      CNode (el (js ''div'') [kl ''grid grid-2'']
        [CNode (pick_row ''base'' ''compare-base-hint'' [0x0020, 0x57FA, 0x51C6, 0x6587, 0x6863] (base_hint (compare a))),
         CNode (pick_row ''compare'' ''compare-compare-hint'' [0x0020, 0x6BD4, 0x5BF9, 0x6587, 0x6863] (compare_hint (compare a)))]),
      CNode (muted (if has_review (result (review a))
        then [0x7248, 0x672C, 0x5DEE, 0x5F02, 0x4F1A, 0x6302, 0x5230, 0x5F53, 0x524D, 0x5BA1, 0x67E5, 0x7ED3, 0x679C, 0x4E0A, 0xFF1B, 0x57FA, 0x51C6, 0x6587, 0x6863, 0x9700, 0x662F, 0x672C, 0x5408, 0x540C, 0x5305, 0x91CC, 0x5DF2, 0x5BA1, 0x8FC7, 0x7684, 0x90A3, 0x4E00, 0x4EFD, 0x3002]
        else [0x5F53, 0x524D, 0x6CA1, 0x6709, 0x5BA1, 0x67E5, 0x7ED3, 0x679C, 0xFF1A, 0x5C06, 0x8FDB, 0x884C, 0x7EAF, 0x6587, 0x6863, 0x5BF9, 0x6BD4, 0xFF08, 0x65E0, 0x9700, 0x5148, 0x5BA1, 0x67E5, 0xFF09, 0xFF1B, 0x57FA, 0x51C6, 0x6587, 0x6863, 0x82E5, 0x6070, 0x597D, 0x5BA1, 0x8FC7, 0xFF0C, 0x5DEE, 0x5F02, 0x4F1A, 0x81EA, 0x52A8, 0x6302, 0x5230, 0x8BE5, 0x7ED3, 0x679C, 0x4E0A, 0x3002])),
      CNode (el (js ''div'') [kl ''compare-ignores''] [nodes ignore_box compareIgnoreFlags]),
      CNode (el (js ''div'') [kl ''action-bar mt-8'']
        [CNode (el (js ''button'') [kl ''btn btn-primary'', att ''id'' compare_button, tx [0x5F00, 0x59CB, 0x5BF9, 0x6BD4], on_click StartCompare] []),
         CNode (el (js ''button'') [kl ''btn btn-ghost'', tx [0x5173, 0x95ED], on_click CloseDialog] [])]),
      CNode (el (js ''div'') [att ''id'' compare_box] [])]"

text \<open>\<open>renderCompareFiles\<close>: the two hints, where the dialog is on the page.\<close>

definition renderCompareFiles :: "compare_state \<Rightarrow> effect list" where
  "renderCompareFiles st =
     [FieldValue (js ''compare-base-hint'') (base_hint st), FieldValue (js ''compare-compare-hint'') (compare_hint st)]"

section \<open>The result of a comparison\<close>

record change =
  ch_kind :: jstr
  ch_base :: "jstr option"
  ch_compare :: "jstr option"

record compare_result =
  cr_similarity :: "jstr option"
  cr_added :: nat
  cr_deleted :: nat
  cr_modified :: nat
  cr_base_name :: "jstr option"
  cr_base_html :: "jstr option"
  cr_compare_name :: "jstr option"
  cr_compare_html :: "jstr option"
  cr_changes :: "change list"
  cr_report :: "jstr option"

definition change_labels :: "jstr obj" where
  "change_labels = [(js ''added'', [0x65B0, 0x589E]), (js ''deleted'', [0x5220, 0x9664]), (js ''modified'', [0x4FEE, 0x6539])]"

definition change_label :: "(jstr \<Rightarrow> jstr) \<Rightarrow> jstr \<Rightarrow> jstr" where
  "change_label native k = (case obj_get change_labels k of Own l \<Rightarrow> l | Inherited \<Rightarrow> native k | Missing \<Rightarrow> k)"

definition change_node :: "(jstr \<Rightarrow> jstr) \<Rightarrow> nat \<times> change \<Rightarrow> compare_click node" where
  "change_node native = (\<lambda>(i, c). el (js ''div'') [(js ''class'', AStr (js ''compare-change '' @ ch_kind c))]
     [CNode (el (js ''div'') [kl ''compare-change-head'', tx (dec (i + 1) @ js ''. '' @ change_label native (ch_kind c))] []),
      child_if (truthy (ch_base c)) (el (js ''p'') [kl ''muted'', tx ([0x57FA, 0x51C6, 0xFF1A] @ str_or (ch_base c) [])] []),
      child_if (truthy (ch_compare c)) (el (js ''p'') [tx ([0x6BD4, 0x5BF9, 0xFF1A] @ str_or (ch_compare c) [])] [])])"

definition change_list :: "(jstr \<Rightarrow> jstr) \<Rightarrow> change list \<Rightarrow> compare_click node" where
  "change_list native cs = (if cs \<noteq> []
     then el (js ''div'') [kl ''compare-changes''] [nodes (change_node native) (enumerate 0 cs)]
     else muted [0x672A, 0x53D1, 0x73B0, 0x5DEE, 0x5F02, 0x3002])"

definition document_pane :: "jstr \<Rightarrow> jstr option \<Rightarrow> jstr option \<Rightarrow> compare_click node" where
  "document_pane title name html = el (js ''div'') [kl ''card'']
     [CNode (el (js ''div'') [kl ''card-title'', tx title] [CNode (el (js ''span'') [kl ''hint'', (js ''text'', nullable name)] [])]),
      CNode (el (js ''div'') [kl ''compare-doc'', (js ''html'', AStr (str_or html []))] [])]"

definition renderCompareResult :: "(jstr \<Rightarrow> jstr) \<Rightarrow> compare_result \<Rightarrow> compare_click node list" where
  "renderCompareResult native r =
     [el (js ''div'') [kl ''grid grid-3'']
        [CNode (stat [0x76F8, 0x4F3C, 0x5EA6] (str_or (cr_similarity r) (js ''-'')) (js ''blue'') None),
         CNode (stat [0x65B0, 0x589E] (dec (cr_added r)) (js ''green'') None),
         CNode (stat [0x5220, 0x9664, 0x0020, 0x002F, 0x0020, 0x4FEE, 0x6539] (dec (cr_deleted r) @ js '' / '' @ dec (cr_modified r)) (js ''orange'') None)],
      el (js ''div'') [kl ''compare-workspace'']
        [CNode (document_pane [0x57FA, 0x51C6, 0x6587, 0x6863] (cr_base_name r) (cr_base_html r)),
         CNode (document_pane [0x6BD4, 0x5BF9, 0x6587, 0x6863] (cr_compare_name r) (cr_compare_html r)),
         CNode (el (js ''div'') [kl ''card'']
           [CNode (el (js ''div'') [kl ''card-title'', tx [0x5DEE, 0x5F02, 0x5217, 0x8868]]
              [CNode (el (js ''span'') [kl ''hint'', tx (dec (length (cr_changes r)) @ [0x0020, 0x5904])] []),
               CNode (el (js ''span'') [kl ''grow''] []),
               CNode (el (js ''button'') [kl ''link-btn'', tx [0x5BFC, 0x51FA, 0x5DEE, 0x5F02, 0x62A5, 0x544A], on_click ExportReport] [])]),
            CNode (change_list native (cr_changes r))])]]"

text \<open>The blob's URL is the \<open>u\<close>-th the browser hands out; it is released in the same handler.\<close>

definition downloadCompareReport :: "nat \<Rightarrow> compare_result \<Rightarrow> jstr \<times> effect list" where
  "downloadCompareReport u r = (str_or (cr_report r) [],
     [CreateUrl u, SaveFile u [0x6587, 0x6863, 0x5BF9, 0x6BD4, 0x5DEE, 0x5F02, 0x62A5, 0x544A, 0x002E, 0x0074, 0x0078, 0x0074], RevokeUrl u, Toast [0x5DEE, 0x5F02, 0x62A5, 0x544A, 0x5DF2, 0x5BFC, 0x51FA] Ok])"

section \<open>The counterparty risk view\<close>

definition CREDIT_CHECK_META :: "meta obj" where
  "CREDIT_CHECK_META = [meta_row ''RISK'' [0x6709, 0x98CE, 0x9669] ''red'', meta_row ''CLEAR'' [0x5DF2, 0x6838, 0x9A8C, 0x901A, 0x8FC7] ''green'',
     meta_row ''UNKNOWN'' [0x5F85, 0x4EBA, 0x5DE5, 0x786E, 0x8BA4] ''yellow'', meta_row ''UNAVAILABLE'' [0x5F85, 0x63A5, 0x5165, 0x6570, 0x636E, 0x6E90] ''gray'']"

definition ELEMENT_SOURCE_LABEL :: "jstr obj" where
  "ELEMENT_SOURCE_LABEL = [(js ''rule'', [0x89C4, 0x5219, 0x62BD, 0x5230]), (js ''ai'', [0x0041, 0x0049, 0x0020, 0x8865, 0x5168]), (js ''merged'', [0x89C4, 0x5219, 0x002B, 0x0041, 0x0049]), (js ''empty'', [0x672A, 0x62BD, 0x5230])]"

record subject =
  su_role :: "jstr option"
  su_value :: "jstr option"
  su_source :: "jstr option"
  su_confidence :: "rat option"

record credit_finding =
  cf_status :: "jstr option"
  cf_risk_level :: "jstr option"
  cf_title :: "jstr option"
  cf_rule_id :: "jstr option"
  cf_reason :: "jstr option"
  cf_action :: "jstr option"

record credit_check =
  ck_label :: "jstr option"
  ck_status :: "jstr option"
  ck_detail :: "jstr option"

record credit_view =
  cv_message :: "jstr option"
  cv_subjects :: "subject list"
  cv_findings :: "credit_finding list"
  cv_checks :: "credit_check list"
  cv_connected :: bool
  cv_summary :: "jstr option"

text \<open>\<open>ELEMENT_SOURCE_LABEL[item.source] || item.source\<close> in a template.\<close>

definition source_label :: "(jstr \<Rightarrow> jstr) \<Rightarrow> jstr option \<Rightarrow> jstr" where
  "source_label native s = (let k = (case s of None \<Rightarrow> js ''undefined'' | Some k \<Rightarrow> k) in
     case obj_get ELEMENT_SOURCE_LABEL k of Own l \<Rightarrow> l | Inherited \<Rightarrow> native k | Missing \<Rightarrow> k)"

definition confidence_text :: "rat option \<Rightarrow> jstr" where
  "confidence_text c = (case c of None \<Rightarrow> [] | Some x \<Rightarrow> [0x0020, 0x00B7, 0x0020, 0x7F6E, 0x4FE1, 0x5EA6, 0x0020] @ to_fixed 2 x)"

definition subject_node :: "(jstr \<Rightarrow> jstr) \<Rightarrow> subject \<Rightarrow> unit node" where
  "subject_node native s = el (js ''div'')
     [(js ''class'', AStr (js ''ocr-field'' @ (if truthy (su_value s) then [] else js '' empty'')))]
     [CNode (el (js ''div'') [kl ''k'', (js ''text'', nullable (su_role s))] []),
      CNode (el (js ''div'') [kl ''v'', tx (str_or (su_value s) [0x672A, 0x4ECE, 0x5408, 0x540C, 0x6B63, 0x6587, 0x8BC6, 0x522B])] []),
      CNode (el (js ''div'') [kl ''muted'', tx (if truthy (su_value s)
        then source_label native (su_source s) @ confidence_text (su_confidence s) else [0x53EF, 0x5728, 0x5408, 0x540C, 0x4FE1, 0x606F, 0x4E2D, 0x4EBA, 0x5DE5, 0x8865, 0x5F55])] [])]"

definition credit_finding_node :: "credit_finding \<Rightarrow> unit node" where
  "credit_finding_node f = el (js ''div'') [kl ''credit-finding'']
     [CNode (el (js ''div'') [kl ''credit-finding-head'']
        [CNode (badge (to_upper (str_or (cf_status f) (js ''UNKNOWN''))) FINDING_META),
         CNode (badge (str_or (cf_risk_level f) (js ''unclassified'')) RISK_META),
         CNode (el (js ''span'') [(js ''text'', nullable (opt_or (cf_title f) (cf_rule_id f)))] [])]),
      CNode (el (js ''p'') [tx (str_or (cf_reason f) [])] []),
      child_if (truthy (cf_action f)) (el (js ''p'') [kl ''muted'', tx ([0x5EFA, 0x8BAE, 0x52A8, 0x4F5C, 0xFF1A] @ str_or (cf_action f) [])] [])]"

definition check_row :: "credit_check \<Rightarrow> unit node" where
  "check_row k = el (js ''tr'') []
     [CNode (el (js ''td'') [kl ''rule-title'', (js ''text'', nullable (ck_label k))] []),
      CNode (el (js ''td'') [] [CNode (badge (str_or (ck_status k) (js ''UNAVAILABLE'')) CREDIT_CHECK_META)]),
      CNode (el (js ''td'') [kl ''muted'', tx (str_or (ck_detail k) [])] [])]"

definition check_head :: "unit node" where
  "check_head = el (js ''tr'') [] [nodes (\<lambda>t. el (js ''th'') [tx t] []) [[0x6838, 0x9A8C, 0x9879], [0x72B6, 0x6001], [0x8BF4, 0x660E]]]"

definition check_table :: "credit_check list \<Rightarrow> unit node" where
  "check_table ks = el (js ''table'') [kl ''table'']
     [CNode (el (js ''thead'') [] [CNode check_head]),
      CNode (el (js ''tbody'') [] [nodes check_row ks])]"

definition titled :: "jstr \<Rightarrow> jstr \<Rightarrow> unit node" where
  "titled t hint = el (js ''div'') [kl ''card-title mt-8'']
     [CNode (el (js ''span'') [tx t] []), CNode (el (js ''span'') [kl ''hint'', tx hint] [])]"

definition renderCreditRiskView :: "(jstr \<Rightarrow> jstr) \<Rightarrow> credit_view \<Rightarrow> unit node list" where
  "renderCreditRiskView native v =
     [el (js ''div'') [kl ''cache-hit'', tx (str_or (cv_message v) [])] []]
     @ (if cv_subjects v = [] then [] else [el (js ''div'') [kl ''ocr-field-grid mt-8''] [nodes (subject_node native) (cv_subjects v)]])
     @ [titled [0x4E3B, 0x4F53, 0x7C7B, 0x5BA1, 0x67E5, 0x53D1, 0x73B0] (dec (length (cv_findings v)) @ [0x0020, 0x6761]),
        (if cv_findings v \<noteq> [] then el (js ''div'') [] [nodes credit_finding_node (cv_findings v)]
         else muted [0x672C, 0x6B21, 0x5BA1, 0x67E5, 0x672A, 0x4EA7, 0x751F, 0x5408, 0x540C, 0x4E3B, 0x4F53, 0x7C7B, 0x53D1, 0x73B0, 0x3002, 0x5F53, 0x524D, 0x89C4, 0x5219, 0x5305, 0x91CC, 0x6CA1, 0x6709, 0x8D44, 0x4FE1, 0x002F, 0x5F81, 0x4FE1, 0x7C7B, 0x89C4, 0x5219, 0x3002]),
        titled [0x5916, 0x90E8, 0x6838, 0x9A8C, 0x9879] (if cv_connected v then [0x5DF2, 0x63A5, 0x5165, 0x5F81, 0x4FE1, 0x6570, 0x636E, 0x6E90] else [0x4F01, 0x4E1A, 0x5F81, 0x4FE1, 0x6570, 0x636E, 0x6E90, 0x672A, 0x63A5, 0x5165]),
        el (js ''div'') [kl ''table-wrap''] [CNode (check_table (cv_checks v))],
        muted (str_or (cv_summary v) [])]"

section \<open>Facts\<close>

lemma safe_compare_dialog: "safe_node A (compare_dialog a)"
  by (simp add: compare_dialog_def pick_row_def ignore_box_def js_inj split: prod.split)

lemma raw_document_pane: "raw_of (document_pane t n html) = (if str_or html [] = [] then [] else [str_or html []])"
  by (cases n) (simp_all add: document_pane_def el_def set_text_def set_html_def Let_def js_inj)

lemma safe_change_list: "safe_node A (change_list native cs)"
  by (auto simp: change_list_def change_node_def js_inj)

lemma check_table_ok: "table_ok 3 (check_table ks)"
proof -
  have row: "spans (check_row k) = [1, 1, 1]" for k
    by (simp add: check_row_def spans_def js_inj)
  have head: "spans check_head = [1, 1, 1]"
    by (simp add: check_head_def spans_def js_inj)
  have "group_ok 3 [spans check_head]" by (rule group_ok_plain) (simp add: head)
  moreover have "group_ok 3 (map (\<lambda>k. spans (check_row k)) ks)"
    by (rule group_ok_plain) (simp add: row list_all_iff)
  ultimately show ?thesis
    by (simp add: table_ok_def check_table_def js_inj concat_map_singleton comp_def)
qed

lemma safe_credit_view: "n \<in> set (renderCreditRiskView native v) \<Longrightarrow> safe_node A n"
  by (auto simp: renderCreditRiskView_def titled_def check_table_def check_head_def check_row_def credit_finding_node_def
      subject_node_def js_inj split: if_splits)

lemma raw_compare_result:
  "concat (map raw_of (renderCompareResult native r))
     = filter (\<lambda>h. h \<noteq> []) [str_or (cr_base_html r) [], str_or (cr_compare_html r) []]"
proof -
  have s: "raw_of (stat l v c None :: compare_click node) = []" for l v c
    by (simp add: stat_def raw_of_el js_inj)
  have c: "raw_of (change_list native cs) = []" for cs
    using safe_change_list [of "{}"] by (simp add: safe_node_def)
  show ?thesis
    by (simp add: renderCompareResult_def raw_of_el js_inj raw_document_pane s c)
qed

end
