(* ===== verification/TaskViews.thy ===== *)
theory TaskViews
  imports TasksPage Markup
begin

text \<open>
  The markup of the task centre: the page with its filters (\<open>renderTasksPage\<close>), the table and the
  pager that \<open>loadTasks\<close> draws, and the detail dialog (\<open>render\<close> in \<open>openTaskDetail\<close>); then the page over time, with its
  filters, pager, failures and answers in any order (\<open>task_page_event\<close>). A task is the
  record of the fields that are read; \<open>native\<close> is the text of a member of \<open>Object.prototype\<close>,
  \<open>parse\<close> the host's reading of a time stamp.
\<close>

datatype task_click =
    FilterStatus | FilterType | ReloadTasks | ShowTask "jstr option" | ShowResult "jstr option"
  | PrevTasks | NextTasks | CopyTaskId "jstr option" | CloseTask

record task_row =
  tk_id :: "jstr option"
  tk_type :: "jstr option"
  tk_status :: "jstr option"
  tk_stage :: "jstr option"
  tk_queue :: "jstr option"
  tk_progress :: nat
  tk_created :: "jstr option"
  tk_started :: "jstr option"
  tk_finished :: "jstr option"
  tk_error_message :: "jstr option"
  tk_error_code :: "jstr option"

definition TASK_TYPE_LABELS :: "jstr obj" where
  "TASK_TYPE_LABELS = [(js ''contract-review'', [0x5408, 0x540C, 0x5BA1, 0x67E5])]"

text \<open>\<open>TASK_TYPE_LABELS[t.task_type] || t.task_type\<close>; an undefined type reads the key \<open>undefined\<close>.\<close>

definition task_type_text :: "(jstr \<Rightarrow> jstr) \<Rightarrow> jstr option \<Rightarrow> jstr option" where
  "task_type_text native ty = (case obj_get TASK_TYPE_LABELS (case ty of None \<Rightarrow> js ''undefined'' | Some k \<Rightarrow> k) of
     Own l \<Rightarrow> Some l | Inherited \<Rightarrow> map_option native ty | Missing \<Rightarrow> ty)"

section \<open>The page\<close>

definition status_options :: "(jstr \<times> jstr) list" where
  "status_options = [([], [0x5168, 0x90E8, 0x72B6, 0x6001]), (js ''PENDING'', [0x6392, 0x961F, 0x4E2D]), (js ''RUNNING'', [0x6267, 0x884C, 0x4E2D]), (js ''SUCCEEDED'', [0x6210, 0x529F]),
     (js ''FAILED'', [0x5931, 0x8D25]), (js ''CANCELED'', [0x5DF2, 0x53D6, 0x6D88]), (js ''EXPIRED'', [0x5DF2, 0x8FC7, 0x671F])]"

definition type_options :: "(jstr \<times> jstr) list" where
  "type_options = ([], [0x5168, 0x90E8, 0x7C7B, 0x578B]) # TASK_TYPE_LABELS"

definition filter_option :: "jstr \<times> jstr \<Rightarrow> task_click node" where
  "filter_option = (\<lambda>(v, t). el (js ''option'') [att ''value'' v, tx t] [])"

definition filter_card :: "task_click node" where
  "filter_card = el (js ''div'') [kl ''card'']
     [CNode (el (js ''div'') [kl ''flex'', att ''style'' (js ''flex-wrap:wrap'')]
       [CNode (el (js ''select'') [kl ''select'', att ''style'' (js ''width:180px''), att ''id'' (js ''task-status-filter''),
          (js ''onchange'', AFun FilterStatus)] [nodes filter_option status_options]),
        CNode (el (js ''select'') [kl ''select'', att ''style'' (js ''width:200px''), att ''id'' (js ''task-type-filter''),
          (js ''onchange'', AFun FilterType)] [nodes filter_option type_options]),
        CNode (el (js ''span'') [kl ''grow''] []),
        CNode (el (js ''button'') [kl ''btn btn-secondary btn-sm'', tx [0x5237, 0x65B0], on_click ReloadTasks] [])])]"

text \<open>The nodes \<open>renderTasksPage\<close> appends before it asks for the list.\<close>

definition renderTasksPage :: "task_click node list" where
  "renderTasksPage = [pageHead (js ''ASYNC QUEUE'') [0x4EFB, 0x52A1, 0x4E2D, 0x5FC3] [0x5F02, 0x6B65, 0x5408, 0x540C, 0x5BA1, 0x67E5, 0x961F, 0x5217, 0xFF0C, 0x53EF, 0x6309, 0x72B6, 0x6001, 0x8FC7, 0x6EE4, 0x5E76, 0x67E5, 0x770B, 0x6838, 0x5FC3, 0x0020, 0x0052, 0x0065, 0x0076, 0x0069, 0x0065, 0x0077, 0x0052, 0x0065, 0x0073, 0x0075, 0x006C, 0x0074],
     filter_card,
     el (js ''div'') [kl ''card'']
       [CNode (el (js ''div'') [kl ''table-wrap'', att ''id'' (js ''tasks-table'')] []),
        CNode (el (js ''div'') [kl ''flex-between mt-8'', att ''id'' (js ''tasks-pager'')] [])]]"

section \<open>The table\<close>

definition row_class :: "jstr option \<Rightarrow> jstr" where
  "row_class st = (if st = Some (js ''RUNNING'') then js ''row-running'' else if st = Some (js ''FAILED'') then js ''row-failed''
     else if st = Some (js ''SUCCEEDED'') then js ''row-succeeded'' else [])"

text \<open>\<open>badge(t.status, STATUS_META)\<close>: an undefined status is an undefined key.\<close>

definition status_badge :: "jstr option \<Rightarrow> task_click node" where
  "status_badge st = (case st of Some s \<Rightarrow> badge s STATUS_META
     | None \<Rightarrow> el (js ''span'') [kl ''badge gray'', (js ''text'', AUndef)] [])"

definition percent_style :: "nat \<Rightarrow> jstr" where
  "percent_style p = js ''width:'' @ dec p @ js ''%''"

definition task_row_node :: "(jstr \<Rightarrow> jstr) \<Rightarrow> (jstr \<Rightarrow> datetime option) \<Rightarrow> task_row \<Rightarrow> task_click node" where
  "task_row_node native parse t = el (js ''tr'') [(js ''class'', AStr (row_class (tk_status t)))]
     [CNode (el (js ''td'') [kl ''mono''] [CNode (el (js ''span'') [kl ''link-btn'', (js ''text'', nullable (shortId (tk_id t))),
        on_click (ShowTask (tk_id t))] [])]),
      CNode (el (js ''td'') [(js ''text'', nullable (task_type_text native (tk_type t)))] []),
      CNode (el (js ''td'') [] [CNode (status_badge (tk_status t))]),
      CNode (el (js ''td'') [kl ''muted text-sm'', tx (str_or (tk_stage t) (js ''-''))] []),
      CNode (el (js ''td'') [att ''style'' (js ''min-width:110px'')]
        [CNode (el (js ''div'') [kl ''flex'', att ''style'' (js ''gap:6px'')]
          [CNode (el (js ''div'') [kl ''progress grow mb-0'', att ''style'' (js ''margin:0'')]
             [CNode (el (js ''div'') [att ''style'' (percent_style (tk_progress t))] [])]),
           CNode (el (js ''span'') [kl ''muted text-sm nowrap'', tx (dec (tk_progress t) @ js ''%'')] [])])]),
      CNode (el (js ''td'') [kl ''muted text-sm nowrap'', tx (fmtTime parse (tk_created t))] []),
      CNode (el (js ''td'') []
        [CNode (el (js ''button'') [kl ''link-btn'', tx [0x8BE6, 0x60C5], on_click (ShowTask (tk_id t))] []),
         child_if (tk_status t = Some (js ''SUCCEEDED'')) (el (js ''span'') []
           [CNode (el (js ''span'') [kl ''muted'', tx [0x0020, 0x00B7, 0x0020]] []),
            CNode (el (js ''button'') [kl ''link-btn'', tx [0x7ED3, 0x679C], on_click (ShowResult (tk_id t))] [])])])]"

definition task_head :: "task_click node" where
  "task_head = el (js ''tr'') [] [nodes (\<lambda>h. el (js ''th'') [tx h] [])
     [[0x4EFB, 0x52A1, 0x0020, 0x0049, 0x0044], [0x7C7B, 0x578B], [0x72B6, 0x6001], [0x9636, 0x6BB5], [0x8FDB, 0x5EA6], [0x521B, 0x5EFA, 0x65F6, 0x95F4], [0x64CD, 0x4F5C]]]"

definition task_table :: "(jstr \<Rightarrow> jstr) \<Rightarrow> (jstr \<Rightarrow> datetime option) \<Rightarrow> task_row list \<Rightarrow> task_click node" where
  "task_table native parse ts = el (js ''table'') [kl ''table'']
     [CNode (el (js ''thead'') [] [CNode task_head]), CNode (el (js ''tbody'') [] [nodes (task_row_node native parse) ts])]"

definition no_tasks :: "task_click node" where
  "no_tasks = el (js ''div'') [kl ''empty-state'']
     [CNode (el (js ''div'') [kl ''icon'', tx [0xD83D, 0xDDC2]] []), CNode (el (js ''div'') [tx [0x6682, 0x65E0, 0x4EFB, 0x52A1]] [])]"

definition task_pager_nodes :: "tasks_state \<Rightarrow> int \<Rightarrow> task_click node list" where
  "task_pager_nodes st cnt = (let tp = task_pager st cnt in
     [el (js ''span'') [kl ''muted text-sm'', tx ([0x5171, 0x0020] @ dec_int cnt @ [0x0020, 0x6761, 0x0020, 0x00B7, 0x0020, 0x7B2C, 0x0020] @ dec_int (ts_page st) @ js '' / '' @ dec_int (tp_pages tp) @ [0x0020, 0x9875])] [],
      el (js ''div'') [kl ''flex'']
       [CNode (el (js ''button'') [kl ''btn btn-ghost btn-sm'', tx [0x4E0A, 0x4E00, 0x9875], flag ''disabled'' (tp_prev_disabled tp), on_click PrevTasks] []),
        CNode (el (js ''button'') [kl ''btn btn-ghost btn-sm'', tx [0x4E0B, 0x4E00, 0x9875], flag ''disabled'' (tp_next_disabled tp), on_click NextTasks] [])]])"

text \<open>\<open>tableWrap.innerHTML = Array.from(...)\<close>: the array is turned into text, five times what an element
  prints as.\<close>

definition task_placeholder :: "task_click node list" where
  "task_placeholder = [RawHtml (join [44] (replicate 5 (js ''[object HTMLDivElement]'')))]"

text \<open>What the table's box and the pager's box show after the answer: the tasks and their number, or an
  error. A failed load draws no pager.\<close>

definition finishLoadTasks :: "(jstr \<Rightarrow> jstr) \<Rightarrow> (jstr \<Rightarrow> datetime option) \<Rightarrow> tasks_state \<Rightarrow> failure + (task_row list \<times> int)
    \<Rightarrow> task_click node list \<times> task_click node list" where
  "finishLoadTasks native parse st out = (case out of
     Inr (ts, cnt) \<Rightarrow> ([if ts = [] then no_tasks else task_table native parse ts], task_pager_nodes st cnt)
   | Inl e \<Rightarrow> ([el (js ''div'') [kl ''empty-state'']
       [CNode (el (js ''div'') [kl ''icon'', tx [0x26A0, 0xFE0F]] []), CNode (el (js ''div'') [tx [0x52A0, 0x8F7D, 0x5931, 0x8D25]] []),
        CNode (muted (failure_text e))]], []))"

section \<open>The detail dialog\<close>

definition kv_item :: "jstr \<times> jstr option \<Rightarrow> task_click node" where
  "kv_item = (\<lambda>(k, v). el (js ''div'') [kl ''kv-item'']
     [CNode (el (js ''div'') [kl ''k'', tx k] []),
      CNode (el (js ''div'') [kl ''v'', tx (case v of Some t \<Rightarrow> t | None \<Rightarrow> js ''-'')] [])])"

definition status_label :: "jstr option \<Rightarrow> jstr option" where
  "status_label st = (case obj_get STATUS_META (case st of None \<Rightarrow> js ''undefined'' | Some s \<Rightarrow> s) of
     Own m \<Rightarrow> Some (label m) | Inherited \<Rightarrow> None | Missing \<Rightarrow> Some [0x6392, 0x961F, 0x4E2D])"

definition task_fields :: "(jstr \<Rightarrow> jstr) \<Rightarrow> (jstr \<Rightarrow> datetime option) \<Rightarrow> task_row \<Rightarrow> (jstr \<times> jstr option) list" where
  "task_fields native parse d = [([0x4EFB, 0x52A1, 0x0020, 0x0049, 0x0044], tk_id d), ([0x7C7B, 0x578B], task_type_text native (tk_type d)), ([0x72B6, 0x6001], status_label (tk_status d)),
     ([0x9636, 0x6BB5], Some (str_or (tk_stage d) (js ''-''))), ([0x961F, 0x5217], Some (str_or (tk_queue d) (js ''-''))),
     ([0x521B, 0x5EFA, 0x65F6, 0x95F4], Some (fmtTime parse (tk_created d))), ([0x5F00, 0x59CB, 0x65F6, 0x95F4], Some (fmtTime parse (tk_started d))),
     ([0x5B8C, 0x6210, 0x65F6, 0x95F4], Some (fmtTime parse (tk_finished d)))]"

definition progress_class :: "jstr option \<Rightarrow> jstr" where
  "progress_class st = js ''progress mt-8'' @ (if st = Some (js ''FAILED'') then js '' danger''
     else if st = Some (js ''SUCCEEDED'') then js '' success'' else [])"

definition detail_view :: "(jstr \<Rightarrow> jstr) \<Rightarrow> (jstr \<Rightarrow> datetime option) \<Rightarrow> task_row \<Rightarrow> task_click node list" where
  "detail_view native parse d =
     [el (js ''div'') [kl ''kv''] [nodes kv_item (task_fields native parse d)],
      el (js ''div'') [(js ''class'', AStr (progress_class (tk_status d))), att ''style'' (js ''margin-bottom:4px'')]
        [CNode (el (js ''div'') [att ''style'' (percent_style (tk_progress d))] [])],
      el (js ''div'') [kl ''muted text-sm'', tx ([0x8FDB, 0x5EA6, 0x0020] @ dec (tk_progress d) @ js ''%'')] []]
     @ (if truthy (tk_error_message d) then [el (js ''div'') [kl ''evidence-box mt-8'', att ''style'' (js ''border-left:3px solid var(--red)'')]
          [CNode (el (js ''div'') [kl ''ev-head'', tx ([0x9519, 0x8BEF, 0x0020] @ str_or (tk_error_code d) [])] []),
           CNode (el (js ''p'') [kl ''text-sm'', tx (str_or (tk_error_message d) [])] [])]] else [])
     @ (if tk_status d \<in> Some ` set done_statuses then [el (js ''div'') [kl ''flex mt-16'']
          [child_if (tk_status d = Some (js ''SUCCEEDED''))
             (el (js ''button'') [kl ''btn btn-primary btn-sm'', tx [0x67E5, 0x770B, 0x7ED3, 0x679C], on_click (ShowResult (tk_id d))] []),
           CNode (el (js ''button'') [kl ''btn btn-secondary btn-sm'', tx [0x590D, 0x5236, 0x4EFB, 0x52A1, 0x0020, 0x0049, 0x0044], on_click (CopyTaskId (tk_id d))] []),
           CNode (el (js ''button'') [kl ''btn btn-ghost btn-sm'', tx [0x5173, 0x95ED], on_click CloseTask] [])]]
        else [el (js ''div'') [kl ''muted text-sm mt-8'', tx [0x81EA, 0x52A8, 0x5237, 0x65B0, 0x4E2D, 0x2026]] []])"

section \<open>Facts\<close>

lemma safe_status_badge [simp]: "safe_node A (status_badge st)"
  by (simp add: status_badge_def js_inj split: option.split)

lemma safe_task_row [simp]: "safe_node A (task_row_node native parse t)"
  by (simp add: task_row_node_def js_inj)

lemma placeholder_inert: "n \<in> set task_placeholder \<Longrightarrow> t \<in> set (raw_of n) \<Longrightarrow> set t \<inter> {38, 60, 62} = {}"
  by (auto simp: task_placeholder_def js_eval numeral_eq_Suc)

lemma safe_tasks_page: "n \<in> set renderTasksPage \<Longrightarrow> safe_node A n"
  by (auto simp: renderTasksPage_def filter_card_def filter_option_def js_inj split: prod.split)

lemma safe_task_views:
  "n \<in> set (fst (finishLoadTasks native parse st out)) \<Longrightarrow> safe_node A n"
  "n \<in> set (snd (finishLoadTasks native parse st out)) \<Longrightarrow> safe_node A n"
  "n \<in> set (detail_view native parse d) \<Longrightarrow> safe_node A n"
  by (auto simp: finishLoadTasks_def task_pager_nodes_def flag_def no_tasks_def task_table_def task_head_def detail_view_def
      kv_item_def Let_def js_inj split: sum.splits if_splits prod.splits)

lemma task_table_ok: "table_ok 7 (task_table native parse ts)"
proof -
  have row: "spans (task_row_node native parse t) = [1, 1, 1, 1, 1, 1, 1]" for t
    by (simp add: task_row_node_def spans_def js_inj)
  have head: "spans task_head = [1, 1, 1, 1, 1, 1, 1]"
    by (simp add: task_head_def spans_def js_inj)
  have "group_ok 7 [spans task_head]" by (rule group_ok_plain) (simp add: head)
  moreover have "group_ok 7 (map (\<lambda>t. spans (task_row_node native parse t)) ts)"
    by (rule group_ok_plain) (simp add: row list_all_iff)
  ultimately show ?thesis
    by (simp add: table_ok_def task_table_def js_inj concat_map_singleton comp_def)
qed

lemma filter_card_shows: "concat (map shown_controls renderTasksPage) = [[], []]"
  by (simp add: renderTasksPage_def filter_card_def status_options_def type_options_def TASK_TYPE_LABELS_def
      filter_option_def select_shown_def el_fields js_inj)

section \<open>Properties\<close>

text \<open>The filters are forgotten by the page and kept by the query: whatever was chosen before, a
  newly drawn task page shows both filters as unset, yet its list is still restricted to the chosen
  status and type.\<close>

theorem task_filter_forgotten:
  "let st = fold tasks_event evs init_tasks in
   concat (map shown_controls renderTasksPage) = [[], []]
   \<and> (map_of (task_params st) (js ''status'') = (if ts_status st = [] then None else Some (ts_status st)))
   \<and> (\<forall>s evs'. evs = evs' @ [SetStatus s] \<longrightarrow> ts_status st = s)"
  by (auto simp: Let_def filter_card_shows task_params_def tasks_event_def js_inj)

theorem task_filter_forgotten_witness:
  "concat (map shown_controls renderTasksPage) = [[], []]
   \<and> map_of (task_params (fold tasks_event [SetStatus (js ''FAILED'')] init_tasks)) (js ''status'') = Some (js ''FAILED'')"
  using task_filter_forgotten [of "[SetStatus (js ''FAILED'')]"] by (simp add: Let_def js_eval)

section \<open>Answers out of order\<close>

text \<open>
  The page over time. \<open>tg_gen\<close> counts its renderings, \<open>tg_here\<close> says that it is on show; \<open>tg_asks\<close> are
  the requests on their way, each with the rendering whose boxes it will fill and the query it asked;
  \<open>tg_table\<close> and \<open>tg_pager\<close> are what the two boxes hold, \<open>tg_total\<close> the number of tasks from which the
  pager's buttons were made (None: no buttons). \<open>tg_log\<close> is the history of the answers drawn into a
  page on show, with their queries; nothing shortens it. Any answer, good or bad, may be the next.
\<close>

type_synonym task_answer = "failure + (task_row list \<times> int)"

record task_page =
  tg_state :: tasks_state
  tg_here :: bool
  tg_gen :: nat
  tg_asks :: "(nat \<times> tasks_state) list"
  tg_table :: "task_click node list"
  tg_pager :: "task_click node list"
  tg_total :: "int option"
  tg_log :: "(tasks_state \<times> task_answer) list"

datatype task_page_event =
    PickStatus jstr | PickType jstr | PrevButton | NextButton | Refresh
  | Arrive nat task_answer | LeaveTasks | EnterTasks

definition ask_tasks :: "task_page \<Rightarrow> task_page" where
  "ask_tasks pg = pg\<lparr>tg_asks := tg_asks pg @ [(tg_gen pg, tg_state pg)], tg_table := task_placeholder,
     tg_pager := [], tg_total := None\<rparr>"

definition asks_again :: "tasks_event \<Rightarrow> tasks_state \<Rightarrow> bool" where
  "asks_again ev st \<longleftrightarrow> (case ev of SetStatus _ \<Rightarrow> True | SetType _ \<Rightarrow> True
     | PrevPage \<Rightarrow> ts_page st > 1 | NextPage cnt \<Rightarrow> ts_page st < tp_pages (task_pager st cnt))"

definition task_control :: "tasks_event \<Rightarrow> task_page \<Rightarrow> task_page" where
  "task_control ev pg = (if tg_here pg \<and> asks_again ev (tg_state pg)
     then ask_tasks (pg\<lparr>tg_state := tasks_event ev (tg_state pg)\<rparr>) else pg)"

text \<open>The boxes were looked up when the request was sent: an answer of an earlier rendering fills boxes
  that are no longer on the page. A failure leaves the pager's box as it is.\<close>

definition task_answered :: "(jstr \<Rightarrow> jstr) \<Rightarrow> (jstr \<Rightarrow> datetime option) \<Rightarrow> nat \<Rightarrow> task_answer \<Rightarrow> task_page \<Rightarrow> task_page" where
  "task_answered native parse i out pg =
    (let (g, q) = tg_asks pg ! i; (table, pager) = finishLoadTasks native parse (tg_state pg) out;
         pg' = pg\<lparr>tg_asks := take i (tg_asks pg) @ drop (Suc i) (tg_asks pg)\<rparr> in
     if tg_here pg \<and> g = tg_gen pg
     then (case out of
         Inl _ \<Rightarrow> pg'\<lparr>tg_table := table, tg_log := tg_log pg @ [(q, out)]\<rparr>
       | Inr (_, cnt) \<Rightarrow> pg'\<lparr>tg_table := table, tg_pager := pager, tg_total := Some cnt, tg_log := tg_log pg @ [(q, out)]\<rparr>)
     else pg')"

definition task_page_event :: "(jstr \<Rightarrow> jstr) \<Rightarrow> (jstr \<Rightarrow> datetime option) \<Rightarrow> task_page_event \<Rightarrow> task_page \<Rightarrow> task_page" where
  "task_page_event native parse ev pg = (case ev of
     PickStatus s \<Rightarrow> task_control (SetStatus s) pg
   | PickType t \<Rightarrow> task_control (SetType t) pg
   | PrevButton \<Rightarrow> (case tg_total pg of None \<Rightarrow> pg | Some _ \<Rightarrow> task_control PrevPage pg)
   | NextButton \<Rightarrow> (case tg_total pg of None \<Rightarrow> pg | Some cnt \<Rightarrow> task_control (NextPage cnt) pg)
   | Refresh \<Rightarrow> (if tg_here pg then ask_tasks pg else pg)
   | Arrive i out \<Rightarrow> (if i < length (tg_asks pg) then task_answered native parse i out pg else pg)
   | LeaveTasks \<Rightarrow> pg\<lparr>tg_here := False, tg_table := [], tg_pager := [], tg_total := None\<rparr>
   | EnterTasks \<Rightarrow> ask_tasks (pg\<lparr>tg_here := True, tg_gen := Suc (tg_gen pg)\<rparr>))"

definition run_task_page :: "(jstr \<Rightarrow> jstr) \<Rightarrow> (jstr \<Rightarrow> datetime option) \<Rightarrow> task_page_event list \<Rightarrow> task_page \<Rightarrow> task_page" where
  "run_task_page native parse evs pg = fold (task_page_event native parse) evs pg"

definition init_task_page :: task_page where
  "init_task_page = ask_tasks \<lparr>tg_state = init_tasks, tg_here = True, tg_gen = 0, tg_asks = [], tg_table = [], tg_pager = [],
     tg_total = None, tg_log = []\<rparr>"

fun in_order :: "task_page_event \<Rightarrow> bool" where
  "in_order (Arrive i out) = (i = 0)"
| "in_order ev = True"

text \<open>The table shows the answer to the query on the page; the pager too, when the answer is good.\<close>

definition answer_shown :: "(jstr \<Rightarrow> jstr) \<Rightarrow> (jstr \<Rightarrow> datetime option) \<Rightarrow> tasks_state \<Rightarrow> task_answer \<Rightarrow> task_page \<Rightarrow> bool" where
  "answer_shown native parse q out pg \<longleftrightarrow> tg_log pg \<noteq> [] \<and> last (tg_log pg) = (q, out)
     \<and> tg_table pg = fst (finishLoadTasks native parse (tg_state pg) out)
     \<and> (case out of Inl _ \<Rightarrow> True | Inr _ \<Rightarrow> tg_pager pg = snd (finishLoadTasks native parse (tg_state pg) out))"

definition current_last :: "(jstr \<Rightarrow> jstr) \<Rightarrow> (jstr \<Rightarrow> datetime option) \<Rightarrow> task_page \<Rightarrow> bool" where
  "current_last native parse pg \<longleftrightarrow> (tg_here pg \<longrightarrow> (if tg_asks pg = [] then (\<exists>out. answer_shown native parse (tg_state pg) out pg)
     else last (tg_asks pg) = (tg_gen pg, tg_state pg)))"

lemma ask_tasks_last [simp]: "current_last native parse (ask_tasks pg)"
  by (simp add: current_last_def ask_tasks_def)

lemma task_control_last: "current_last native parse pg \<Longrightarrow> current_last native parse (task_control e pg)"
  by (simp add: task_control_def)

lemma task_answered_last:
  assumes "current_last native parse pg" "tg_asks pg \<noteq> []"
  shows "current_last native parse (task_answered native parse 0 out pg)"
proof (cases "tg_here pg")
  case True
  obtain g q qs where a: "tg_asks pg = (g, q) # qs" using assms(2) by (cases "tg_asks pg") auto
  show ?thesis
  proof (cases "qs = []")
    case True
    then have "g = tg_gen pg \<and> q = tg_state pg" using assms(1) \<open>tg_here pg\<close> a by (simp add: current_last_def)
    then show ?thesis
      using a True \<open>tg_here pg\<close>
      by (auto simp: current_last_def answer_shown_def task_answered_def Let_def case_prod_beta split: sum.splits)
  next
    case False
    then show ?thesis
      using assms(1) a by (auto simp: current_last_def task_answered_def Let_def split: sum.splits prod.splits)
  qed
next
  case False
  then show ?thesis by (simp add: current_last_def task_answered_def case_prod_beta Let_def)
qed

lemma current_last_step:
  "current_last native parse pg \<Longrightarrow> in_order ev \<Longrightarrow> current_last native parse (task_page_event native parse ev pg)"
  by (cases ev)
    (auto simp: task_page_event_def task_control_last task_answered_last current_last_def [of _ _ "pg\<lparr>tg_here := False, tg_table := [], tg_pager := [], tg_total := None\<rparr>"]
      split: option.split)

lemma current_last_run:
  "current_last native parse pg \<Longrightarrow> list_all in_order evs \<Longrightarrow> current_last native parse (run_task_page native parse evs pg)"
  unfolding run_task_page_def by (induction evs arbitrary: pg) (simp_all add: current_last_step)

text \<open>C18: as long as answers arrive in the order of their requests, whatever they are, a task page on show
  with no request on its way shows the answer to the query on the page: its rows, the empty list or the
  error, and with rows the pager of that answer. When two answers change places, it is left with the
  answer to a query that the page no longer shows.\<close>

theorem task_list_follows_query:
  "(list_all in_order evs \<and> tg_here (run_task_page native parse evs init_task_page)
      \<and> tg_asks (run_task_page native parse evs init_task_page) = [] \<longrightarrow>
      (\<exists>out. answer_shown native parse (tg_state (run_task_page native parse evs init_task_page)) out
        (run_task_page native parse evs init_task_page)))
   \<and> (\<exists>evs' old. let pg = run_task_page native parse evs' init_task_page in
        tg_here pg \<and> tg_asks pg = [] \<and> answer_shown native parse old answer pg \<and> task_params old \<noteq> task_params (tg_state pg))"
proof -
  have "current_last native parse (run_task_page native parse evs init_task_page)" if "list_all in_order evs"
    by (rule current_last_run [OF _ that]) (simp add: init_task_page_def)
  moreover have "let pg = run_task_page native parse [PickStatus (js ''FAILED''), Arrive 1 (Inr ([], 0)), Arrive 0 answer] init_task_page in
        tg_here pg \<and> tg_asks pg = [] \<and> answer_shown native parse init_tasks answer pg \<and> task_params init_tasks \<noteq> task_params (tg_state pg)"
    by (auto simp: run_task_page_def task_page_event_def task_control_def task_answered_def answer_shown_def ask_tasks_def
        init_task_page_def asks_again_def tasks_event_def init_tasks_def task_params_def Let_def js_eval case_prod_beta split: sum.splits)
  then have "\<exists>evs' old. let pg = run_task_page native parse evs' init_task_page in
        tg_here pg \<and> tg_asks pg = [] \<and> answer_shown native parse old answer pg \<and> task_params old \<noteq> task_params (tg_state pg)"
    by blast
  ultimately show ?thesis by (auto simp: current_last_def)
qed

text \<open>A failed answer to the second query: the table is left with the error, not with the rows of the first.\<close>

theorem task_list_follows_query_witness:
  "let t = \<lparr>tk_id = Some (js ''t''), tk_type = None, tk_status = None, tk_stage = None, tk_queue = None, tk_progress = 0,
        tk_created = None, tk_started = None, tk_finished = None, tk_error_message = None, tk_error_code = None\<rparr>;
       pg = run_task_page (\<lambda>_. []) (\<lambda>_. None) [PickStatus (js ''FAILED''), Arrive 0 (Inr ([t], 1)), Arrive 0 (Inl (Raised []))] init_task_page
   in ts_status (tg_state pg) = js ''FAILED'' \<and> answer_shown (\<lambda>_. []) (\<lambda>_. None) (tg_state pg) (Inl (Raised [])) pg"
proof -
  define t where "t = \<lparr>tk_id = Some (js ''t''), tk_type = None, tk_status = None, tk_stage = None, tk_queue = None, tk_progress = 0,
        tk_created = None, tk_started = None, tk_finished = None, tk_error_message = None, tk_error_code = None\<rparr>"
  define evs where "evs = [PickStatus (js ''FAILED''), Arrive 0 (Inr ([t], 1)), Arrive 0 (Inl (Raised []))]"
  define pg where "pg = run_task_page (\<lambda>_. []) (\<lambda>_. None) evs init_task_page"
  have o: "list_all in_order evs" by (simp add: evs_def)
  have s: "tg_here pg" "tg_asks pg = []" "ts_status (tg_state pg) = js ''FAILED''" "snd (last (tg_log pg)) = Inl (Raised [])"
    by (simp_all add: pg_def evs_def run_task_page_def task_page_event_def task_control_def task_answered_def ask_tasks_def
        init_task_page_def asks_again_def tasks_event_def init_tasks_def Let_def case_prod_beta)
  obtain out where "answer_shown (\<lambda>_. []) (\<lambda>_. None) (tg_state pg) out pg"
    using task_list_follows_query [of evs "\<lambda>_. []" "\<lambda>_. None"] o s(1,2) unfolding pg_def [symmetric] by blast
  moreover from this have "out = Inl (Raised [])" using s(4) by (simp add: answer_shown_def)
  ultimately show ?thesis using s(3) unfolding Let_def t_def [symmetric] evs_def [symmetric] pg_def [symmetric] by simp
qed

end
