(* ===== verification/PageViews.thy ===== *)
theory PageViews
  imports DraftFlow ElementFields Markup
begin

text \<open>
  The markup of the review page (\<open>renderReviewPage\<close>, \<open>buildReviewDropzone\<close>,
  \<open>renderReviewFiles\<close>), of the draft page (\<open>renderDraftPage\<close>, \<open>renderElementForm\<close>,
  \<open>buildInlineFillField\<close>, \<open>buildAttachmentField\<close>, \<open>renderElementsFiles\<close>), and of two of its dialogs
  (\<open>renderFillReviewStart\<close>, \<open>openExtractDialog\<close> with \<open>loadElementSchema\<close>). What a freshly drawn page
  shows in its controls is compared with the state it was drawn from.
\<close>

datatype page_click =
    TypePackageId | SelectType | SelectParty | TypeJurisdictionBox | TypeContextBox | TypeScopeBox
  | ReviewNow | ReviewLater | OpenCredit | OpenCompare | OpenExtract | OpenFillReview
  | OpenPicker | PickedFiles | DropFiles | DragOver | DragLeave | ClearFiles | RemoveFile jsfile
  | FillAllFields | SaveFilled | CopyValues | TypeField jstr | PickSuggestion jstr json | HoldFocus
  | ShowMenu | HideMenu | FocusBox
  | StartExtract | CloseModal | NewField | EditField catalog_field | DropField catalog_field
  | SwitchField catalog_field bool

section \<open>The review page\<close>

definition type_option :: "jstr \<Rightarrow> jstr \<Rightarrow> page_click node" where
  "type_option cur t = el (js ''option'') [att ''value'' t, tx (if t = [] then [0x2014, 0x0020, 0x4E0D, 0x6307, 0x5B9A, 0x0020, 0x2014] else t), flag ''selected'' (t = cur)] []"

definition party_option :: "jstr \<Rightarrow> jstr \<times> jstr \<Rightarrow> page_click node" where
  "party_option cur = (\<lambda>(v, t). el (js ''option'') [att ''value'' v, tx t, flag ''selected'' (cur = v)] [])"

definition form_row :: "page_click child list \<Rightarrow> page_click node" where
  "form_row cs = el (js ''div'') [kl ''form-row''] cs"

definition grid2 :: "page_click node list \<Rightarrow> page_click child" where
  "grid2 ns = CNode (el (js ''div'') [kl ''grid grid-2''] (map CNode ns))"

definition plain_label :: "jstr \<Rightarrow> page_click child" where
  "plain_label t = CNode (el (js ''label'') [tx t] [])"

definition required_label :: "jstr \<Rightarrow> page_click child" where
  "required_label t = CNode (el (js ''label'') [] [CNode (el (js ''span'') [kl ''req'', tx (js ''*'')] []), CStr t])"

definition buildReviewDropzone :: "page_click node" where
  "buildReviewDropzone = listen ''drop'' DropFiles (listen ''dragleave'' DragLeave (listen ''dragover'' DragOver
     (listen ''click'' OpenPicker
      (append_kids (el (js ''div'') [kl ''dropzone'', att ''id'' (js ''review-dropzone'')]
         [CNode (el (js ''div'') [kl ''dz-icon'', tx [0x2191]] []),
          CNode (el (js ''div'') [att ''id'' (js ''review-dz-hint''), tx [0x70B9, 0x51FB, 0x9009, 0x62E9, 0x6216, 0x62D6, 0x62FD, 0x591A, 0x4E2A, 0x5408, 0x540C, 0x6587, 0x4EF6, 0x5230, 0x6B64, 0x5904]] []),
          CNode (el (js ''div'') [kl ''muted'', tx [0x652F, 0x6301, 0x0020, 0x0050, 0x0044, 0x0046, 0x0020, 0x002F, 0x0020, 0x0044, 0x004F, 0x0043, 0x0058, 0x0020, 0x002F, 0x0020, 0x0058, 0x004C, 0x0053, 0x0058]] [])])
        [el (js ''input'') [att ''type'' (js ''file''), kl ''hidden'', (js ''multiple'', ABool True),
           (js ''onchange'', AFun PickedFiles)] []]))))"

text \<open>The select boxes with the current value marked.\<close>

definition type_select :: "jstr \<Rightarrow> page_click node" where
  "type_select cur = el (js ''select'') [kl ''select'', att ''id'' (js ''review-type''), (js ''onchange'', AFun SelectType)]
     [nodes (type_option cur) CONTRACT_TYPES]"

definition party_select :: "jstr \<Rightarrow> page_click node" where
  "party_select cur = el (js ''select'') [kl ''select'', (js ''onchange'', AFun SelectParty)] [nodes (party_option cur) PARTY_OPTIONS]"

definition text_box :: "(jstr \<times> page_click attr) list \<Rightarrow> jstr \<Rightarrow> jstr \<Rightarrow> page_click \<Rightarrow> page_click node" where
  "text_box extra holder v h = el (js ''input'')
     (kl ''input'' # extra @ [att ''placeholder'' holder, att ''value'' v, (js ''oninput'', AFun h)]) []"

definition review_card :: "review_state \<Rightarrow> page_click node" where
  "review_card st = el (js ''div'') [kl ''card'']
     [CNode (el (js ''div'') [kl ''card-title'', tx [0x5408, 0x540C, 0x5305]] [CNode (el (js ''span'') [kl ''hint'', tx [0x652F, 0x6301, 0x591A, 0x6587, 0x4EF6]] [])]),
      CNode (form_row [required_label [0x0020, 0x5408, 0x540C, 0x9644, 0x4EF6, 0x6587, 0x4EF6, 0xFF08, 0x53EF, 0x591A, 0x9009, 0xFF09], CNode buildReviewDropzone,
        CNode (el (js ''div'') [att ''id'' (js ''review-files'')] [])]),
      grid2 [form_row [required_label [0x0020, 0x5408, 0x540C, 0x5305, 0x0020, 0x0049, 0x0044, 0xFF08, 0x0050, 0x0061, 0x0063, 0x006B, 0x0061, 0x0067, 0x0065, 0x0049, 0x0064, 0xFF09],
          CNode (text_box [att ''id'' (js ''review-pkg'')] [0x6BCF, 0x6B21, 0x65B0, 0x6587, 0x4EF6, 0x81EA, 0x52A8, 0x751F, 0x6210, 0xFF0C, 0x53EF, 0x6539] (packageId st) TypePackageId)],
        form_row [plain_label [0x5408, 0x540C, 0x7C7B, 0x578B, 0xFF08, 0x0043, 0x006F, 0x006E, 0x0074, 0x0072, 0x0061, 0x0063, 0x0074, 0x0054, 0x0079, 0x0070, 0x0065, 0xFF09], CNode (type_select (contractType st))]],
      grid2 [form_row [plain_label [0x672C, 0x65B9, 0x4EA4, 0x6613, 0x7ACB, 0x573A, 0xFF08, 0x0050, 0x0061, 0x0072, 0x0074, 0x0079, 0x0050, 0x006F, 0x0073, 0x0069, 0x0074, 0x0069, 0x006F, 0x006E, 0xFF09], CNode (party_select (partyPosition st))],
        form_row [plain_label [0x9002, 0x7528, 0x6CD5, 0x57DF, 0xFF08, 0x004A, 0x0075, 0x0072, 0x0069, 0x0073, 0x0064, 0x0069, 0x0063, 0x0074, 0x0069, 0x006F, 0x006E, 0xFF09], CNode (text_box [] [0x5982, 0xFF1A, 0x4E2D, 0x56FD, 0x5927, 0x9646] (jurisdiction st) TypeJurisdictionBox)]],
      grid2 [form_row [plain_label [0x4EA4, 0x6613, 0x80CC, 0x666F, 0xFF08, 0x0054, 0x0072, 0x0061, 0x006E, 0x0073, 0x0061, 0x0063, 0x0074, 0x0069, 0x006F, 0x006E, 0x0043, 0x006F, 0x006E, 0x0074, 0x0065, 0x0078, 0x0074, 0xFF09],
          CNode (el (js ''textarea'') [kl ''input'', att ''rows'' (js ''3''), att ''placeholder'' [0x5982, 0xFF1A, 0x8F6F, 0x4EF6, 0x5F00, 0x53D1, 0x9879, 0x76EE, 0x91C7, 0x8D2D, 0xFF0C, 0x91CD, 0x70B9, 0x5173, 0x6CE8, 0x4ED8, 0x6B3E, 0x4E0E, 0x9A8C, 0x6536],
            (js ''oninput'', AFun TypeContextBox)] [])],
        form_row [plain_label [0x5BA1, 0x67E5, 0x8303, 0x56F4, 0xFF08, 0x0052, 0x0065, 0x0076, 0x0069, 0x0065, 0x0077, 0x0053, 0x0063, 0x006F, 0x0070, 0x0065, 0xFF09],
          CNode (text_box [] [0x89C4, 0x5219, 0x0020, 0x0063, 0x0061, 0x0074, 0x0065, 0x0067, 0x006F, 0x0072, 0x0079, 0x0020, 0x6216, 0x0020, 0x0049, 0x0044, 0xFF0C, 0x9017, 0x53F7, 0x5206, 0x9694, 0xFF1B, 0x7F3A, 0x7701, 0x4E3A, 0x5168, 0x90E8] (reviewScope st) TypeScopeBox)]],
      CNode (el (js ''div'') [kl ''action-bar mt-8'']
        [CNode (el (js ''div'') [kl ''flex'', att ''style'' (js ''flex-wrap:wrap'')]
          [CNode (el (js ''button'') [kl ''btn btn-primary'', att ''id'' sync_button, tx [0x540C, 0x6B65, 0x5BA1, 0x67E5], on_click ReviewNow] []),
           CNode (el (js ''button'') [kl ''btn btn-secondary'', att ''id'' async_button, tx [0x5F02, 0x6B65, 0x5BA1, 0x67E5], on_click ReviewLater] []),
           CNode (el (js ''button'') [kl ''btn btn-ghost'', tx [0x5BA2, 0x5546, 0x98CE, 0x9669], on_click OpenCredit] []),
           CNode (el (js ''button'') [kl ''btn btn-ghost'', tx [0x7248, 0x672C, 0x6BD4, 0x5BF9], on_click OpenCompare] []),
           CNode (el (js ''span'') [kl ''muted'', tx [0x5927, 0x6279, 0x91CF, 0x8BF7, 0x8D70, 0x5F02, 0x6B65, 0xFF0C, 0x7ED3, 0x679C, 0x53EF, 0x5728, 0x4EFB, 0x52A1, 0x4E2D, 0x5FC3, 0x67E5, 0x770B]] [])])])]"

definition renderReviewPage :: "review_state \<Rightarrow> page_click node list" where
  "renderReviewPage st = [pageHead (js ''CONTRACT REVIEW'') [0x5408, 0x540C, 0x5BA1, 0x67E5]
       [0x4E0A, 0x4F20, 0x5408, 0x540C, 0x540E, 0x6309, 0x98CE, 0x9669, 0x70B9, 0x0020, 0x002F, 0x0020, 0x5408, 0x7406, 0x6027, 0x0020, 0x002F, 0x0020, 0x5185, 0x63A7, 0x0020, 0x002F, 0x0020, 0x8D44, 0x4FE1, 0x56DB, 0x680F, 0x5C55, 0x793A, 0xFF0C, 0x89C4, 0x5219, 0x6765, 0x81EA, 0x5F53, 0x524D, 0x7248, 0x672C, 0x5316, 0x0020, 0x0052, 0x0075, 0x006C, 0x0065, 0x0042, 0x0075, 0x006E, 0x0064, 0x006C, 0x0065],
     review_card st, el (js ''div'') [att ''id'' review_box] []]"

section \<open>Files\<close>

text \<open>\<open>event.preventDefault()\<close> and \<open>stopPropagation()\<close> keep the click from the drop zone.\<close>

definition file_chip :: "jsfile \<Rightarrow> page_click node" where
  "file_chip f = el (js ''span'') [kl ''file-chip'']
     [CNode (el (js ''span'') [tx (fname f @ [0xFF08] @ fmtBytes (Some (fsize f)) @ [0xFF09])] []),
      CNode (el (js ''span'') [kl ''remove'', tx [0x2715], on_click (RemoveFile f)] [])]"

definition review_file_hint :: "jsfile list \<Rightarrow> jstr" where
  "review_file_hint fs = (if fs = [] then [0x70B9, 0x51FB, 0x9009, 0x62E9, 0x6216, 0x62D6, 0x62FD, 0x591A, 0x4E2A, 0x5408, 0x540C, 0x6587, 0x4EF6, 0x5230, 0x6B64, 0x5904]
     else [0x5DF2, 0x6DFB, 0x52A0, 0x0020] @ dec (length fs) @ [0x0020, 0x4E2A, 0x6587, 0x4EF6, 0xFF0C, 0x70B9, 0x51FB, 0x6216, 0x62D6, 0x62FD, 0x53EF, 0x7EE7, 0x7EED, 0x6DFB, 0x52A0])"

definition renderReviewFiles :: "jsfile list \<Rightarrow> page_click node list" where
  "renderReviewFiles fs = (if fs = [] then [] else
     [el (js ''div'') [kl ''upload-ok'']
        [CNode (el (js ''span'') [tx ([0x2713, 0x0020, 0x5DF2, 0x9009, 0x62E9, 0x0020] @ dec (length fs) @ [0x0020, 0x4E2A, 0x6587, 0x4EF6])] []),
         CNode (el (js ''span'') [kl ''muted'', tx ([0xFF08, 0x5171, 0x0020] @ fmtBytes (Some (sum_list (map fsize fs))) @ [0xFF09])] []),
         CNode (el (js ''button'') [kl ''link-btn'', tx [0x6E05, 0x7A7A], on_click ClearFiles] [])]]
     @ map file_chip fs)"

definition elements_file_hint :: "jsfile list \<Rightarrow> jstr" where
  "elements_file_hint fs = (if fs = [] then [0x652F, 0x6301, 0x0020, 0x0050, 0x0044, 0x0046, 0x0020, 0x002F, 0x0020, 0x0044, 0x004F, 0x0043, 0x0058, 0x0020, 0x002F, 0x0020, 0x0058, 0x004C, 0x0053, 0x0058] else [0x5DF2, 0x6DFB, 0x52A0, 0x0020] @ dec (length fs) @ [0x0020, 0x4E2A, 0x6587, 0x4EF6])"

definition renderElementsFiles :: "jsfile list \<Rightarrow> page_click node list" where
  "renderElementsFiles fs = map file_chip fs"

section \<open>The draft page\<close>

definition renderDraftPage :: "elements_state \<Rightarrow> page_click node list" where
  "renderDraftPage st = [pageHead (js ''CONTRACT FORM'') [0x5408, 0x540C, 0x62DF, 0x5B9A] [0x6309, 0x6807, 0x51C6, 0x7248, 0x5408, 0x540C, 0x7BA1, 0x7406, 0xFF1A, 0x5148, 0x4E0A, 0x4F20, 0x5408, 0x540C, 0x9644, 0x4EF6, 0xFF0C, 0x518D, 0x505A, 0x8981, 0x7D20, 0x62BD, 0x53D6, 0x3001, 0x5408, 0x540C, 0x5BA1, 0x67E5, 0x548C, 0x6587, 0x6863, 0x5BF9, 0x6BD4],
     el (js ''div'') [kl ''card'']
       [CNode (el (js ''div'') [kl ''flex'', att ''style'' (js ''flex-wrap:wrap;gap:8px;align-items:center'')]
         [CNode (el (js ''button'') [kl ''btn btn-primary'', tx [0x8981, 0x7D20, 0x62BD, 0x53D6], on_click OpenExtract] []),
          CNode (el (js ''button'') [kl ''btn btn-secondary'', tx [0x5408, 0x540C, 0x5BA1, 0x67E5], on_click OpenFillReview] []),
          CNode (el (js ''button'') [kl ''btn btn-ghost'', tx [0x5BA2, 0x5546, 0x98CE, 0x9669], on_click OpenCredit] []),
          CNode (el (js ''button'') [kl ''btn btn-ghost'', tx [0x6587, 0x6863, 0x5BF9, 0x6BD4], on_click OpenCompare] []),
          CNode (el (js ''span'') [kl ''muted'', att ''id'' (js ''elements-status''), tx (elementsStatusText st)] [])])],
     el (js ''div'') [att ''id'' (js ''contract-fill-form'')]
       [CNode (el (js ''div'') [kl ''card''] [CNode (muted [0x52A0, 0x8F7D, 0x5408, 0x540C, 0x8868, 0x5355, 0x2026])])]]"

definition buildAttachmentField :: "page_click node" where
  "buildAttachmentField = el (js ''div'') [kl ''contract-field'']
     [CNode (el (js ''label'') [kl ''contract-label''] [CNode (el (js ''span'') [kl ''req'', tx (js ''*'')] []), CStr [0x0020, 0x5408, 0x540C, 0x9644, 0x4EF6]]),
      CNode (listen ''drop'' DropFiles (listen ''dragleave'' DragLeave (listen ''dragover'' DragOver
        (el (js ''div'') [kl ''attachment-control'', att ''id'' (js ''elements-dropzone'')]
          [CNode (el (js ''button'') [att ''type'' (js ''button''), kl ''btn btn-ghost btn-sm'', tx [0x6DFB, 0x52A0, 0x9644, 0x4EF6], on_click OpenPicker] []),
           CNode (el (js ''span'') [kl ''muted'', att ''id'' (js ''elements-dz-hint''), tx [0x652F, 0x6301, 0x0020, 0x0050, 0x0044, 0x0046, 0x0020, 0x002F, 0x0020, 0x0044, 0x004F, 0x0043, 0x0058, 0x0020, 0x002F, 0x0020, 0x0058, 0x004C, 0x0053, 0x0058]] []),
           CNode (el (js ''input'') [att ''type'' (js ''file''), kl ''hidden'', att ''id'' (js ''elements-file-input''),
             (js ''multiple'', ABool True), att ''accept'' (js ''.pdf,.doc,.docx,.xlsx,application/pdf,application/msword,application/vnd.openxmlformats-officedocument.wordprocessingml.document,application/vnd.openxmlformats-officedocument.spreadsheetml.sheet''),
             (js ''onchange'', AFun PickedFiles)] []),
           CNode (el (js ''div'') [kl ''attachment-files'', att ''id'' (js ''elements-files'')] [])]))))]"

text \<open>One suggestion of the menu; its text and its tooltip convert the value, which may raise.\<close>

definition suggestion :: "(jstr \<Rightarrow> jstr) \<Rightarrow> form_item \<Rightarrow> json \<Rightarrow> js_error + page_click node" where
  "suggestion fixed2 it v = map_sum id (\<lambda>t. el (js ''button'')
     [att ''type'' (js ''button''), kl ''fill-dropdown-item'', tx t, att ''title'' (elementFieldHint fixed2 it v),
      (js ''onmousedown'', AFun HoldFocus), on_click (PickSuggestion (fi_key it) v)] []) (to_string v)"

definition field_input :: "(jstr \<Rightarrow> jstr) \<Rightarrow> elements_state \<Rightarrow> form_item \<Rightarrow> json list \<Rightarrow> page_click node" where
  "field_input fixed2 st it vs = (let inp = el (js ''input'') [kl ''input fill-input'', att ''data-element-key'' (fi_key it),
       att ''value'' (shown_value st (fi_key it)), att ''placeholder'' [0x8BF7, 0x8F93, 0x5165],
       att ''title'' (if vs = [] then [] else elementFieldHint fixed2 it (hd vs)), (js ''oninput'', AFun (TypeField (fi_key it)))] []
     in if vs = [] then inp else listen ''blur'' HideMenu (listen ''click'' ShowMenu (listen ''focus'' ShowMenu inp)))"

text \<open>\<open>text: item.label\<close>\<close>

definition label_attr :: "json \<Rightarrow> page_click attr" where
  "label_attr v = (case v of JUndef \<Rightarrow> AUndef | JNull \<Rightarrow> ANull | _ \<Rightarrow> AStr (dom_text v))"

definition buildInlineFillField :: "(jstr \<Rightarrow> jstr) \<Rightarrow> elements_state \<Rightarrow> form_item \<Rightarrow> js_error + page_click node" where
  "buildInlineFillField fixed2 st it = (case candidateValues it of
     Inl x \<Rightarrow> Inl x
   | Inr vs \<Rightarrow> map_sum id (\<lambda>menu.
       el (js ''div'') [kl ''contract-field'']
         [CNode (el (js ''label'') [kl ''contract-label'', (js ''text'', label_attr (fi_label it))] []),
          CNode (listen ''mousedown'' FocusBox (el (js ''div'') [kl ''in-input-box'']
            [CNode (field_input fixed2 st it vs),
             (if vs = [] then CNull else CNode (el (js ''div'') [kl ''fill-dropdown hidden''] [nodes id menu]))]))])
       (seq_results (map (suggestion fixed2 it) vs)))"

definition element_card :: "elements_state \<Rightarrow> page_click node list \<Rightarrow> page_click node" where
  "element_card st drawn = el (js ''div'') [kl ''card contract-form-card'']
     [CNode (el (js ''div'') [kl ''card-title'', tx [0x5408, 0x540C, 0x4FE1, 0x606F]]
        [CNode (el (js ''span'') [kl ''hint'', tx [0x70B9, 0x5F00, 0x8F93, 0x5165, 0x6846, 0x540E, 0xFF0C, 0x62BD, 0x51FA, 0x7684, 0x5185, 0x5BB9, 0x5728, 0x4E0B, 0x65B9, 0x4E0B, 0x62C9, 0x5217, 0x8868, 0x4E2D, 0x7AD6, 0x6392, 0x663E, 0x793A]] []),
         CNode (el (js ''span'') [kl ''grow''] []),
         child_if (list_ex (\<lambda>it. json_truthy (fi_value it)) (elementFormItems st))
           (el (js ''button'') [kl ''link-btn'', tx [0x586B, 0x5165, 0x5168, 0x90E8, 0x62BD, 0x53D6, 0x7ED3, 0x679C], on_click FillAllFields] [])]),
      CNode (el (js ''div'') [kl ''contract-form-grid''] [CNode buildAttachmentField, nodes id drawn]),
      CNode (el (js ''div'') [kl ''action-bar mt-8'']
        [CNode (el (js ''button'') [kl ''btn btn-primary'', tx [0x4FDD, 0x5B58, 0x5F53, 0x524D, 0x586B, 0x5199], on_click SaveFilled] []),
         CNode (el (js ''button'') [kl ''btn btn-ghost'', tx [0x590D, 0x5236, 0x0020, 0x004A, 0x0053, 0x004F, 0x004E], on_click CopyValues] [])])]"

definition renderElementForm :: "(jstr \<Rightarrow> jstr) \<Rightarrow> elements_state \<Rightarrow> js_error + page_click node" where
  "renderElementForm fixed2 st = map_sum id (element_card st)
     (seq_results (map (buildInlineFillField fixed2 st) (elementFormItems st)))"

text \<open>What the reading of the form finds (\<open>collectElementValues\<close>, \<open>fillAllExtracted\<close>): the boxes that carry a
  field's key, with the key and the value shown.\<close>

definition form_boxes :: "page_click node \<Rightarrow> inputs" where
  "form_boxes n = map (\<lambda>(k, m). (k, concat (shown_controls m))) (elements_with (js ''data-element-key'') n)"

section \<open>The dialogs\<close>

definition renderFillReviewStart :: "elements_state \<Rightarrow> review_state \<Rightarrow> page_click node" where
  "renderFillReviewStart els st = el (js ''div'') []
     [CNode (muted [0x5BF9, 0x7167, 0x6B63, 0x5F0F, 0x89C4, 0x5219, 0x5305, 0x5BA1, 0x67E5, 0x672C, 0x5408, 0x540C, 0xFF0C, 0x7ED3, 0x679C, 0x6309, 0x5185, 0x63A7, 0x0020, 0x002F, 0x0020, 0x5408, 0x7406, 0x6027, 0x0020, 0x002F, 0x0020, 0x98CE, 0x9669, 0x70B9, 0x0020, 0x002F, 0x0020, 0x8D44, 0x4FE1, 0x5C55, 0x793A, 0xFF1B, 0x8981, 0x7D20, 0x5B57, 0x6BB5, 0x540C, 0x65F6, 0x4F1A, 0x56DE, 0x586B, 0x5230, 0x5408, 0x540C, 0x62DF, 0x5B9A, 0x8868, 0x5355, 0x3002]),
      grid2 [form_row [plain_label [0x5408, 0x540C, 0x5305, 0x0020, 0x0049, 0x0044],
          CNode (el (js ''input'') [kl ''input'', att ''id'' (js ''fill-review-pkg''), att ''value'' (elPackageId els), (js ''oninput'', AFun TypePackageId)] [])],
        form_row [plain_label [0x5408, 0x540C, 0x7C7B, 0x578B],
          CNode (el (js ''select'') [kl ''select'', (js ''onchange'', AFun SelectType)] [nodes (type_option (contractType st)) CONTRACT_TYPES])]],
      CNode (el (js ''div'') [kl ''action-bar mt-8'']
        [CNode (el (js ''button'') [kl ''btn btn-primary'', att ''id'' (js ''btn-fill-review''), tx [0x5F00, 0x59CB, 0x5BA1, 0x67E5], on_click ReviewNow] [])])]"

definition extract_dialog :: "elements_state \<Rightarrow> page_click node" where
  "extract_dialog st = el (js ''div'') [kl ''extract-workspace'']
     [CNode (el (js ''div'') [att ''id'' (js ''extract-preview'')] []),
      CNode (el (js ''div'') [kl ''extract-dialog'']
        [CNode (el (js ''div'') [att ''id'' (js ''element-schema'')] []),
         CNode (form_row [required_label [0x0020, 0x5408, 0x540C, 0x5305, 0x0020, 0x0049, 0x0044],
           CNode (el (js ''input'') [kl ''input'', att ''id'' (js ''elements-pkg''), att ''value'' (elPackageId st), (js ''oninput'', AFun TypePackageId)] [])]),
         CNode (el (js ''div'') [kl ''action-bar mt-8'']
           [CNode (el (js ''button'') [kl ''btn btn-primary'', att ''id'' (js ''btn-elements-sync''), tx [0x5F00, 0x59CB, 0x62BD, 0x53D6], on_click StartExtract] []),
            CNode (el (js ''button'') [kl ''btn btn-ghost'', tx [0x53D6, 0x6D88], on_click CloseModal] [])])])]"

text \<open>The field catalogue (\<open>loadElementSchema\<close>).\<close>

record catalog =
  ca_fields :: "catalog_field list"
  ca_editable :: bool
  ca_id :: "jstr option"
  ca_version :: "jstr option"
  ca_fingerprint :: "jstr option"

definition schema_head :: "page_click node" where
  "schema_head = el (js ''tr'') [] [nodes (\<lambda>t. el (js ''th'') [tx t] [])
     [[0x8981, 0x7D20, 0x540D, 0x79F0], [0x5B57, 0x6BB5, 0x952E], [0x522B, 0x540D, 0x002F, 0x63D0, 0x793A, 0x8BCD], [0x5FC5, 0x586B], [0x662F, 0x5426, 0x542F, 0x7528], [0x64CD, 0x4F5C]]]"

definition schema_row :: "bool \<Rightarrow> catalog_field \<Rightarrow> page_click node" where
  "schema_row editable f = (let on = (cf_enabled f = Some True); names = join [0x3001] (cf_aliases f) in
     el (js ''tr'') []
      [CNode (el (js ''td'') [kl ''rule-title'', (js ''text'', nullable (cf_label f))] []),
       CNode (el (js ''td'') [kl ''mono'', (js ''text'', nullable (cf_key f))] []),
       CNode (el (js ''td'') [kl ''muted'', tx (if names = [] then js ''-'' else names)] []),
       CNode (el (js ''td'') [] [CNode (if cf_required f then el (js ''span'') [kl ''badge orange'', tx [0x662F]] []
          else el (js ''span'') [kl ''muted'', tx [0x5426]] [])]),
       CNode (el (js ''td'') [] [CNode (el (js ''button'')
          [(js ''class'', AStr (js ''enable-toggle'' @ (if on then js '' on'' else []))), tx (if on then [0x662F] else [0x5426]),
           flag ''disabled'' (\<not> editable), on_click (SwitchField f (\<not> on))] [])]),
       CNode (el (js ''td'') [] (if editable
          then [CNode (el (js ''button'') [kl ''link-btn'', tx [0x7F16, 0x8F91], on_click (EditField f)] []),
                CNode (el (js ''button'') [kl ''link-btn danger'', tx [0x5220, 0x9664], on_click (DropField f)] [])]
          else [CNode (el (js ''span'') [kl ''muted'', tx (js ''-'')] [])]))])"

definition schema_table :: "bool \<Rightarrow> catalog_field list \<Rightarrow> page_click node" where
  "schema_table editable fs = el (js ''table'') [kl ''table'']
     [CNode (el (js ''thead'') [] [CNode schema_head]), CNode (el (js ''tbody'') [] [nodes (schema_row editable) fs])]"

text \<open>A member that is absent prints as \<open>undefined\<close> in a template.\<close>

definition printed :: "jstr option \<Rightarrow> jstr" where
  "printed v = (case v of Some t \<Rightarrow> t | None \<Rightarrow> js ''undefined'')"

definition schema_block :: "catalog \<Rightarrow> page_click node" where
  "schema_block c = el (js ''div'') [kl ''schema-block'']
     [CNode (el (js ''div'') [kl ''card-title'']
        [CNode (el (js ''span'') [tx [0x81EA, 0x5B9A, 0x4E49, 0x62BD, 0x53D6, 0x8981, 0x7D20]] []),
         CNode (el (js ''span'') [kl ''hint'', tx ([0x5171, 0x0020] @ dec (length (ca_fields c)) @ [0x0020, 0x9879, 0x0020, 0x00B7, 0x0020, 0x542F, 0x7528, 0x540E, 0x624D, 0x4F1A, 0x62BD, 0x53D6])] []),
         CNode (el (js ''span'') [kl ''grow''] []),
         CNode (if ca_editable c then el (js ''button'') [kl ''btn btn-primary btn-sm'', tx [0x65B0, 0x589E, 0x8981, 0x7D20], on_click NewField] []
           else el (js ''span'') [kl ''badge gray'', tx [0x53EA, 0x8BFB]] [])]),
      child_if (\<not> ca_editable c) (muted [0x5F53, 0x524D, 0x4F7F, 0x7528, 0x5185, 0x7F6E, 0x8981, 0x7D20, 0x5B9A, 0x4E49, 0xFF08, 0x672A, 0x914D, 0x7F6E, 0x0020, 0x0043, 0x004F, 0x004E, 0x0054, 0x0052, 0x0041, 0x0043, 0x0054, 0x005F, 0x0045, 0x004C, 0x0045, 0x004D, 0x0045, 0x004E, 0x0054, 0x005F, 0x0046, 0x0049, 0x0045, 0x004C, 0x0044, 0x0053, 0x005F, 0x0050, 0x0041, 0x0054, 0x0048, 0xFF09, 0xFF0C, 0x65E0, 0x6CD5, 0x5728, 0x7EBF, 0x7F16, 0x8F91, 0x3002]),
      CNode (el (js ''div'') [kl ''table-wrap''] [CNode (schema_table (ca_editable c) (ca_fields c))]),
      CNode (muted ([0x76EE, 0x5F55, 0x0020] @ printed (ca_id c) @ [0x0020, 0x00B7, 0x0020, 0x62BD, 0x53D6, 0x5668, 0x0020] @ printed (ca_version c) @ [0x0020, 0x00B7, 0x0020, 0x6307, 0x7EB9, 0x0020] @ printed (shortId (ca_fingerprint c))))]"

section \<open>What the controls show\<close>

lemma options_shown:
  "select_shown (map (type_option cur) CONTRACT_TYPES) = cur" if "cur \<in> set CONTRACT_TYPES"
  using that by (intro select_shown_marked [where v = id]) (auto simp: type_option_def flag_def el_fields js_inj)

lemma party_shown:
  "select_shown (map (party_option cur) PARTY_OPTIONS) = cur" if "cur \<in> fst ` set PARTY_OPTIONS"
  using that by (intro select_shown_marked [where v = fst]) (auto simp: party_option_def flag_def el_fields js_inj split: prod.splits)

lemma controls_text_box: "no_html extra \<Longrightarrow> list_all (\<lambda>a. fst a \<noteq> js ''value'') extra \<Longrightarrow> shown_controls (text_box extra holder v h) = [v]"
proof -
  assume e: "no_html extra" "list_all (\<lambda>a. fst a \<noteq> js ''value'') extra"
  have n: "no_html (xs @ ys) \<longleftrightarrow> no_html xs \<and> no_html ys" for xs ys :: "(jstr \<times> page_click attr) list"
    by (induction xs rule: no_html.induct) simp_all
  show ?thesis using e by (simp add: text_box_def n el_fields js_inj)
qed

lemma controls_shown_parts [simp]:
  "shown_controls (listen ev h n) = shown_controls n"
  "shown_controls (form_row cs) = concat (map shown_controls (concat (map flat_children cs)))"
  "flat_children (grid2 ns) = [el (js ''div'') [kl ''grid grid-2''] (map CNode ns)]"
  "flat_children (plain_label t) = [el (js ''label'') [tx t] []]"
  "flat_children (required_label t) = [el (js ''label'') [] [CNode (el (js ''span'') [kl ''req'', tx (js ''*'')] []), CStr t]]"
  by (cases n, simp_all add: form_row_def grid2_def plain_label_def required_label_def js_inj)+

lemma controls_append [simp]: "no_html as \<Longrightarrow> tg = js ''div'' \<Longrightarrow>
    shown_controls (append_kids (el tg as cs) ns) = concat (map shown_controls (concat (map flat_children cs) @ ns))"
proof -
  assume e: "no_html as" "tg = js ''div''"
  obtain cl ats ls ks where k: "el tg as cs = Element tg cl ats ls ks" using el_Element [of tg as cs] by blast
  have "shown_controls (el tg as cs) = concat (map shown_controls (concat (map flat_children cs)))"
    by (rule controls_el) (use e in \<open>simp_all add: js_inj\<close>)
  then show ?thesis unfolding e(2) k [unfolded e(2)] by (simp add: js_inj)
qed

lemma controls_dropzone: "shown_controls buildReviewDropzone = [[]]"
  by (simp add: buildReviewDropzone_def el_fields js_inj)

lemma review_card_shows:
  assumes "contractType st \<in> set CONTRACT_TYPES" "partyPosition st \<in> fst ` set PARTY_OPTIONS"
  shows "shown_controls (review_card st)
    = [[], packageId st, contractType st, partyPosition st, jurisdiction st, [], reviewScope st]"
proof -
  have "shown_controls (type_select (contractType st)) = [contractType st]" "shown_controls (party_select (partyPosition st)) = [partyPosition st]"
    using options_shown [OF assms(1)] party_shown [OF assms(2)]
    by (simp_all add: type_select_def party_select_def js_inj concat_map_singleton comp_def)
  then show ?thesis
    by (simp add: review_card_def controls_text_box controls_dropzone js_inj)
qed

text \<open>The selects offer every value the state can hold.\<close>

definition offered :: "review_state \<Rightarrow> bool" where
  "offered st \<longleftrightarrow> contractType st \<in> set CONTRACT_TYPES \<and> partyPosition st \<in> fst ` set PARTY_OPTIONS"

lemma offered_input: "offered st \<Longrightarrow> offered (fst (review_input ev st))"
  by (cases ev) (auto simp: offered_def review_input_def setReviewFiles_def Let_def)

lemma offered_run: "offered st \<Longrightarrow> offered (fold (\<lambda>ev st. fst (review_input ev st)) evs st)"
  by (induction evs arbitrary: st) (simp_all add: offered_input)

lemma offered_init: "offered (init_review e)"
  by (simp add: offered_def init_review_def CONTRACT_TYPES_def PARTY_OPTIONS_def)

text \<open>The element form.\<close>

lemma attrs_field_input:
  "map_of (attrs_of (field_input fixed2 st it vs)) (js ''data-element-key'') = Some (fi_key it)"
  "shown_controls (field_input fixed2 st it vs) = [shown_value st (fi_key it)]"
  by (simp_all add: field_input_def el_fields js_inj Let_def)

lemma suggestion_controls: "suggestion fixed2 it v = Inr n \<Longrightarrow> shown_controls n = []"
  by (cases "to_string v") (auto simp: suggestion_def js_inj)

lemma seq_results_mem: "seq_results ys = Inr xs \<Longrightarrow> x \<in> set xs \<Longrightarrow> Inr x \<in> set ys"
  by (induction ys arbitrary: xs rule: seq_results.induct) (auto simp: map_sum_def split: sum.splits)

lemma inline_field_controls:
  assumes "buildInlineFillField fixed2 st it = Inr n"
  shows "shown_controls n = [shown_value st (fi_key it)]"
proof -
  obtain vs menu where vs: "candidateValues it = Inr vs" and m: "seq_results (map (suggestion fixed2 it) vs) = Inr menu"
    using assms by (auto simp: buildInlineFillField_def map_sum_def split: sum.splits)
  have "shown_controls x = []" if x: "x \<in> set menu" for x
    using seq_results_mem [OF m x] suggestion_controls by auto
  then have "concat (map shown_controls menu) = []" by simp
  then show ?thesis
    using assms vs m
    by (auto simp: buildInlineFillField_def attrs_field_input js_inj comp_def concat_map_singleton)
qed

lemma form_fields_controls:
  "seq_results (map (buildInlineFillField fixed2 st) its) = Inr ns
    \<Longrightarrow> concat (map shown_controls ns) = map (\<lambda>it. shown_value st (fi_key it)) its"
proof (induction its arbitrary: ns)
  case (Cons it its)
  then show ?case
    by (cases "buildInlineFillField fixed2 st it")
      (auto simp: map_sum_def inline_field_controls split: sum.splits)
qed simp

lemma element_form_shows:
  assumes "renderElementForm fixed2 st = Inr n"
  shows "shown_controls n = [] # map snd (render_inputs st)"
proof -
  obtain ns where ns: "seq_results (map (buildInlineFillField fixed2 st) (elementFormItems st)) = Inr ns" and n: "n = element_card st ns"
    using assms by (auto simp: renderElementForm_def map_sum_def split: sum.splits)
  have "concat (map shown_controls (concat (map flat_children [nodes id ns]))) = map snd (render_inputs st)"
    using form_fields_controls [OF ns] by (simp add: render_inputs_def comp_def concat_map_singleton)
  then show ?thesis
    by (simp add: n element_card_def child_if_def buildAttachmentField_def el_fields js_inj)
qed

lemma elements_append [simp]: "no_html as \<Longrightarrow> elements_with a (append_kids (el tg as cs) ns)
    = (case map_of (attrs_of (el tg as cs)) a of None \<Rightarrow> [] | Some v \<Rightarrow> [(v, append_kids (el tg as cs) ns)])
      @ concat (map (elements_with a) (concat (map flat_children cs) @ ns))"
proof -
  assume e: "no_html as"
  obtain cl ats ls ks where k: "el tg as cs = Element tg cl ats ls ks" using el_Element [of tg as cs] by blast
  have "elements_with a (el tg as cs) = (case map_of (attrs_of (el tg as cs)) a of None \<Rightarrow> [] | Some v \<Rightarrow> [(v, el tg as cs)])
      @ concat (map (elements_with a) (concat (map flat_children cs)))" by (rule elements_el [OF e])
  then show ?thesis unfolding k by (auto split: option.splits)
qed

lemma listen_ids: "map fst (elements_with a (listen ev h n)) = map fst (elements_with a n)"
  by (cases n) (simp_all split: option.split)

lemma dropzone_ids: "map_of (elements_with (js ''id'') buildReviewDropzone) (js ''review-files'') = None"
proof -
  have "map fst (elements_with (js ''id'') buildReviewDropzone) = [js ''review-dropzone'', js ''review-dz-hint'']"
    by (simp add: buildReviewDropzone_def listen_ids el_fields js_inj)
  then have "js ''review-files'' \<notin> set (map fst (elements_with (js ''id'') buildReviewDropzone))" by (simp add: js_inj)
  then show ?thesis by (simp add: map_of_eq_None_iff)
qed

lemma review_page_file_box:
  "\<exists>box. map_of (concat (map (elements_with (js ''id'')) (renderReviewPage st))) (js ''review-files'') = Some box \<and> kids box = []"
  by (simp add: renderReviewPage_def review_card_def pageHead_def form_row_def grid2_def required_label_def plain_label_def
      map_add_def dropzone_ids el_fields js_inj)

text \<open>The boxes with a field's key, and what they listen to.\<close>

lemma elements_listen:
  "elements_with a (listen ev h n) = (case elements_with a n of [] \<Rightarrow> []
     | (v, m) # ms \<Rightarrow> (v, if has_attr a n then listen ev h m else m) # ms)"
  by (cases n) (auto simp: has_attr_def split: option.split list.split)

lemma has_attr_listen [simp]: "has_attr a (listen ev h n) = has_attr a n"
  by (cases n) (simp_all add: has_attr_def)

lemma listeners_listen: "set (listeners_of n) \<subseteq> set (listeners_of (listen ev h n))"
  by (cases n) auto

lemma field_box:
  "elements_with (js ''data-element-key'') (field_input fixed2 st it vs) = [(fi_key it, field_input fixed2 st it vs)]"
  "(js ''input'', TypeField (fi_key it)) \<in> set (listeners_of (field_input fixed2 st it vs))"
proof -
  define inp where "inp = el (js ''input'') [kl ''input fill-input'', att ''data-element-key'' (fi_key it),
       att ''value'' (shown_value st (fi_key it)), att ''placeholder'' [0x8BF7, 0x8F93, 0x5165],
       att ''title'' (if vs = [] then [] else elementFieldHint fixed2 it (hd vs)), (js ''oninput'', AFun (TypeField (fi_key it)))] []"
  have e: "elements_with (js ''data-element-key'') inp = [(fi_key it, inp)]" "has_attr (js ''data-element-key'') inp"
    by (simp_all add: inp_def el_fields js_inj)
  have l: "(js ''input'', TypeField (fi_key it)) \<in> set (listeners_of inp)"
    by (simp add: inp_def el_def js_eval)
  have f: "field_input fixed2 st it vs = (if vs = [] then inp else listen ''blur'' HideMenu (listen ''click'' ShowMenu (listen ''focus'' ShowMenu inp)))"
    by (simp add: field_input_def inp_def Let_def)
  show "elements_with (js ''data-element-key'') (field_input fixed2 st it vs) = [(fi_key it, field_input fixed2 st it vs)]"
    by (simp add: f e elements_listen)
  show "(js ''input'', TypeField (fi_key it)) \<in> set (listeners_of (field_input fixed2 st it vs))"
    unfolding f by (simp add: l subsetD [OF listeners_listen])
qed

lemma suggestion_keys: "suggestion fixed2 it v = Inr n \<Longrightarrow> elements_with (js ''data-element-key'') n = []"
  by (cases "to_string v") (auto simp: suggestion_def el_fields js_inj)

definition keyed_box :: "elements_state \<Rightarrow> form_item \<Rightarrow> jstr \<times> page_click node \<Rightarrow> bool" where
  "keyed_box st it b \<longleftrightarrow> fst b = fi_key it \<and> shown_controls (snd b) = [shown_value st (fi_key it)]
     \<and> (js ''input'', TypeField (fi_key it)) \<in> set (listeners_of (snd b))"

lemma inline_field_keys:
  assumes "buildInlineFillField fixed2 st it = Inr n"
  shows "\<exists>b. elements_with (js ''data-element-key'') n = [b] \<and> keyed_box st it b"
proof -
  obtain vs menu where vs: "candidateValues it = Inr vs" and m: "seq_results (map (suggestion fixed2 it) vs) = Inr menu"
    using assms by (auto simp: buildInlineFillField_def map_sum_def split: sum.splits)
  have "elements_with (js ''data-element-key'') x = []" if x: "x \<in> set menu" for x
    using seq_results_mem [OF m x] suggestion_keys by auto
  then have "concat (map (elements_with (js ''data-element-key'')) menu) = []" by simp
  then have "elements_with (js ''data-element-key'') n = [(fi_key it, field_input fixed2 st it vs)]"
    using assms vs m
    by (auto simp: buildInlineFillField_def field_box elements_listen el_fields js_inj comp_def concat_map_singleton
        label_attr_def split: list.splits json.splits)
  then show ?thesis by (simp add: keyed_box_def field_box attrs_field_input)
qed

lemma form_fields_keys:
  "seq_results (map (buildInlineFillField fixed2 st) its) = Inr ns
    \<Longrightarrow> list_all2 (keyed_box st) its (concat (map (elements_with (js ''data-element-key'')) ns))"
proof (induction its arbitrary: ns)
  case (Cons it its)
  then show ?case
    by (cases "buildInlineFillField fixed2 st it")
      (auto simp: map_sum_def dest!: inline_field_keys split: sum.splits)
qed simp

lemma element_form_keys:
  assumes "renderElementForm fixed2 st = Inr n"
  shows "list_all2 (keyed_box st) (elementFormItems st) (elements_with (js ''data-element-key'') n)"
proof -
  obtain ns where ns: "seq_results (map (buildInlineFillField fixed2 st) (elementFormItems st)) = Inr ns" and n: "n = element_card st ns"
    using assms by (auto simp: renderElementForm_def map_sum_def split: sum.splits)
  have "elements_with (js ''data-element-key'') n = concat (map (elements_with (js ''data-element-key'')) ns)"
    by (simp add: n element_card_def child_if_def buildAttachmentField_def elements_listen muted_def el_fields js_inj comp_def
        concat_map_singleton)
  with form_fields_keys [OF ns] show ?thesis by simp
qed

section \<open>Raw markup and columns\<close>

lemma safe_children [simp]: "safe_child A (grid2 ns) \<longleftrightarrow> (\<forall>n \<in> set ns. safe_node A n)" "safe_child A (plain_label t)"
  "safe_child A (required_label t)" "safe_node A (form_row cs) \<longleftrightarrow> list_all (safe_child A) cs"
  by (simp_all add: grid2_def plain_label_def required_label_def form_row_def js_inj)

lemma safe_append_kids: "safe_node A n \<Longrightarrow> (\<forall>m \<in> set ns. safe_node A m) \<Longrightarrow> safe_node A (append_kids n ns)"
  by (cases n) (auto simp: safe_node_def)

lemma safe_review_page: "n \<in> set (renderReviewPage st) \<Longrightarrow> safe_node A n"
proof -
  have "safe_node A buildReviewDropzone"
    by (simp add: buildReviewDropzone_def js_inj safe_append_kids)
  moreover have "safe_node A (text_box extra holder v h)" if "no_html extra" for extra holder v h
  proof -
    have "no_html (xs @ ys) \<longleftrightarrow> no_html xs \<and> no_html ys" for xs ys :: "(jstr \<times> page_click attr) list"
      by (induction xs rule: no_html.induct) simp_all
    then show ?thesis using that by (simp add: text_box_def js_inj)
  qed
  moreover have "safe_node A (type_select c)" "safe_node A (party_select p)" for c p
    by (simp_all add: type_select_def party_select_def type_option_def party_option_def flag_def js_inj split: prod.split)
  ultimately show "n \<in> set (renderReviewPage st) \<Longrightarrow> ?thesis"
    by (auto simp: renderReviewPage_def review_card_def js_inj)
qed

lemma safe_files: "n \<in> set (renderReviewFiles fs) \<Longrightarrow> safe_node A n" "n \<in> set (renderElementsFiles fs) \<Longrightarrow> safe_node A n"
  by (auto simp: renderReviewFiles_def renderElementsFiles_def file_chip_def js_inj split: if_splits)

lemma safe_suggestion: "suggestion fixed2 it v = Inr n \<Longrightarrow> safe_node A n"
  by (cases "to_string v") (auto simp: suggestion_def js_inj)

lemma safe_inline_field:
  assumes "buildInlineFillField fixed2 st it = Inr n"
  shows "safe_node A n"
proof -
  obtain vs menu where vs: "candidateValues it = Inr vs" and m: "seq_results (map (suggestion fixed2 it) vs) = Inr menu"
    using assms by (auto simp: buildInlineFillField_def map_sum_def split: sum.splits)
  have "\<forall>x \<in> set menu. safe_node A x"
    using seq_results_mem [OF m] safe_suggestion by fastforce
  then show ?thesis
    using assms vs m by (auto simp: buildInlineFillField_def field_input_def Let_def js_inj)
qed

lemma safe_element_form:
  assumes "renderElementForm fixed2 st = Inr n"
  shows "safe_node A n"
proof -
  obtain ns where ns: "seq_results (map (buildInlineFillField fixed2 st) (elementFormItems st)) = Inr ns" and n: "n = element_card st ns"
    using assms by (auto simp: renderElementForm_def map_sum_def split: sum.splits)
  have "\<forall>x \<in> set ns. safe_node A x"
    using seq_results_mem [OF ns] safe_inline_field by fastforce
  then show ?thesis by (auto simp: n element_card_def buildAttachmentField_def js_inj)
qed

lemma safe_draft_page: "n \<in> set (renderDraftPage st) \<Longrightarrow> safe_node A n"
  by (auto simp: renderDraftPage_def js_inj)

lemma safe_dialogs: "safe_node A (renderFillReviewStart els st)" "safe_node A (extract_dialog els)" "safe_node A (schema_block c)"
  by (auto simp: renderFillReviewStart_def extract_dialog_def schema_block_def schema_table_def schema_head_def schema_row_def
      type_option_def flag_def Let_def js_inj)

lemma schema_table_ok: "table_ok 6 (schema_table editable fs)"
proof -
  have row: "spans (schema_row editable f) = [1, 1, 1, 1, 1, 1]" for f
    by (simp add: schema_row_def spans_def js_inj Let_def)
  have head: "spans schema_head = [1, 1, 1, 1, 1, 1]"
    by (simp add: schema_head_def spans_def js_inj)
  have "group_ok 6 [spans schema_head]" by (rule group_ok_plain) (simp add: head)
  moreover have "group_ok 6 (map (\<lambda>f. spans (schema_row editable f)) fs)"
    by (rule group_ok_plain) (simp add: row list_all_iff)
  ultimately show ?thesis
    by (simp add: table_ok_def schema_table_def js_inj concat_map_singleton comp_def)
qed

section \<open>Properties\<close>

text \<open>C20: after any entries, file choices included, a newly drawn review page shows every text and choice
  entered before, with two exceptions: the text area of the transaction context is drawn empty, and so is
  the list of attachments (the page is built without \<open>renderReviewFiles\<close>, which would list them). Both
  are nevertheless kept, and go out with the next review. (The first control is the file picker, which is
  always empty.)\<close>

theorem review_page_shows_state:
  "let st = fold (\<lambda>ev st. fst (review_input ev st)) evs (init_review e) in
   concat (map shown_controls (renderReviewPage st))
     = [[], packageId st, contractType st, partyPosition st, jurisdiction st, [], reviewScope st]
   \<and> (\<exists>box. map_of (concat (map (elements_with (js ''id'')) (renderReviewPage st))) (js ''review-files'') = Some box
        \<and> kids box = [])
   \<and> length (renderReviewFiles (files st)) = (if files st = [] then 0 else Suc (length (files st)))
   \<and> sent_files (api_upload c (js ''/contract-review'') (review_form st)) = files st
   \<and> (transactionContext st \<noteq> [] \<longrightarrow> (js ''TransactionContext'', FText (transactionContext st)) \<in> set (review_form st))"
proof -
  define st where "st = fold (\<lambda>ev st. fst (review_input ev st)) evs (init_review e)"
  have "offered st" unfolding st_def by (rule offered_run [OF offered_init])
  then have "shown_controls (review_card st)
    = [[], packageId st, contractType st, partyPosition st, jurisdiction st, [], reviewScope st]"
    by (simp add: offered_def review_card_shows)
  then show ?thesis
    unfolding st_def [symmetric] Let_def
    using review_page_file_box [of st] by (simp add: renderReviewPage_def review_form_texts renderReviewFiles_def js_inj)
qed

theorem review_page_shows_state_witness:
  "let st = fold (\<lambda>ev st. fst (review_input ev st)) [ChooseFiles demo_env [demo_file ''a'' 1] no_options, TypeContext (js '' buy '')]
       (init_review demo_env) in
   concat (map shown_controls (renderReviewPage st)) = [[], packageId st, [], [], [], [], []]
   \<and> (js ''TransactionContext'', FText (js ''buy'')) \<in> set (review_form st)
   \<and> length (renderReviewFiles (files st)) = 2
   \<and> sent_files (api_upload init_client (js ''/contract-review'') (review_form st)) = [demo_file ''a'' 1]"
  using review_page_shows_state [of "[ChooseFiles demo_env [demo_file ''a'' 1] no_options, TypeContext (js '' buy '')]" demo_env init_client]
  by (simp add: Let_def review_input_def setReviewFiles_def init_review_def trim_def js_space_def js_eval)

text \<open>C22: the element form on the page is the one the rest of the code assumes. The elements with a field's
  key, which reading and filling the form look up, are one box per field, in the fields' order, each with
  its own field's key, showing the value kept for that key, and typing into it writes that key. Beside
  them the form has no control but the file picker, so reading the form finds exactly the kept values.\<close>

theorem element_form_controls:
  assumes "renderElementForm fixed2 st = Inr n"
  shows "map (\<lambda>(k, m). (k, shown_controls m)) (elements_with (js ''data-element-key'') n)
      = map (\<lambda>it. (fi_key it, [shown_value st (fi_key it)])) (elementFormItems st)
    \<and> list_all (\<lambda>(k, m). (js ''input'', TypeField k) \<in> set (listeners_of m)) (elements_with (js ''data-element-key'') n)
    \<and> shown_controls n = [] # map snd (form_boxes n)
    \<and> form_boxes n = render_inputs st"
proof -
  have b: "list_all2 (keyed_box st) (elementFormItems st) (elements_with (js ''data-element-key'') n)"
    using assms by (rule element_form_keys)
  then have m: "map (\<lambda>(k, m). (k, shown_controls m)) (elements_with (js ''data-element-key'') n)
      = map (\<lambda>it. (fi_key it, [shown_value st (fi_key it)])) (elementFormItems st)"
    by (induction rule: list_all2_induct) (auto simp: keyed_box_def)
  have l: "list_all (\<lambda>(k, m). (js ''input'', TypeField k) \<in> set (listeners_of m)) (elements_with (js ''data-element-key'') n)"
    using b by (induction rule: list_all2_induct) (auto simp: keyed_box_def)
  have "form_boxes n = map (\<lambda>(k, vs). (k, concat vs))
      (map (\<lambda>(k, m). (k, shown_controls m)) (elements_with (js ''data-element-key'') n))"
    by (simp add: form_boxes_def comp_def case_prod_beta)
  then have f: "form_boxes n = render_inputs st" unfolding m by (simp add: render_inputs_def comp_def)
  show ?thesis using m l f element_form_shows [OF assms] by simp
qed

theorem element_form_controls_witness:
  "\<exists>n. renderElementForm (\<lambda>_. []) demo_form = Inr n \<and> shown_controls n = [[], [], []]
    \<and> form_boxes n = [(js ''a'', []), (js ''b'', [])]"
proof -
  have "\<exists>n. renderElementForm (\<lambda>_. []) demo_form = Inr n"
    by (simp add: renderElementForm_def demo_form_items buildInlineFillField_def candidateValues_def result_item_def
        demo_field_def suggestion_def json_or_def strictly_equal_def trim_def js_space_def texts Let_def)
  then obtain n where n: "renderElementForm (\<lambda>_. []) demo_form = Inr n" by blast
  have "elOverrides demo_form = []" by (simp add: demo_form_def init_elements_def)
  then have "shown_value demo_form (js ''a'') = []" "shown_value demo_form (js ''b'') = []"
    by (simp_all add: shown_value_def obj_get_def proto_names_def texts)
  moreover have "map fi_key (elementFormItems demo_form) = [js ''a'', js ''b'']"
    unfolding demo_form_items by (simp add: result_item_def demo_field_def texts)
  ultimately have "render_inputs demo_form = [(js ''a'', []), (js ''b'', [])]"
    by (simp add: render_inputs_def demo_form_items)
  then show ?thesis using element_form_controls [OF n] n by simp
qed

end
