(* ===== verification/DraftPage.thy ===== *)
theory DraftPage
  imports PageViews PreviewPane
begin

text \<open>
  The draft page and its extraction dialog together: the field catalogue in the dialog
  (\<open>loadElementSchema\<close>), the field editor that takes the dialog's place, and what saving, switching and
  deleting a field do to both; and \<open>rerunActiveReview\<close>, the button that reviews again from wherever a
  result is shown.
\<close>

section \<open>The catalogue as the server sends it\<close>

fun jmaybe :: "json \<Rightarrow> jstr option" where
  "jmaybe (JStr s) = Some s"
| "jmaybe v = None"

fun jbool :: "json \<Rightarrow> bool option" where
  "jbool (JBool b) = Some b"
| "jbool v = None"

definition read_field :: "json \<Rightarrow> catalog_field" where
  "read_field it = \<lparr>cf_key = jmaybe (jget it (js ''key'')), cf_label = jmaybe (jget it (js ''label'')),
     cf_aliases = map jtext (jarr (jget it (js ''aliases''))), cf_patterns = map jtext (jarr (jget it (js ''patterns''))),
     cf_hint = jmaybe (jget it (js ''hint'')), cf_required = json_truthy (jget it (js ''required'')),
     cf_enabled = jbool (jget it (js ''enabled''))\<rparr>"

definition read_catalog :: "json \<Rightarrow> catalog" where
  "read_catalog v = \<lparr>ca_fields = map read_field (jarr (jget v (js ''fields''))),
     ca_editable = (jget v (js ''editable'') \<noteq> JBool False), ca_id = jmaybe (jget v (js ''catalog_id'')),
     ca_version = jmaybe (jget v (js ''extractor_version'')), ca_fingerprint = jmaybe (jget v (js ''fingerprint''))\<rparr>"

section \<open>The dialog and the page\<close>

text \<open>
  \<open>dp_body\<close> is what the modal window holds, hidden or not: \<open>closeModal\<close> leaves the nodes in the
  document, \<open>openModal\<close> replaces them. Dialogs are numbered by \<open>dp_opened\<close>; \<open>dp_asks\<close> are the
  unanswered catalogue requests, each with the dialog whose box it draws into and the handler that
  awaits the reload; \<open>dp_schema\<close> is that box.
\<close>

datatype dialog = NoDialog | ExtractDialog | FieldDialog "catalog_field option"

datatype reloader = OpenedDialog | AfterSave | AfterSwitch | AfterDrop

record draft_page =
  dp_elements :: elements_state
  dp_body :: dialog
  dp_hidden :: bool
  dp_opened :: nat
  dp_asks :: "(nat \<times> reloader) list"
  dp_schema :: "page_click node list"

definition schema_request :: "client \<Rightarrow> formval request" where
  "schema_request c = api_get c fields_path"

definition loadElementSchema :: "client \<Rightarrow> reloader \<Rightarrow> draft_page \<Rightarrow> draft_page \<times> effect list" where
  "loadElementSchema c who pg =
    (if dp_body pg \<noteq> ExtractDialog then (pg, [])
     else (pg\<lparr>dp_schema := [muted [0x52A0, 0x8F7D, 0x5B57, 0x6BB5, 0x76EE, 0x5F55, 0x2026]], dp_asks := dp_asks pg @ [(dp_opened pg, who)]\<rparr>, [Send (schema_request c)]))"

text \<open>An answer without a body is stored and then raises outside the handler's own \<open>try\<close>: the box keeps its
  placeholder and the form is not redrawn. The exception reaches whoever awaits the reload: opening the
  dialog does not, the three handlers of the field editor report it as their own failure.\<close>

definition reload_raised :: "reloader \<Rightarrow> jstr \<Rightarrow> effect list" where
  "reload_raised who m = (case who of
     OpenedDialog \<Rightarrow> []
   | AfterSave \<Rightarrow> [Toast ([0x4FDD, 0x5B58, 0x5931, 0x8D25, 0xFF1A] @ m) Err]
   | AfterSwitch \<Rightarrow> [Toast ([0x64CD, 0x4F5C, 0x5931, 0x8D25, 0xFF1A] @ m) Err]
   | AfterDrop \<Rightarrow> [Toast ([0x5220, 0x9664, 0x5931, 0x8D25, 0xFF1A] @ m) Err])"

definition finishLoadSchema :: "(js_error \<Rightarrow> jstr) \<Rightarrow> nat \<Rightarrow> outcome \<Rightarrow> draft_page \<Rightarrow> draft_page \<times> effect list" where
  "finishLoadSchema engine i out pg =
    (let (d, who) = dp_asks pg ! i;
         pg1 = pg\<lparr>dp_asks := take i (dp_asks pg) @ drop (Suc i) (dp_asks pg)\<rparr>;
         put = (\<lambda>ns p. if d = dp_opened p then p\<lparr>dp_schema := ns\<rparr> else p)
     in case out of
       Inl e \<Rightarrow> (put [muted ([0x8981, 0x7D20, 0x5B9A, 0x4E49, 0x52A0, 0x8F7D, 0x5931, 0x8D25, 0xFF1A] @ failure_text e)] pg1, [])
     | Inr v \<Rightarrow>
         let pg2 = pg1\<lparr>dp_elements := (dp_elements pg1)\<lparr>elCatalog := v\<rparr>\<rparr> in
         if v = JNull \<or> v = JUndef then (pg2, reload_raised who (engine TypeError))
         else (put [schema_block (read_catalog v)] pg2, [Draw form_box VForm]))"

definition open_dialog :: "dialog \<Rightarrow> draft_page \<Rightarrow> draft_page" where
  "open_dialog b pg = pg\<lparr>dp_body := b, dp_hidden := False, dp_opened := Suc (dp_opened pg), dp_schema := []\<rparr>"

text \<open>The dialog opens, the catalogue is asked for, and then the preview is loaded.\<close>

definition open_extract :: "client \<Rightarrow> nat \<Rightarrow> draft_page \<Rightarrow> draft_page \<times> effect list" where
  "open_extract c u pg = (let (st, es) = openExtractDialog c u (dp_elements pg) in
     if elFiles (dp_elements pg) = [] then (pg, es)
     else let (pg1, es1) = loadElementSchema c OpenedDialog (open_dialog ExtractDialog pg) in
       (pg1\<lparr>dp_elements := st\<rparr>, hd es # es1 @ tl es))"

text \<open>The continuations of the editor's requests, with the reload that ends them.\<close>

definition saved_field :: "client \<Rightarrow> catalog_field option \<Rightarrow> outcome \<Rightarrow> draft_page \<Rightarrow> draft_page \<times> effect list" where
  "saved_field c f out pg = (case out of
     Inl _ \<Rightarrow> (pg, finishSaveField f out)
   | Inr _ \<Rightarrow> (let (pg1, es) = loadElementSchema c AfterSave (pg\<lparr>dp_hidden := True\<rparr>) in (pg1, finishSaveField f out @ es)))"

definition switched_field :: "client \<Rightarrow> outcome \<Rightarrow> draft_page \<Rightarrow> draft_page \<times> effect list" where
  "switched_field c out pg = (case out of
     Inl e \<Rightarrow> (pg, [Toast ([0x64CD, 0x4F5C, 0x5931, 0x8D25, 0xFF1A] @ failure_text e) Err])
   | Inr _ \<Rightarrow> loadElementSchema c AfterSwitch pg)"

definition dropped_field :: "client \<Rightarrow> outcome \<Rightarrow> draft_page \<Rightarrow> draft_page \<times> effect list" where
  "dropped_field c out pg = (case out of
     Inl e \<Rightarrow> (pg, [Toast ([0x5220, 0x9664, 0x5931, 0x8D25, 0xFF1A] @ failure_text e) Err])
   | Inr _ \<Rightarrow> (let (pg1, es) = loadElementSchema c AfterDrop pg in (pg1, Toast [0x8981, 0x7D20, 0x5DF2, 0x5220, 0x9664] Ok # es)))"

datatype draft_input =
    OpenExtraction nat
  | SchemaAnswer nat outcome
  | OpenField "catalog_field option"
  | SaveField "catalog_field option" field_inputs
  | FieldSaved "catalog_field option" outcome
  | FieldSwitched outcome
  | FieldDropped outcome
  | HideDialog

fun draft_event :: "(js_error \<Rightarrow> jstr) \<Rightarrow> client \<Rightarrow> draft_input \<Rightarrow> draft_page \<Rightarrow> draft_page \<times> effect list" where
  "draft_event engine c (OpenExtraction u) pg = open_extract c u pg"
| "draft_event engine c (SchemaAnswer i out) pg = (if i < length (dp_asks pg) then finishLoadSchema engine i out pg else (pg, []))"
| "draft_event engine c (OpenField f) pg = (open_dialog (FieldDialog f) pg,
     [ModalOpen (if truthy (Option.bind f cf_key) then [0x7F16, 0x8F91, 0x8981, 0x7D20] else [0x65B0, 0x589E, 0x8981, 0x7D20])])"
| "draft_event engine c (SaveField f i) pg = (pg, saveElementField engine c f i)"
| "draft_event engine c (FieldSaved f out) pg = saved_field c f out pg"
| "draft_event engine c (FieldSwitched out) pg = switched_field c out pg"
| "draft_event engine c (FieldDropped out) pg = dropped_field c out pg"
| "draft_event engine c HideDialog pg = (pg\<lparr>dp_hidden := True\<rparr>, [ModalClose])"

fun run_draft :: "(js_error \<Rightarrow> jstr) \<Rightarrow> client \<Rightarrow> draft_input list \<Rightarrow> draft_page \<Rightarrow> draft_page \<times> effect list" where
  "run_draft engine c [] pg = (pg, [])"
| "run_draft engine c (ev # evs) pg = (let (pg1, es1) = draft_event engine c ev pg; (pg2, es2) = run_draft engine c evs pg1
     in (pg2, es1 @ es2))"

section \<open>Reviewing again\<close>

text \<open>
  \<open>submitReviewSync\<close> takes the review page's button for granted. On another page, once the checks have
  passed, switching the missing button off raises before anything is sent or shown.
\<close>

datatype rerun = RerunDraft | RerunSync "js_error + (review_state \<times> effect list)"

definition submit_with_button :: "bool \<Rightarrow> client \<Rightarrow> review_state \<Rightarrow> js_error + (review_state \<times> effect list)" where
  "submit_with_button present c st =
    (if fst (validateReview st) \<and> \<not> present then Inl TypeError else Inr (submitReviewSync c st))"

definition rerunActiveReview :: "client \<Rightarrow> app \<Rightarrow> rerun" where
  "rerunActiveReview c a =
    (if currentPage a = Some (js ''draft'') \<and> elFiles (elements a) \<noteq> [] then RerunDraft
     else RerunSync (submit_with_button (currentPage a = Some (js ''review'')) c (review a)))"

section \<open>Facts\<close>

lemma open_dialog_fields [simp]:
  "dp_elements (open_dialog b pg) = dp_elements pg" "dp_body (open_dialog b pg) = b" "dp_hidden (open_dialog b pg) = False"
  by (simp_all add: open_dialog_def)

lemma reload_needs_dialog: "dp_body pg \<noteq> ExtractDialog \<Longrightarrow> loadElementSchema c who pg = (pg, [])"
  by (simp add: loadElementSchema_def)

lemma reload_in_dialog: "dp_body pg = ExtractDialog \<Longrightarrow> requests_in (snd (loadElementSchema c who pg)) = [schema_request c]"
  by (simp add: loadElementSchema_def)

lemma save_field_effects: "requests_in (finishSaveField f out) = []"
  by (cases out) (simp_all add: finishSaveField_def)

text \<open>A field that the catalogue's table shows as switched on has a box in the form that is built from the
  same catalogue.\<close>

lemma switched_on_in_form:
  assumes "jarr (jget (elForm st) (js ''fields'')) = []" "f \<in> set (ca_fields (read_catalog (elCatalog st)))"
    and "cf_enabled f = Some True" "cf_key f = Some k"
  shows "k \<in> fi_key ` set (elementFormItems st)"
proof -
  obtain it where it: "it \<in> set (jarr (jget (elCatalog st) (js ''fields'')))" "f = read_field it"
    using assms(2) by (auto simp: read_catalog_def)
  have "jget it (js ''enabled'') = JBool True"
    using assms(3) it(2) by (cases "jget it (js ''enabled'')") (simp_all add: read_field_def)
  moreover have "jget it (js ''key'') = JStr k"
    using assms(4) it(2) by (cases "jget it (js ''key'')") (simp_all add: read_field_def)
  then have "fi_key (catalog_item it) = k" by (simp add: catalog_item_def)
  ultimately show ?thesis using it(1) assms(1) by (force simp: elementFormItems_def)
qed

lemma rerun_raises_iff:
  "rerunActiveReview c a = RerunSync (Inl TypeError)
   \<longleftrightarrow> currentPage a \<noteq> Some (js ''review'') \<and> files (review a) \<noteq> [] \<and> packageId (review a) \<noteq> []
     \<and> (currentPage a = Some (js ''draft'') \<longrightarrow> elFiles (elements a) = [])"
  by (auto simp: rerunActiveReview_def submit_with_button_def validateReview_def js_inj)

section \<open>Properties\<close>

text \<open>C19: editing the catalogue from its table forgets to reload it. The field editor takes the place of the
  extraction dialog, so after saving, successful or not, no catalogue is asked for, and the form of the
  page keeps the fields it had; switching or deleting a field from the table, where the dialog is still
  there, does ask for the new catalogue.\<close>

theorem saved_field_not_reloaded:
  "let r = run_draft engine c [OpenField f, SaveField f i, FieldSaved f out] pg in
   requests_in (snd r) = requests_in (saveElementField engine c f i)
   \<and> dp_elements (fst r) = dp_elements pg
   \<and> elementFormItems (dp_elements (fst r)) = elementFormItems (dp_elements pg)
   \<and> (dp_body pg = ExtractDialog \<longrightarrow>
       requests_in (snd (draft_event engine c (FieldSwitched (Inr v)) pg)) = [schema_request c]
       \<and> requests_in (snd (draft_event engine c (FieldDropped (Inr v)) pg)) = [schema_request c])"
  by (cases out)
    (auto simp: Let_def saved_field_def switched_field_def dropped_field_def case_prod_beta
      reload_needs_dialog reload_in_dialog save_field_effects)

definition demo_page :: draft_page where
  "demo_page = \<lparr>dp_elements = (init_elements demo_env)\<lparr>elFiles := [demo_file ''a'' 1]\<rparr>, dp_body = ExtractDialog, dp_hidden = False,
     dp_opened = 1, dp_asks = [], dp_schema = []\<rparr>"

theorem saved_field_not_reloaded_witness:
  "requests_in (snd (run_draft (\<lambda>_. []) init_client
      [OpenField None, SaveField None (openElementFieldForm None), FieldSaved None (Inr JNull)] demo_page)) = []
   \<and> requests_in (snd (draft_event (\<lambda>_. []) init_client (FieldSwitched (Inr JNull)) demo_page)) = [schema_request init_client]"
proof -
  have "requests_in (saveElementField (\<lambda>_. []) init_client None (openElementFieldForm None)) = []"
    by (simp add: saveElementField_def openElementFieldForm_def elementFieldFormValues_def trim_def Let_def)
  moreover have "dp_body demo_page = ExtractDialog" by (simp add: demo_page_def)
  ultimately show ?thesis
    using saved_field_not_reloaded [of "\<lambda>_. []" init_client None "openElementFieldForm None" "Inr JNull" demo_page JNull]
    unfolding Let_def by metis
qed

end
