(* ===== verification/EditForms.thy ===== *)
theory EditForms
  imports ElementFields RulesPage Markup
begin

text \<open>
  The two edit dialogs as nodes: the rule form (\<open>openRuleForm\<close>) and the catalogue field form
  (\<open>openElementFieldForm\<close>), and how saving reads them: control by control, each by its id. Reading a
  form that was just drawn gives exactly the record from which the request is computed (\<open>rule_form\<close>,
  \<open>field_inputs\<close>), so the payload theorems speak about what the user sees.
\<close>

datatype edit_click = SaveRuleForm rule_row | SaveFieldForm "catalog_field option" | CancelEdit

section \<open>Builders\<close>

definition edit_row :: "edit_click child list \<Rightarrow> edit_click node" where
  "edit_row cs = el (js ''div'') [kl ''form-row''] cs"

definition edit_label :: "jstr \<Rightarrow> edit_click child" where
  "edit_label t = CNode (el (js ''label'') [tx t] [])"

definition edit_input :: "string \<Rightarrow> jstr \<Rightarrow> jstr \<Rightarrow> edit_click child" where
  "edit_input i v holder = CNode (el (js ''input'') [kl ''input'', att ''id'' (js i), att ''value'' v, att ''placeholder'' holder] [])"

definition text_row :: "jstr \<Rightarrow> string \<Rightarrow> jstr \<Rightarrow> jstr \<Rightarrow> edit_click node" where
  "text_row lbl i v holder = edit_row [edit_label lbl, edit_input i v holder]"

definition edit_option :: "jstr \<Rightarrow> jstr \<times> jstr \<Rightarrow> edit_click node" where
  "edit_option cur = (\<lambda>(v, t). el (js ''option'') [att ''value'' v, tx t, flag ''selected'' (cur = v)] [])"

definition edit_select :: "string \<Rightarrow> jstr \<Rightarrow> (jstr \<times> jstr) list \<Rightarrow> edit_click child" where
  "edit_select i cur vs = CNode (el (js ''select'') [kl ''select'', att ''id'' (js i)] [nodes (edit_option cur) vs])"

definition edit_buttons :: "jstr \<Rightarrow> edit_click \<Rightarrow> edit_click node" where
  "edit_buttons t h = el (js ''div'') [kl ''action-bar mt-8'']
     [CNode (el (js ''button'') [kl ''btn btn-primary'', tx t, on_click h] []),
      CNode (el (js ''button'') [kl ''btn btn-ghost'', tx [0x53D6, 0x6D88], on_click CancelEdit] [])]"

section \<open>The rule form\<close>

definition LEVEL_OPTIONS :: "(jstr \<times> jstr) list" where
  "LEVEL_OPTIONS = [(js ''WARN'', [0x9700, 0x5173, 0x6CE8]), (js ''BLOCK'', [0x91CD, 0x5927, 0x98CE, 0x9669]), (js ''INFO'', [0x63D0, 0x793A])]"

definition rule_form_node :: "jstr list \<Rightarrow> jstr option \<Rightarrow> rule_row \<Rightarrow> edit_click node" where
  "rule_form_node state_topics lbl r =
    (let topics = (if state_topics \<noteq> [] then state_topics else RULE_TOPICS);
         current = str_or (ru_topic r) (hd topics) in
     el (js ''div'') [kl ''rule-form'']
      [CNode (text_row [0x89C4, 0x5219, 0x540D, 0x79F0] ''rule-title'' (str_or (ru_title r) []) [0x5982, 0x0020, 0x91D1, 0x989D, 0x5927, 0x5C0F, 0x5199, 0x4E00, 0x81F4]),
       CNode (el (js ''div'') [kl ''grid grid-2'']
         [CNode (text_row [0x89C4, 0x5219, 0x7F16, 0x53F7, 0xFF08, 0x53EF, 0x7A7A, 0xFF0C, 0x81EA, 0x52A8, 0x751F, 0x6210, 0xFF09] ''rule-code'' (str_or (ru_code r) []) [0x5982, 0x0020, 0x0048, 0x0054, 0x0053, 0x0050, 0x002D, 0x0032, 0x0030, 0x0032, 0x0035, 0x0031, 0x0031, 0x002D, 0x0030, 0x0030, 0x0036]),
          CNode (edit_row [edit_label [0x68C0, 0x67E5, 0x7EF4, 0x5EA6], edit_select ''rule-topic'' current (map (\<lambda>t. (t, t)) topics)])]),
       CNode (edit_row [edit_label [0x98CE, 0x9669, 0x7B49, 0x7EA7], edit_select ''rule-level'' (str_or (ru_risk_level r) (js ''WARN'')) LEVEL_OPTIONS]),
       CNode (edit_row [edit_label (str_or lbl [0x89C4, 0x5219, 0x5185, 0x5BB9]),
         CNode (el (js ''textarea'') [kl ''input'', att ''id'' (js ''rule-condition''), att ''rows'' (js ''4''),
           att ''placeholder'' [0x5224, 0x5B9A, 0x6761, 0x4EF6, 0xFF0C, 0x4F8B, 0x5982, 0xFF1A, 0x5408, 0x540C, 0x91D1, 0x989D, 0x5927, 0x5C0F, 0x5199, 0x5FC5, 0x987B, 0x4E00, 0x81F4], tx (str_or (ru_condition r) [])] [])]),
       CNode (el (js ''div'') [kl ''grid grid-2'']
         [CNode (edit_row [edit_label [0x6743, 0x91CD], CNode (el (js ''input'') [kl ''input'', att ''id'' (js ''rule-weight''),
            att ''type'' (js ''number''), att ''min'' (js ''1''), att ''max'' (js ''100''),
            att ''value'' (dec (case ru_weight r of None \<Rightarrow> 10 | Some w \<Rightarrow> if w = 0 then 10 else w))] [])]),
          CNode (text_row [0x5EFA, 0x8BAE, 0x52A8, 0x4F5C, 0xFF08, 0x53EF, 0x7A7A, 0xFF09] ''rule-action'' (str_or (ru_action r) []) [0x5982, 0x0020, 0x6838, 0x5BF9, 0x91D1, 0x989D, 0x5927, 0x5C0F, 0x5199])]),
       CNode (text_row [0x9AD8, 0x5206, 0x6807, 0x51C6, 0x0020, 0x0028, 0x0038, 0x002D, 0x0031, 0x0030, 0x0020, 0x5206, 0x0029] ''rule-high'' (str_or (ru_high r) []) [0x5982, 0x0020, 0x7EA6, 0x5B9A, 0x5B8C, 0x6574, 0x3001, 0x53E3, 0x5F84, 0x4E00, 0x81F4]),
       CNode (text_row [0x4E2D, 0x7B49, 0x6807, 0x51C6, 0x0020, 0x0028, 0x0034, 0x002D, 0x0037, 0x0020, 0x5206, 0x0029] ''rule-mid'' (str_or (ru_mid r) []) [0x5982, 0x0020, 0x7EA6, 0x5B9A, 0x4E0D, 0x5B8C, 0x6574, 0x6216, 0x53E3, 0x5F84, 0x4E0D, 0x6E05]),
       CNode (text_row [0x4F4E, 0x5206, 0x6807, 0x51C6, 0x0020, 0x0028, 0x0030, 0x002D, 0x0033, 0x0020, 0x5206, 0x0029] ''rule-low'' (str_or (ru_low r) []) [0x5982, 0x0020, 0x672A, 0x7EA6, 0x5B9A, 0x6216, 0x660E, 0x663E, 0x4E0D, 0x7B26]),
       CNode (edit_buttons (if truthy (ru_id r) then [0x4FDD, 0x5B58, 0x4FEE, 0x6539] else [0x521B, 0x5EFA, 0x5E76, 0x542F, 0x7528]) (SaveRuleForm r))])"

section \<open>The catalogue field form\<close>

definition tick_box :: "string \<Rightarrow> bool \<Rightarrow> edit_click node" where
  "tick_box i b = el (js ''input'') [att ''type'' (js ''checkbox''), att ''id'' (js i), flag ''checked'' b] []"

definition field_form_node :: "catalog_field option \<Rightarrow> edit_click node" where
  "field_form_node f =
    (let editing = truthy (Option.bind f cf_key) in
     el (js ''div'') [kl ''rule-form'']
      [CNode (edit_row [CNode (el (js ''label'') [] [CNode (el (js ''span'') [kl ''req'', tx (js ''*'')] []), CStr [0x0020, 0x8981, 0x7D20, 0x540D, 0x79F0]]),
         edit_input ''el-label'' (str_or (Option.bind f cf_label) []) [0x5982, 0x0020, 0x8D28, 0x4FDD, 0x671F]]),
       CNode (edit_row [edit_label [0x5B57, 0x6BB5, 0x952E, 0xFF08, 0x53EF, 0x7A7A, 0xFF0C, 0x81EA, 0x52A8, 0x751F, 0x6210, 0xFF09],
         CNode (el (js ''input'') [kl ''input'', att ''id'' (js ''el-key''), att ''value'' (str_or (Option.bind f cf_key) []),
           att ''placeholder'' [0x5982, 0x0020, 0x0077, 0x0061, 0x0072, 0x0072, 0x0061, 0x006E, 0x0074, 0x0079, 0x005F, 0x0070, 0x0065, 0x0072, 0x0069, 0x006F, 0x0064], flag ''disabled'' editing] [])]),
       CNode (text_row [0x522B, 0x540D, 0x002F, 0x63D0, 0x793A, 0x8BCD, 0xFF08, 0x9017, 0x53F7, 0x5206, 0x9694, 0xFF09] ''el-aliases''
         (join [0x3001] (case f of None \<Rightarrow> [] | Some f \<Rightarrow> cf_aliases f)) [0x5982, 0x0020, 0x8D28, 0x4FDD, 0x671F, 0x002C, 0x8D28, 0x91CF, 0x4FDD, 0x8BC1, 0x671F]),
       CNode (edit_row [edit_label [0x81EA, 0x5B9A, 0x4E49, 0x6B63, 0x5219, 0xFF08, 0x6BCF, 0x884C, 0x4E00, 0x6761, 0xFF0C, 0x53EF, 0x7A7A, 0xFF09],
         CNode (el (js ''textarea'') [kl ''input'', att ''id'' (js ''el-patterns''),
             att ''placeholder'' [0x5982, 0x0020, 0x8D28, 0x4FDD, 0x671F, 0x005B, 0x003A, 0xFF1A, 0x005D, 0x005C, 0x0073, 0x002A, 0x0028, 0x005B, 0x005E, 0x005C, 0x006E, 0x005D, 0x007B, 0x0032, 0x002C, 0x0034, 0x0030, 0x007D, 0x0029]]
           [CStr (join [10] (case f of None \<Rightarrow> [] | Some f \<Rightarrow> cf_patterns f))])]),
       CNode (text_row [0x586B, 0x5199, 0x63D0, 0x793A, 0xFF08, 0x53EF, 0x7A7A, 0xFF09] ''el-hint'' (str_or (Option.bind f cf_hint) []) [0x8868, 0x5355, 0x91CC, 0x663E, 0x793A, 0x7ED9, 0x586B, 0x5199, 0x4EBA, 0x7684, 0x8BF4, 0x660E]),
       CNode (el (js ''div'') [kl ''flex'', att ''style'' (js ''gap:20px'')]
         [CNode (el (js ''label'') [kl ''muted''] [CNode (tick_box ''el-required'' (case f of None \<Rightarrow> False | Some f \<Rightarrow> cf_required f)),
            CStr [0x0020, 0x5FC5, 0x586B, 0xFF08, 0x7F3A, 0x5931, 0x65F6, 0x5217, 0x5165, 0x0020, 0x006D, 0x0069, 0x0073, 0x0073, 0x0069, 0x006E, 0x0067, 0x005F, 0x0072, 0x0065, 0x0071, 0x0075, 0x0069, 0x0072, 0x0065, 0x0064, 0xFF09]]),
          CNode (el (js ''label'') [kl ''muted''] [CNode (tick_box ''el-enabled'' (case f of None \<Rightarrow> True | Some f \<Rightarrow> cf_enabled f \<noteq> Some False)),
            CStr [0x0020, 0x542F, 0x7528, 0x62BD, 0x53D6]])]),
       CNode (edit_buttons (if editing then [0x4FDD, 0x5B58] else [0x65B0, 0x589E]) (SaveFieldForm f))])"

section \<open>Reading the forms\<close>

text \<open>What \<open>saveRuleForm\<close> and \<open>elementFieldFormValues\<close> read, before they trim and split it. None: a control
  is missing.\<close>

definition read_rule_form :: "edit_click node \<Rightarrow> rule_form option" where
  "read_rule_form n = (case map (\<lambda>i. control_value i n)
       [''rule-level'', ''rule-code'', ''rule-title'', ''rule-topic'', ''rule-condition'', ''rule-action'', ''rule-weight'',
        ''rule-high'', ''rule-mid'', ''rule-low''] of
     [Some level, Some code, Some title, Some topic, Some condition, Some action, Some weight, Some high, Some mid, Some low] \<Rightarrow>
       Some \<lparr>rf_title = title, rf_code = code, rf_topic = topic, rf_level = level, rf_condition = condition,
         rf_weight = weight, rf_action = action, rf_high = high, rf_mid = mid, rf_low = low\<rparr>
   | _ \<Rightarrow> None)"

definition read_field_form :: "edit_click node \<Rightarrow> field_inputs option" where
  "read_field_form n = (case map (\<lambda>i. control_value i n) [''el-label'', ''el-key'', ''el-aliases'', ''el-patterns'', ''el-hint''] of
     [Some nm, Some key, Some aliases, Some patterns, Some hint] \<Rightarrow>
       Some \<lparr>in_label = nm, in_key = key, in_aliases = aliases, in_patterns = patterns, in_hint = hint,
         in_required = control_checked ''el-required'' n, in_enabled = control_checked ''el-enabled'' n\<rparr>
   | _ \<Rightarrow> None)"

section \<open>What the forms show\<close>

text \<open>The ticks of the check boxes, in order.\<close>

fun checked_boxes :: "'h node \<Rightarrow> bool list" where
  "checked_boxes (TextNode t) = []"
| "checked_boxes (RawHtml t) = []"
| "checked_boxes (Element tg cl ats ls ks) =
    (if tg = js ''input'' \<and> map_of ats (js ''type'') = Some (js ''checkbox'') then [map_of ats (js ''checked'') \<noteq> None]
     else concat (map checked_boxes ks))"

lemma checked_el [simp]:
  assumes "no_html as"
  shows "checked_boxes (el tg as cs) =
    (if tg = js ''input'' \<and> map_of (attrs_of (el tg as cs)) (js ''type'') = Some (js ''checkbox'')
     then [map_of (attrs_of (el tg as cs)) (js ''checked'') \<noteq> None]
     else concat (map checked_boxes (concat (map flat_children cs))))"
proof -
  obtain cl ls ts where e: "el tg as cs = Element tg cl (attrs_of (el tg as cs)) ls (map TextNode ts @ concat (map flat_children cs))"
    using el_shape [OF assms] by blast
  have "concat (map checked_boxes (map TextNode ts)) = []" by (induction ts) simp_all
  then have "checked_boxes (Element tg cl A ls (map TextNode ts @ K)) =
      (if tg = js ''input'' \<and> map_of A (js ''type'') = Some (js ''checkbox'') then [map_of A (js ''checked'') \<noteq> None]
       else concat (map checked_boxes K))" for A K by simp
  then show ?thesis by (metis e)
qed

lemma textarea_text: "no_content as \<Longrightarrow> shown_controls (el (js ''textarea'') (as @ [tx t]) []) = [t]"
  using fold_attr_kids [of as "js ''textarea''" None "[]" "[]" "[]"]
  by (auto simp: el_def set_text_def Let_def js_inj)

lemma textarea_child: "no_content as \<Longrightarrow> shown_controls (el (js ''textarea'') as [CStr t]) = [t]"
  using fold_attr_kids [of as "js ''textarea''" None "[]" "[]" "[]"] by (auto simp: el_def js_inj)

lemma edit_select_shown: "vs \<noteq> [] \<Longrightarrow> select_shown (map (edit_option cur) vs) = select_value (map fst vs) cur"
proof (cases "cur \<in> fst ` set vs")
  case True
  then show ?thesis
    by (subst select_shown_marked [where v = fst and cur = cur])
      (auto simp: edit_option_def flag_def el_fields js_inj select_value_def split: prod.splits)
next
  case False
  assume "vs \<noteq> []"
  then obtain v t vs' where vs: "vs = (v, t) # vs'" by (cases vs) auto
  have "\<not> has_attr (js ''selected'') (edit_option cur x)" if "x \<in> set vs" for x
  proof -
    have "cur \<noteq> fst x" using False that by auto
    then show ?thesis by (cases x) (simp add: edit_option_def flag_def el_fields js_inj)
  qed
  then have "filter (has_attr (js ''selected'')) (map (edit_option cur) vs) = []"
    by (auto simp: filter_empty_conv)
  moreover have "attr_value (js ''value'') (edit_option cur (v, t)) = v"
    by (simp add: edit_option_def flag_def el_fields js_inj)
  ultimately show ?thesis using False by (simp add: select_shown_def select_value_def vs)
qed

lemma shown_parts [simp]:
  "shown_controls (edit_row cs) = concat (map shown_controls (concat (map flat_children cs)))"
  "checked_boxes (edit_row cs) = concat (map checked_boxes (concat (map flat_children cs)))"
  "flat_children (edit_label t) = [el (js ''label'') [tx t] []]"
  "flat_children (edit_input i v h) = [el (js ''input'') [kl ''input'', att ''id'' (js i), att ''value'' v, att ''placeholder'' h] []]"
  by (simp_all add: edit_row_def edit_label_def edit_input_def js_inj)

lemma shown_text_row [simp]: "shown_controls (text_row l i v h) = [v]" "checked_boxes (text_row l i v h) = []"
  by (simp_all add: text_row_def el_fields js_inj)

lemma shown_buttons [simp]: "shown_controls (edit_buttons t h) = []" "checked_boxes (edit_buttons t h) = []"
  by (simp_all add: edit_buttons_def js_inj)

lemma shown_select [simp]:
  "vs \<noteq> [] \<Longrightarrow> concat (map shown_controls (flat_children (edit_select i cur vs))) = [select_value (map fst vs) cur]"
  by (simp add: edit_select_def edit_select_shown js_inj concat_map_singleton comp_def)

lemma shown_tick [simp]: "shown_controls (tick_box i b) = [[]]" "checked_boxes (tick_box i b) = [b]"
  by (simp_all add: tick_box_def flag_def el_fields js_inj)

lemma rule_form_shows:
  "shown_controls (rule_form_node topics lbl r) = (let F = openRuleForm topics r in
     [rf_title F, rf_code F, rf_topic F, rf_level F, rf_condition F, rf_weight F, rf_action F, rf_high F, rf_mid F, rf_low F])"
proof -
  have c: "shown_controls (el (js ''textarea'') [kl ''input'', att ''id'' (js ''rule-condition''), att ''rows'' (js ''4''),
           att ''placeholder'' h, tx t] [] :: edit_click node) = [t]" for h t
    using textarea_text [of "[kl ''input'', att ''id'' (js ''rule-condition''), att ''rows'' (js ''4''), att ''placeholder'' h]" t]
    by (simp add: js_inj)
  have ne: "(if topics \<noteq> [] then topics else RULE_TOPICS) \<noteq> []" by (simp add: RULE_TOPICS_def)
  show ?thesis
    using ne by (simp add: rule_form_node_def openRuleForm_def Let_def c LEVEL_OPTIONS_def el_fields js_inj comp_def)
qed

lemma field_form_shows:
  "shown_controls (field_form_node f) = (let I = openElementFieldForm f in
     [in_label I, in_key I, in_aliases I, in_patterns I, in_hint I, [], []])
   \<and> checked_boxes (field_form_node f) = (let I = openElementFieldForm f in [in_required I, in_enabled I])"
proof -
  have c: "shown_controls (el (js ''textarea'') [kl ''input'', att ''id'' i, att ''placeholder'' h] [CStr t] :: edit_click node) = [t]"
    for i h t by (rule textarea_child) (simp add: js_inj)
  show ?thesis
    by (cases f) (simp_all add: field_form_node_def openElementFieldForm_def Let_def c flag_def el_fields js_inj)
qed

text \<open>The elements with an id, in each part.\<close>

lemma ids_parts [simp]:
  "elements_with (js ''id'') (edit_row cs) = concat (map (elements_with (js ''id'')) (concat (map flat_children cs)))"
  "elements_with (js ''id'') (edit_buttons t g) = []" "elements_with (js ''id'') (edit_option cur x) = []"
  "elements_with (js ''id'') (text_row l i v h) = [(js i, el (js ''input'') [kl ''input'', att ''id'' (js i), att ''value'' v, att ''placeholder'' h] [])]"
  "elements_with (js ''id'') (tick_box i b) = [(js i, tick_box i b)]"
  by (simp_all add: edit_row_def edit_buttons_def edit_option_def text_row_def tick_box_def flag_def el_fields js_inj
      split: prod.split)

lemma ids_select [simp]: "concat (map (elements_with (js ''id'')) (flat_children (edit_select i cur vs)))
    = [(js i, el (js ''select'') [kl ''select'', att ''id'' (js i)] [nodes (edit_option cur) vs])]"
  by (simp add: edit_select_def el_fields js_inj comp_def concat_map_singleton)

lemma edit_selects: "ts \<noteq> [] \<Longrightarrow> select_shown (map (\<lambda>t. edit_option cur (t, t)) ts) = select_value ts cur"
    "select_shown (map (edit_option cur) LEVEL_OPTIONS) = select_value [js ''WARN'', js ''BLOCK'', js ''INFO''] cur"
  using edit_select_shown [of "map (\<lambda>t. (t, t)) ts" cur] edit_select_shown [of LEVEL_OPTIONS cur]
  by (simp_all add: comp_def) (simp_all add: LEVEL_OPTIONS_def)

lemma ticked: "has_attr (js ''checked'') (tick_box i b) = b"
  by (simp add: tick_box_def flag_def el_fields js_inj)

lemma rule_form_read: "read_rule_form (rule_form_node topics lbl r) = Some (openRuleForm topics r)"
proof -
  have c: "shown_controls (el (js ''textarea'') [kl ''input'', att ''id'' (js ''rule-condition''), att ''rows'' (js ''4''),
           att ''placeholder'' h, tx t] [] :: edit_click node) = [t]" for h t
    using textarea_text [of "[kl ''input'', att ''id'' (js ''rule-condition''), att ''rows'' (js ''4''), att ''placeholder'' h]" t]
    by (simp add: js_inj)
  have ne: "(if topics \<noteq> [] then topics else RULE_TOPICS) \<noteq> []" by (simp add: RULE_TOPICS_def)
  show ?thesis
    using ne by (simp add: read_rule_form_def control_value_def by_id_def rule_form_node_def openRuleForm_def Let_def c
        edit_selects el_fields js_inj comp_def concat_map_singleton)
qed

lemma field_form_read: "read_field_form (field_form_node f) = Some (openElementFieldForm f)"
proof -
  have c: "shown_controls (el (js ''textarea'') [kl ''input'', att ''id'' i, att ''placeholder'' h] [CStr t] :: edit_click node) = [t]"
    for i h t by (rule textarea_child) (simp add: js_inj)
  show ?thesis
    by (cases f) (simp_all add: read_field_form_def control_value_def control_checked_def by_id_def ticked field_form_node_def
        openElementFieldForm_def Let_def c flag_def el_fields js_inj)
qed

lemma safe_edit_parts [simp]:
  "safe_node A (edit_row cs) \<longleftrightarrow> list_all (safe_child A) cs" "safe_child A (edit_label t)" "safe_child A (edit_input i v h)"
  "safe_node A (text_row l i v h)" "safe_child A (edit_select i cur vs)" "safe_node A (edit_buttons t h')" "safe_node A (tick_box i b)"
  by (simp_all add: edit_row_def edit_label_def edit_input_def text_row_def edit_select_def edit_option_def edit_buttons_def
      tick_box_def flag_def js_inj list_all_iff split: prod.split)

lemma safe_edit_forms: "safe_node A (rule_form_node topics lbl r)" "safe_node A (field_form_node f)"
  by (simp_all add: rule_form_node_def field_form_node_def Let_def flag_def js_inj)

section \<open>Property\<close>

text \<open>C21: the two edit dialogs show what saving reads. Each value that saving looks up by its id in the form
  just drawn is the one the record of the form has for it, with both selects on the option the model
  says and the check boxes as the field has them; and the controls stand in the order of the form, with
  no others between them.\<close>

theorem edit_forms_show_records:
  "read_rule_form (rule_form_node topics lbl r) = Some (openRuleForm topics r)
   \<and> read_field_form (field_form_node f) = Some (openElementFieldForm f)
   \<and> shown_controls (rule_form_node topics lbl r) = (let F = openRuleForm topics r in
     [rf_title F, rf_code F, rf_topic F, rf_level F, rf_condition F, rf_weight F, rf_action F, rf_high F, rf_mid F, rf_low F])
   \<and> shown_controls (field_form_node f) = (let I = openElementFieldForm f in
     [in_label I, in_key I, in_aliases I, in_patterns I, in_hint I, [], []])"
  using rule_form_read field_form_read rule_form_shows field_form_shows by blast

end
