(* ===== verification/LegacyViews.thy ===== *)
theory LegacyViews
  imports ReviewView
begin

text \<open>
  Four builders that no reachable call uses any more: \<open>groupByCategory\<close>, \<open>buildAiRiskItem\<close>,
  \<open>buildFilteredRiskCard\<close> with its level filter, and \<open>buildFinding\<close>, the fallback of \<open>buildPanelContent\<close>
  for a panel name outside \<open>REVIEW_PANELS\<close>. They are kept with the code and so are modelled with it.
\<close>

section \<open>Grouping by category\<close>

text \<open>\<open>grouped[key] = grouped[key] || []\<close>: a key of \<open>Object.prototype\<close> finds a function, which has no \<open>push\<close>.\<close>

fun group_loop :: "jstr \<Rightarrow> item list \<Rightarrow> item list obj \<Rightarrow> js_error + item list obj" where
  "group_loop fb [] g = Inr g"
| "group_loop fb (it # its) g = (let k = str_or (i_category it) fb in
     case obj_get g k of
       Own xs \<Rightarrow> group_loop fb its (obj_put g k (xs @ [it]))
     | Missing \<Rightarrow> group_loop fb its (obj_put g k [it])
     | Inherited \<Rightarrow> Inl TypeError)"

definition groupByCategory :: "item list \<Rightarrow> jstr \<Rightarrow> js_error + item list obj" where
  "groupByCategory items fb = group_loop fb items []"

section \<open>A risk of the model\<close>

definition level_meta :: "jstr option \<Rightarrow> jstr \<times> jstr" where
  "level_meta l = (case obj_get AI_LEVEL_META (case l of None \<Rightarrow> js ''undefined'' | Some s \<Rightarrow> s) of
     Own m \<Rightarrow> (label m, cls m) | Inherited \<Rightarrow> (js ''undefined'', js ''undefined'') | Missing \<Rightarrow> ([0x63D0, 0x793A], js ''blue''))"

text \<open>The text of a badge: an inherited member has no label, and \<open>textContent = undefined\<close> empties a node.\<close>

definition level_label :: "jstr option \<Rightarrow> panel_click attr" where
  "level_label l = (case obj_get AI_LEVEL_META (case l of None \<Rightarrow> js ''undefined'' | Some s \<Rightarrow> s) of
     Inherited \<Rightarrow> AUndef | _ \<Rightarrow> AStr (fst (level_meta l)))"

text \<open>An absent title is null in the server's answers and prints so in a template.\<close>

definition ai_title_text :: "item \<Rightarrow> panel_click attr" where
  "ai_title_text it = (if truthy (i_section it)
     then AStr (str_or (i_section it) [] @ [32] @ (case i_title it of None \<Rightarrow> js ''null'' | Some t \<Rightarrow> t))
     else nullable (i_title it))"

definition buildAiRiskItem :: "nat \<times> item \<Rightarrow> panel_click node" where
  "buildAiRiskItem = (\<lambda>(i, it). el (js ''div'') [(js ''class'', AStr (js ''ai-item '' @ to_lower (str_or (i_risk_level it) (js ''info''))))]
     [CNode (el (js ''div'') [kl ''ai-title'']
        [CNode (el (js ''span'') [kl ''ai-index'', tx (dec (i + 1))] []),
         CNode (el (js ''span'') [(js ''class'', AStr (js ''badge '' @ snd (level_meta (i_risk_level it)))), (js ''text'', level_label (i_risk_level it))] []),
         CNode (el (js ''span'') [(js ''text'', ai_title_text it)] [])]),
      CNode (el (js ''div'') [kl ''ai-reason'', (js ''text'', nullable (i_reason it))] [])])"

section \<open>The filtered risk card\<close>

definition level_order :: "(jstr \<times> jstr \<times> jstr) list" where
  "level_order = [(js ''BLOCK'', [0x91CD, 0x5927, 0x98CE, 0x9669], js ''red''), (js ''WARN'', [0x9700, 0x5173, 0x6CE8], js ''yellow''),
     (js ''INFO'', [0x63D0, 0x793A], js ''blue''), (js ''UNKNOWN'', [0x672A, 0x77E5], js ''gray'')]"

definition level_of :: "item \<Rightarrow> jstr" where
  "level_of it = str_or (i_risk_level it) (js ''INFO'')"

definition level_count :: "item list \<Rightarrow> jstr \<Rightarrow> nat" where
  "level_count items k = length (filter (\<lambda>it. level_of it = k) items)"

definition present_levels :: "item list \<Rightarrow> (jstr \<times> jstr \<times> jstr) list" where
  "present_levels items = filter (\<lambda>(k, _). level_count items k \<noteq> 0) level_order"

definition first_level :: "item list \<Rightarrow> jstr" where
  "first_level items = (case present_levels items of [] \<Rightarrow> [] | (k, _) # _ \<Rightarrow> k)"

definition filtered :: "jstr \<Rightarrow> item list \<Rightarrow> item list" where
  "filtered cur items = (if cur \<noteq> [] then filter (\<lambda>it. level_of it = cur) items else items)"

definition filter_hint :: "jstr \<Rightarrow> item list \<Rightarrow> jstr" where
  "filter_hint cur items = (if cur \<noteq> []
     then (case map_of (present_levels items) cur of Some (l, _) \<Rightarrow> l | None \<Rightarrow> js ''undefined'')
       @ [32] @ dec (length (filtered cur items)) @ js '' / '' @ dec (length items) @ [0x0020, 0x9879]
     else [0x5171, 0x0020] @ dec (length items) @ [0x0020, 0x9879])"

definition risk_chip :: "jstr \<Rightarrow> jstr \<times> jstr \<times> jstr \<Rightarrow> nat \<Rightarrow> panel_click node" where
  "risk_chip cur c n = (case c of (k, l, colour) \<Rightarrow> toggle_class (js ''active'') (k = cur)
     (el (js ''button'') [att ''type'' (js ''button''), (js ''class'', AStr (js ''risk-bar-item '' @ colour)), att ''data-level'' k]
        [CNode (el (js ''b'') [tx (dec n)] []), CNode (el (js ''span'') [tx l] [])]))"

definition risk_chips :: "jstr \<Rightarrow> item list \<Rightarrow> panel_click node list" where
  "risk_chips cur items = risk_chip cur ([], [0x5168, 0x90E8], js ''gray'') (length items)
     # map (\<lambda>c. risk_chip cur c (level_count items (fst c))) (present_levels items)"

definition risk_list :: "jstr \<Rightarrow> jstr \<Rightarrow> item list \<Rightarrow> panel_click node list" where
  "risk_list empty_text cur items = (let shown = filtered cur items in
     if shown = [] then [muted (if empty_text = [] then [0x8BE5, 0x7B49, 0x7EA7, 0x6682, 0x65E0, 0x98CE, 0x9669, 0x9879] else empty_text)]
     else map buildAiRiskItem (enumerate 0 shown))"

text \<open>The card with the filter \<open>cur\<close> applied; a chip applies its \<open>data-level\<close>.\<close>

definition risk_card :: "host \<Rightarrow> review_answer \<Rightarrow> bool \<Rightarrow> jstr \<Rightarrow> jstr \<Rightarrow> item list \<Rightarrow> panel_click node" where
  "risk_card h an hide_meta empty_text cur items =
     el (js ''div'') [(js ''class'', AStr (if hide_meta then js ''panel-risks'' else js ''card''))]
      [child_if (\<not> hide_meta) (el (js ''div'') [kl ''card-title'', tx [0x98CE, 0x9669, 0x6E05, 0x5355]]
         [CNode (el (js ''span'') [kl ''hint'', tx (filter_hint cur items)] [])]),
       CNode (el (js ''div'') [kl ''risk-bar''] (map CNode (risk_chips cur items))),
       CNode (el (js ''div'') [kl ''risk-list''] (map CNode (risk_list empty_text cur items))),
       child_if (\<not> hide_meta) (el (js ''div'') [kl ''muted mt-8'', tx ([0x5408, 0x540C, 0x5305, 0x003A, 0x0020] @ str_or (an_package_id an) (js ''-'')
         @ [0x0020, 0x00B7, 0x0020, 0x5BA1, 0x67E5, 0x72B6, 0x6001, 0x003A, 0x0020] @ shown_text h (statusText (an_run_status an))
         @ [0x0020, 0x00B7, 0x0020, 0x751F, 0x6210, 0x65F6, 0x95F4, 0x003A, 0x0020] @ fmtTime (parse_time h) (an_generated an))] [])]"

definition buildFilteredRiskCard :: "host \<Rightarrow> review_answer \<Rightarrow> bool \<Rightarrow> jstr \<Rightarrow> item list \<Rightarrow> panel_click node" where
  "buildFilteredRiskCard h an hide_meta empty_text items = risk_card h an hide_meta empty_text (first_level items) items"

section \<open>A finding with its evidence\<close>

text \<open>
  What \<open>buildFinding\<close> reads. \<open>fw_percent\<close> is the text of \<open>Math.round(confidence * 100)\<close>, the two texts
  of \<open>ew_box\<close> the rounded corner of the bounding box: both are computed in binary floating point.
\<close>

record finding_view =
  fw_status :: "jstr option"
  fw_risk_level :: "jstr option"
  fw_title :: "jstr option"
  fw_rule_id :: "jstr option"
  fw_reason :: "jstr option"
  fw_action :: "jstr option"
  fw_percent :: "jstr option"
  fw_evidence :: "jstr list"
  fw_version :: "jstr option"

record evidence_view =
  ew_type :: "jstr option"
  ew_document :: "jstr option"
  ew_page :: "nat option"
  ew_box :: "(jstr \<times> jstr) option"
  ew_display :: "jstr option"
  ew_raw :: "jstr option"

definition optional_badge :: "jstr option \<Rightarrow> meta obj \<Rightarrow> panel_click node" where
  "optional_badge k table = (case k of Some s \<Rightarrow> badge s table
     | None \<Rightarrow> el (js ''span'') [kl ''badge gray'', (js ''text'', AUndef)] [])"

text \<open>A lookup table filled with one entry per member; the last one with an identifier stays. An
  identifier that names a member of \<open>Object.prototype\<close> finds a function without any of the fields.\<close>

definition no_evidence :: evidence_view where
  "no_evidence = \<lparr>ew_type = None, ew_document = None, ew_page = None, ew_box = None, ew_display = None, ew_raw = None\<rparr>"

definition find_evidence :: "evidence_view obj \<Rightarrow> jstr \<Rightarrow> evidence_view option" where
  "find_evidence t eid = (case obj_get t eid of Own e \<Rightarrow> Some e | Inherited \<Rightarrow> Some no_evidence | Missing \<Rightarrow> None)"

definition evidence_place :: "(jstr \<rightharpoonup> jstr) \<Rightarrow> evidence_view \<Rightarrow> jstr list" where
  "evidence_place docs ev =
     (case (if truthy (ew_document ev) then docs (the (ew_document ev)) else None) of Some n \<Rightarrow> [n] | None \<Rightarrow> [])
     @ (case ew_page ev of Some p \<Rightarrow> if p = 0 then [] else [[0x7B2C, 0x0020] @ dec p @ [0x0020, 0x9875]] | None \<Rightarrow> [])
     @ (case ew_box ev of Some (x, y) \<Rightarrow> [[0x5750, 0x6807, 0x0020, 0x0028] @ x @ js '', '' @ y @ js '')''] | None \<Rightarrow> [])"

definition raw_excerpt :: "jstr \<Rightarrow> jstr" where
  "raw_excerpt t = take 300 t @ (if length t > 300 then [0x2026] else [])"

definition evidence_box :: "(jstr \<rightharpoonup> jstr) \<Rightarrow> evidence_view obj \<Rightarrow> jstr \<Rightarrow> panel_click node" where
  "evidence_box docs t eid = (case find_evidence t eid of
     None \<Rightarrow> el (js ''div'') [kl ''evidence-box'']
       [CNode (el (js ''div'') [kl ''ev-head'', tx eid] []), CNode (muted [0xFF08, 0x8BC1, 0x636E, 0x4E0D, 0x5B58, 0x5728, 0xFF09])]
   | Some ev \<Rightarrow> (let pos = evidence_place docs ev in el (js ''div'') [kl ''evidence-box'']
       [CNode (el (js ''div'') [kl ''ev-head'']
          [CNode (el (js ''span'') [tx (str_or (ew_type ev) (js ''evidence'') @ [0x0020, 0x00B7, 0x0020] @ take 8 eid)] []),
           child_if (pos \<noteq> []) (el (js ''span'') [tx ([0x0020, 0x00B7, 0x0020] @ join [0x0020, 0x00B7, 0x0020] pos)] [])]),
        child_if (truthy (ew_display ev)) (el (js ''blockquote'') [tx (str_or (ew_display ev) [])] []),
        child_if (truthy (ew_raw ev) \<and> ew_raw ev \<noteq> ew_display ev)
          (el (js ''blockquote'') [tx (raw_excerpt (str_or (ew_raw ev) []))] [])]))"

definition buildFinding :: "(jstr \<rightharpoonup> jstr) \<Rightarrow> evidence_view obj \<Rightarrow> finding_view \<Rightarrow> panel_click node" where
  "buildFinding docs t f = el (js ''div'') [(js ''class'', AStr (js ''finding '' @ to_lower (str_or (fw_status f) (js ''UNKNOWN''))))]
     [CNode (el (js ''div'') [kl ''finding-head'']
        [CNode (optional_badge (fw_status f) FINDING_META), CNode (optional_badge (fw_risk_level f) RISK_META),
         CNode (el (js ''span'') [kl ''finding-title'', (js ''text'', nullable (fw_title f))] []),
         CNode (el (js ''span'') [kl ''finding-rule'', (js ''text'', nullable (fw_rule_id f))] [])]),
      CNode (el (js ''div'') [kl ''finding-reason'', (js ''text'', nullable (fw_reason f))] []),
      child_if (truthy (fw_action f)) (el (js ''div'') [kl ''finding-meta'', att ''style'' (js ''margin-bottom:6px'')]
        [CNode (el (js ''span'') [tx ([0x5EFA, 0x8BAE, 0x003A, 0x0020] @ str_or (fw_action f) [])] [])]),
      CNode (el (js ''div'') [kl ''finding-meta'']
        [CNode (el (js ''span'') [tx ([0x7F6E, 0x4FE1, 0x5EA6, 0x003A, 0x0020] @ (case fw_percent f of Some p \<Rightarrow> p @ js ''%'' | None \<Rightarrow> js ''-''))] []),
         CNode (el (js ''span'') [tx ([0x8BC1, 0x636E, 0x0020] @ dec (length (fw_evidence f)) @ [0x0020, 0x6761])] []),
         CNode (el (js ''span'') [tx ([0x89C4, 0x5219, 0x7248, 0x672C, 0x003A, 0x0020] @ str_or (fw_version f) (js ''-''))] [])]),
      nodes (evidence_box docs t) (fw_evidence f)]"

text \<open>The end of \<open>buildPanelContent\<close>, for a name that is none of the four panels.\<close>

definition panel_fallback :: "jstr \<Rightarrow> (jstr \<rightharpoonup> jstr) \<Rightarrow> evidence_view obj \<Rightarrow> finding_view list \<Rightarrow> panel_click node" where
  "panel_fallback name docs t fs = (if fs = [] then muted ([0x300C] @ name @ [0x300D, 0x6682, 0x65E0, 0x547D, 0x4E2D, 0x9879])
     else el (js ''div'') [] [nodes (buildFinding docs t) fs])"

section \<open>Facts\<close>

lemma first_level_present: "first_level items \<noteq> [] \<Longrightarrow> filtered (first_level items) items \<noteq> []"
proof -
  assume ne: "first_level items \<noteq> []"
  then obtain k x ps where p: "present_levels items = (k, x) # ps"
    by (auto simp: first_level_def split: list.splits)
  then have "(k, x) \<in> set (present_levels items)" by simp
  then have "level_count items k \<noteq> 0" by (simp add: present_levels_def)
  then show ?thesis using ne p by (simp add: first_level_def filtered_def level_count_def)
qed

text \<open>What the card lists and what its chips count belong together; a fresh card lists something unless
  there is nothing to list.\<close>

lemma chip_counts_filtered: "k \<noteq> [] \<Longrightarrow> length (filtered k items) = level_count items k"
  by (simp add: filtered_def level_count_def)

lemma fresh_card_not_empty: "items \<noteq> [] \<Longrightarrow> filtered (first_level items) items \<noteq> []"
  using first_level_present [of items] by (cases "first_level items = []") (simp_all add: filtered_def)

lemma active_chip:
  "map (\<lambda>c. (map_of (attrs_of c) (js ''data-level''), has_class (js ''active'') c)) (risk_chips cur items)
   = map (\<lambda>k. (Some k, k = cur)) ([] # map fst (present_levels items))"
proof -
  have act: "clean_word (js ''active'')" by (simp add: clean_word_def js_eval)
  have "map_of (attrs_of (risk_chip cur c n)) (js ''data-level'') = Some (fst c)"
    "has_class (js ''active'') (risk_chip cur c n) \<longleftrightarrow> fst c = cur" for c n
    by (cases c, simp add: risk_chip_def has_toggle_class(1) [OF act] el_fields js_inj)+
  then show ?thesis by (simp add: risk_chips_def)
qed


text \<open>Grouping keeps every item, under its category, and fails only on a category named like a member of
  the object prototype.\<close>

lemma group_loop_total:
  "group_loop fb its g = Inr g' \<Longrightarrow> distinct (map fst g) \<Longrightarrow>
     mset (concat (map snd g')) = mset (concat (map snd g)) + mset its \<and> distinct (map fst g')"
proof (induction fb its g rule: group_loop.induct)
  case (1 fb g)
  then show ?case by simp
next
  case (2 fb it its g)
  let ?k = "str_or (i_category it) fb"
  have put: "mset (concat (map snd (obj_put g ?k xs))) + mset ys = mset (concat (map snd g)) + mset xs"
    if "map_of g ?k = Some ys" "distinct (map fst g)" for xs ys
    using that by (induction g) auto
  have new: "mset (concat (map snd (obj_put g ?k xs))) = mset (concat (map snd g)) + mset xs"
    if "map_of g ?k = None" for xs
    using that by (induction g) (auto split: if_splits)
  show ?case
  proof (cases "obj_get g ?k")
    case (Own xs)
    then have step: "group_loop fb its (obj_put g ?k (xs @ [it])) = Inr g'"
      using 2(3) by (simp add: Let_def Own)
    have "map_of g ?k = Some xs" using Own by (rule obj_get_Own_iff [THEN iffD1])
    with step show ?thesis using 2(1) [OF refl Own step distinct_obj_put [OF 2(4)]] put [of xs "xs @ [it]"] 2(4) by simp
  next
    case Missing
    then have "map_of g ?k = None" by (auto simp: obj_get_def split: option.splits if_splits)
    moreover have step: "group_loop fb its (obj_put g ?k [it]) = Inr g'" using 2(3) by (simp add: Let_def Missing)
    ultimately show ?thesis using 2(2) [OF refl Missing step distinct_obj_put [OF 2(4)]] new [of "[it]"] by simp
  next
    case Inherited
    then show ?thesis using 2(3) by simp
  qed
qed

lemma groupByCategory_complete:
  "groupByCategory items fb = Inr g \<Longrightarrow> mset (concat (map snd g)) = mset items"
  using group_loop_total [of fb items "[]" g] by (simp add: groupByCategory_def)

lemma safe_finding: "safe_node A (buildFinding docs t f)" "safe_node A (panel_fallback name docs t fs)"
proof -
  have b: "safe_node A (optional_badge k tab)" for k tab
    by (simp add: optional_badge_def js_inj split: option.split)
  have e: "safe_node A (evidence_box docs t eid)" for eid
    by (simp add: evidence_box_def Let_def js_inj split: option.split)
  show f: "safe_node A (buildFinding docs t f)" for f by (simp add: buildFinding_def b e js_inj)
  show "safe_node A (panel_fallback name docs t fs)" by (simp add: panel_fallback_def f js_inj)
qed

end
