(* ===== verification/JsonView.thy ===== *)
theory JsonView
  imports Markup
begin

text \<open>
  The JSON viewer (\<open>jsonView\<close>): the escaped text of a value is coloured by four global replacements
  that wrap what they match in \<open>span\<close> elements, and the result becomes raw markup of the page. The main
  result is that the replacements only insert the tags written in the code: without them the markup is
  the escaped text, so nothing in the value can act as markup.
\<close>

section \<open>Global replacement\<close>

text \<open>\<open>s.replace(r, f)\<close> with the \<open>g\<close> flag; \<open>n\<close> is the length of the whole input. After an empty match
  the search resumes one unit later.\<close>

function replace_from :: "nat \<Rightarrow> re \<Rightarrow> (caps \<Rightarrow> jstr \<Rightarrow> jstr) \<Rightarrow> jstr \<Rightarrow> jstr" where
  "replace_from n r f s = (case re_search n r s of
     None \<Rightarrow> s
   | Some (b, c, m, t) \<Rightarrow> if m \<noteq> [] then b @ f c m @ replace_from n r f t
       else (case t of [] \<Rightarrow> b @ f c m | x # t' \<Rightarrow> b @ f c m @ x # replace_from n r f t'))"
  by pat_completeness auto
termination
proof (relation "measure (\<lambda>(n, r, f, s). length s)", goal_cases)
  case (2 n r f s x b y c z m t)
  then show ?case using re_search_Some [of n r s b c m t] by auto
next
  case (3 n r f s x b y c z m t x' t')
  then show ?case using re_search_Some [of n r s b c m t] by auto
qed simp

declare replace_from.simps [simp del]

definition replace_all :: "re \<Rightarrow> (caps \<Rightarrow> jstr \<Rightarrow> jstr) \<Rightarrow> jstr \<Rightarrow> jstr" where
  "replace_all r f s = replace_from (length s) r f s"

section \<open>The viewer\<close>

definition quot :: jstr where "quot = js ''&quot;''"

definition quoted_re :: re where
  "quoted_re = Cat (lit quot) (Cat (LazyStar any_re) (lit quot))"

definition key_re :: re where
  "key_re = Cat (Grp 1 quoted_re) (Grp 2 (Cat (Star space_re) (one 58)))"

definition string_re :: re where
  "string_re = Cat (lit [58, 32]) (Grp 1 quoted_re)"

definition bool_re :: re where
  "bool_re = Cat (lit [58, 32]) (Grp 1 (alts [js ''true'', js ''false'']))"

definition number_re :: re where
  "number_re = Cat (lit [58, 32]) (Grp 1 (Cat (Opt (one 45)) (Cat (Plus digit_re) (Cat (Opt (one 46)) (Star digit_re)))))"

definition open_tag :: "string \<Rightarrow> jstr" where
  "open_tag col = js (''<span style=\"color:'' @ col @ ''\">'')"

definition close_tag :: jstr where "close_tag = js ''</span>''"

definition group_text :: "caps \<Rightarrow> nat \<Rightarrow> jstr" where
  "group_text c k = str_or (capture c k) []"

definition wrap_key :: "caps \<Rightarrow> jstr \<Rightarrow> jstr" where
  "wrap_key c m = open_tag ''#7dd3fc'' @ group_text c 1 @ close_tag @ group_text c 2"

definition wrap_value :: "string \<Rightarrow> caps \<Rightarrow> jstr \<Rightarrow> jstr" where
  "wrap_value col c m = [58, 32] @ open_tag col @ group_text c 1 @ close_tag"

definition coloured_markup :: "jstr \<Rightarrow> jstr" where
  "coloured_markup esc = replace_all number_re (wrap_value ''#f472b6'')
     (replace_all bool_re (wrap_value ''#fbbf24'')
       (replace_all string_re (wrap_value ''#86efac'') (replace_all key_re wrap_key esc)))"

text \<open>\<open>JSON.stringify(undefined)\<close> is undefined, which \<open>escapeHtml\<close> reads as the empty text.\<close>

definition jsonView :: "json \<Rightarrow> 'h node" where
  "jsonView v = el (js ''div'') [kl ''json-view'',
     (js ''html'', AStr (coloured_markup (escapeHtml (if v = JUndef then None else Some (json_pretty v)))))] []"

section \<open>Markup that is a text with tags inserted\<close>

definition view_tags :: "jstr set" where
  "view_tags = {open_tag ''#7dd3fc'', open_tag ''#86efac'', open_tag ''#fbbf24'', open_tag ''#f472b6'', close_tag}"

inductive tagged :: "jstr \<Rightarrow> jstr \<Rightarrow> bool" where
  t_nil: "tagged [] []"
| t_char: "c \<notin> {60, 62} \<Longrightarrow> tagged s t \<Longrightarrow> tagged (c # s) (c # t)"
| t_tag: "g \<in> view_tags \<Longrightarrow> tagged s t \<Longrightarrow> tagged (g @ s) t"

lemma tag_shape:
  assumes "g \<in> view_tags"
  shows "\<exists>g'. g = 60 # g'" "last g = 62" "59 \<notin> set g" "38 \<notin> set g" "\<not> str_includes g [58, 32]"
  using assms by (auto simp: view_tags_def open_tag_def close_tag_def js_eval)

lemma tagged_plain: "set s \<inter> {60, 62} = {} \<Longrightarrow> tagged s s"
  by (induction s) (auto intro: tagged.intros)

lemma tagged_append: "tagged s t \<Longrightarrow> tagged s' t' \<Longrightarrow> tagged (s @ s') (t @ t')"
proof (induction rule: tagged.induct)
  case (t_tag g s t)
  then show ?case using tagged.t_tag [of g "s @ s'" "t @ t'"] by simp
qed (auto intro: tagged.intros)

lemma tagged_tag: "g \<in> view_tags \<Longrightarrow> tagged g []"
  using t_tag [OF _ t_nil, of g] by simp

inductive_cases tagged_consE: "tagged (c # s) t"

lemma tagged_char: "tagged (c # s) t \<Longrightarrow> c \<noteq> 60 \<Longrightarrow> \<exists>t'. t = c # t' \<and> tagged s t' \<and> c \<noteq> 62"
  by (erule tagged_consE) (use tag_shape(1) in \<open>fastforce\<close>)+

lemma tagged_prefix: "tagged (w @ s) t \<Longrightarrow> 60 \<notin> set w \<Longrightarrow> \<exists>t'. t = w @ t' \<and> tagged s t' \<and> tagged w w"
proof (induction w arbitrary: t)
  case Nil
  then show ?case by (auto intro: t_nil)
next
  case (Cons c w)
  then obtain t' where "t = c # t'" "tagged (w @ s) t'" "c \<noteq> 62" using tagged_char [of c "w @ s" t] by auto
  then show ?case using Cons by (auto intro: t_char)
qed

text \<open>A position before which a tag cannot be open is a position of the text.\<close>

lemma tagged_split_after:
  assumes "tagged s t" "s = w @ 59 # u"
  shows "\<exists>t1 t2. t = t1 @ t2 \<and> tagged (w @ [59]) t1 \<and> tagged u t2"
  using assms
proof (induction arbitrary: w rule: tagged.induct)
  case t_nil
  then show ?case by simp
next
  case (t_char c s t)
  show ?case
  proof (cases w)
    case Nil
    then have "c # t = [59] @ t" "tagged (w @ [59]) [59]" "tagged u t"
      using t_char tagged.t_char [of 59 "[]" "[]"] t_nil by auto
    then show ?thesis by blast
  next
    case (Cons d w')
    then have "c = d" "s = w' @ 59 # u" using t_char.prems by auto
    then obtain t1 t2 where "t = t1 @ t2" "tagged (w' @ [59]) t1" "tagged u t2" using t_char.IH by blast
    then have "c # t = (c # t1) @ t2" "tagged (w @ [59]) (c # t1)" "tagged u t2"
      using tagged.t_char [OF t_char.hyps(1)] Cons \<open>c = d\<close> by auto
    then show ?thesis by blast
  qed
next
  case (t_tag g s t)
  have "\<exists>w'. w = g @ w' \<and> s = w' @ 59 # u"
    using t_tag.prems tag_shape(3) [OF t_tag.hyps(1)] by (auto simp: append_eq_append_conv2 append_eq_Cons_conv)
  then obtain w' where w': "w = g @ w'" "s = w' @ 59 # u" by blast
  then obtain t1 t2 where "t = t1 @ t2" "tagged (w' @ [59]) t1" "tagged u t2" using t_tag.IH by blast
  then show ?case using tagged.t_tag [OF t_tag.hyps(1), of "w' @ [59]" t1] w' by auto
qed

lemma tagged_split_before:
  assumes "tagged s t" "s = w @ [58, 32] @ u"
  shows "\<exists>t1 t2. t = t1 @ t2 \<and> tagged w t1 \<and> tagged ([58, 32] @ u) t2"
  using assms
proof (induction arbitrary: w rule: tagged.induct)
  case t_nil
  then show ?case by simp
next
  case (t_char c s t)
  show ?case
  proof (cases w)
    case Nil
    then have "tagged ([58, 32] @ u) (c # t)" using t_char tagged.t_char [of c s t] by simp
    then show ?thesis using Nil t_nil by (metis append_Nil)
  next
    case (Cons d w')
    then have "c = d" "s = w' @ [58, 32] @ u" using t_char.prems by auto
    then obtain t1 t2 where "t = t1 @ t2" "tagged w' t1" "tagged ([58, 32] @ u) t2" using t_char.IH by blast
    then have "c # t = (c # t1) @ t2" "tagged w (c # t1)" "tagged ([58, 32] @ u) t2"
      using tagged.t_char [OF t_char.hyps(1)] Cons \<open>c = d\<close> by auto
    then show ?thesis by blast
  qed
next
  case (t_tag g s t)
  have "\<exists>w'. w = g @ w' \<and> s = w' @ [58, 32] @ u"
  proof -
    obtain us where "(g = w @ us \<and> us @ s = [58, 32] @ u) \<or> (g @ us = w \<and> s = us @ [58, 32] @ u)"
      using t_tag.prems unfolding append_eq_append_conv2 by blast
    moreover have False if g: "g = w @ us" and us: "us @ s = [58, 32] @ u" and ne: "us \<noteq> []"
    proof -
      obtain vs where vs: "us = 58 # vs" using us ne by (cases us) auto
      have "vs \<noteq> []" using tag_shape(2) [OF t_tag.hyps(1)] g vs by auto
      then obtain ws where "vs = 32 # ws" using us vs by (cases vs) auto
      then have "str_includes g [58, 32]" using g vs unfolding str_includes_iff by auto
      then show False using tag_shape(5) [OF t_tag.hyps(1)] by simp
    qed
    ultimately show ?thesis by (cases "us = []") auto
  qed
  then obtain w' where w': "w = g @ w'" "s = w' @ [58, 32] @ u" by blast
  then obtain t1 t2 where "t = t1 @ t2" "tagged w' t1" "tagged ([58, 32] @ u) t2" using t_tag.IH by blast
  then show ?case using tagged.t_tag [OF t_tag.hyps(1), of w' t1] w' by blast
qed

section \<open>A replacement keeps the text\<close>

text \<open>What a match contributes, given how the markup around it reads, on inputs that meet \<open>P\<close>.\<close>

definition keeps_text :: "(jstr \<Rightarrow> bool) \<Rightarrow> re \<Rightarrow> (caps \<Rightarrow> jstr \<Rightarrow> jstr) \<Rightarrow> bool" where
  "keeps_text P r f \<longleftrightarrow> (\<forall>n s t b c m u. P s \<longrightarrow> tagged s t \<longrightarrow> s = b @ m @ u \<longrightarrow> (c, u) \<in> set (rm n r (m @ u)) \<longrightarrow>
     m \<noteq> [] \<and> P u \<and> (\<exists>t1 t2 t3. t = t1 @ t2 @ t3 \<and> tagged b t1 \<and> tagged (f c m) t2 \<and> tagged u t3))"

lemma re_search_rm: "re_search n r s = Some (b, c, m, t) \<Longrightarrow> (c, t) \<in> set (rm n r (m @ t))"
proof (induction s arbitrary: b)
  case Nil
  then obtain y ys where y: "rm n r [] = y # ys" "c = fst y" "m = []" "t = []" by (cases "rm n r []") auto
  moreover have "snd y = []"
    using matches_suffix [of n r "[]" "snd y"] rm_matches [of y n r "[]"] y(1) by auto
  ultimately show ?case by (metis append_Nil list.set_intros(1) prod.collapse)
next
  case (Cons x s)
  show ?case
  proof (cases "rm n r (x # s)")
    case Nil
    with Cons show ?thesis by (auto split: list.splits)
  next
    case (Cons y ys)
    then have "snd y = t" "fst y = c" "b = []" using Cons.prems by auto
    moreover have "x # s = b @ m @ t" using re_search_Some [OF Cons.prems] by simp
    ultimately show ?thesis using Cons by (metis append_Nil list.set_intros(1) prod.collapse)
  qed
qed

lemma replace_from_tagged: "keeps_text P r f \<Longrightarrow> P s \<Longrightarrow> tagged s t \<Longrightarrow> tagged (replace_from n r f s) t"
proof (induction n r f s arbitrary: t rule: replace_from.induct)
  case (1 n r f s)
  show ?case
  proof (cases "re_search n r s")
    case None
    then show ?thesis using 1 by (simp add: replace_from.simps [of n r f s])
  next
    case (Some x)
    obtain b c m u where x: "x = (b, c, m, u)" by (cases x)
    have s: "s = b @ m @ u" "(c, u) \<in> set (rm n r (m @ u))"
      using re_search_Some [of n r s b c m u] re_search_rm [of n r s b c m u] Some x by simp_all
    then obtain t1 t2 t3 where t: "m \<noteq> []" "P u" "t = t1 @ t2 @ t3" "tagged b t1" "tagged (f c m) t2" "tagged u t3"
      using 1(3,4,5) unfolding keeps_text_def by metis
    have "tagged (replace_from n r f u) t3"
      using 1(1) [OF Some [unfolded x] refl refl refl t(1) 1(3) t(2) t(6)] .
    then have "tagged (b @ f c m @ replace_from n r f u) t"
      unfolding t(3) using t(4,5) by (intro tagged_append)
    then show ?thesis by (simp add: replace_from.simps [of n r f s] Some x t(1))
  qed
qed

lemma replace_all_tagged: "keeps_text P r f \<Longrightarrow> P s \<Longrightarrow> tagged s t \<Longrightarrow> tagged (replace_all r f s) t"
  unfolding replace_all_def by (rule replace_from_tagged)

section \<open>The four patterns\<close>

fun groups :: "re \<Rightarrow> nat set" where
  "groups (Cat a b) = groups a \<union> groups b"
| "groups (Alt a b) = groups a \<union> groups b"
| "groups (Star a) = groups a"
| "groups (LazyStar a) = groups a"
| "groups (Grp k a) = insert k (groups a)"
| "groups _ = {}"

lemma rm_groups: "(c, t) \<in> set (rm n r s) \<Longrightarrow> fst ` set c \<subseteq> groups r"
proof (induction n r s arbitrary: c t rule: rm.induct)
  case (6 n a b s)
  then obtain x y where x: "x \<in> set (rm n a s)" "y \<in> set (rm n b (snd x))" "c = fst x @ fst y" by auto
  have "fst ` set (fst x) \<subseteq> groups a" "fst ` set (fst y) \<subseteq> groups b"
    using 6(1) [of "fst x" "snd x"] 6(2) [OF x(1), of "fst y" "snd y"] x(1,2) by simp_all
  then show ?case using x(3) by (simp add: image_Un le_supI1 le_supI2)
next
  case (8 n a s)
  show ?case
  proof (cases "c = []")
    case False
    then obtain x y where "x \<in> set (rm n a s)" "length (snd x) < length s" "y \<in> set (rm n (Star a) (snd x))"
        "c = fst x @ fst y"
      using 8(3) unfolding rm_star_set [of "(c, t)"] by blast
    then have x: "x \<in> set (filter (\<lambda>x. length (snd x) < length s) (rm n a s))"
        "y \<in> set (rm n (Star a) (snd x))" "c = fst x @ fst y" by simp_all
    have "fst ` set (fst x) \<subseteq> groups a" "fst ` set (fst y) \<subseteq> groups (Star a)"
      using 8(1) [of "fst x" "snd x"] 8(2) [OF x(1), of "fst y" "snd y"] x(1,2) by simp_all
    then show ?thesis using x(3) by (simp add: image_Un)
  qed simp
next
  case (9 n a s)
  show ?case
  proof (cases "c = []")
    case False
    then obtain x y where "x \<in> set (rm n a s)" "length (snd x) < length s" "y \<in> set (rm n (LazyStar a) (snd x))"
        "c = fst x @ fst y"
      using 9(3) unfolding rm_lazy_set [of "(c, t)"] by blast
    then have x: "x \<in> set (filter (\<lambda>x. length (snd x) < length s) (rm n a s))"
        "y \<in> set (rm n (LazyStar a) (snd x))" "c = fst x @ fst y" by simp_all
    have "fst ` set (fst x) \<subseteq> groups a" "fst ` set (fst y) \<subseteq> groups (LazyStar a)"
      using 9(1) [of "fst x" "snd x"] 9(2) [OF x(1), of "fst y" "snd y"] x(1,2) by simp_all
    then show ?thesis using x(3) by (simp add: image_Un)
  qed simp
next
  case (7 n a b s)
  then have "(c, t) \<in> set (rm n a s) \<or> (c, t) \<in> set (rm n b s)" by simp
  then show ?case using 7(1) [of c t] 7(2) [of c t] by (metis groups.simps(2) le_supI1 le_supI2)
next
  case (10 n k a s)
  then obtain x where x: "x \<in> set (rm n a s)" "c = fst x @ [(k, take (length s - length (snd x)) s)]" by auto
  then show ?case using 10(1) [of "fst x" "snd x"] by auto
qed (auto split: list.splits if_splits)

lemma lit_rm: "(c, u) \<in> set (rm n (lit w) s) \<Longrightarrow> s = w @ u"
  by (induction w arbitrary: s c) (auto simp: lit.simps in_ranges_def split: list.splits if_splits)

lemma capture_last: "capture (c @ [(k, w)]) k = Some w"
  by (simp add: capture_def)

lemma capture_other: "k \<notin> fst ` set d \<Longrightarrow> capture (c @ d) k = capture c k"
proof -
  assume "k \<notin> fst ` set d"
  then have "map_of (rev d) k = None" by (simp add: map_of_eq_None_iff)
  then show ?thesis by (simp add: capture_def map_add_def)
qed


lemma capture_grp:
  assumes "(c, u) \<in> set (rm n (Grp k a) s)"
  shows "\<exists>c0 w. c = c0 @ [(k, w)] \<and> s = w @ u \<and> matches n a s u"
proof -
  obtain x where x: "x \<in> set (rm n a s)" "c = fst x @ [(k, take (length s - length (snd x)) s)]" "u = snd x"
    using assms by auto
  have m: "matches n a s u" using rm_matches [of x n a s] x by simp
  then obtain w where "s = w @ u" using matches_suffix by blast
  then show ?thesis using x m by auto
qed

lemma value_rm:
  assumes "(c, u) \<in> set (rm n (Cat (lit [58, 32]) (Grp 1 a)) (m @ u))"
  shows "\<exists>w. m = [58, 32] @ w \<and> group_text c 1 = w \<and> matches n a (w @ u) u"
proof -
  obtain x y where xy: "x \<in> set (rm n (lit [58, 32]) (m @ u))" "y \<in> set (rm n (Grp 1 a) (snd x))"
      "c = fst x @ fst y" "u = snd y"
    using assms by (auto simp del: rm.simps(10))
  have x: "m @ u = [58, 32] @ snd x" using lit_rm [of "fst x" "snd x" n] xy(1) by (metis prod.collapse)
  obtain c0 w where y: "fst y = c0 @ [(1, w)]" "snd x = w @ u" "matches n a (snd x) u"
    using capture_grp [of "fst y" "snd y"] xy by (metis prod.collapse)
  have "m = [58, 32] @ w" using x y(2) by (metis append.assoc append_same_eq)
  moreover have "group_text c 1 = w"
    using capture_last [of "fst x @ c0" 1 w] xy(3) y(1) by (simp add: group_text_def)
  ultimately show ?thesis using y(2,3) by auto
qed


lemma lit_match: "matches n (lit w) s t \<Longrightarrow> s = w @ t"
  by (induction w arbitrary: s) (auto simp: lit.simps in_ranges_def)

lemma quoted_match: "matches n quoted_re (w @ u) u \<Longrightarrow> \<exists>v. w = v @ [59]"
proof -
  assume "matches n quoted_re (w @ u) u"
  then obtain s t where "matches n (lit quot) (w @ u) s" "matches n (LazyStar any_re) s t" "matches n (lit quot) t u"
    by (auto simp: quoted_re_def)
  then have "t = quot @ u" "\<exists>v. w @ u = v @ t"
    using lit_match [of n quot t u] lit_match [of n quot "w @ u" s] matches_suffix [of n "LazyStar any_re" s t]
    by (auto simp: append_assoc [symmetric] simp del: append_assoc)
  then show ?thesis by (auto simp: quot_def js_eval)
qed

lemma number_match:
  assumes "matches n (Cat (Opt (one 45)) (Cat (Plus digit_re) (Cat (Opt (one 46)) (Star digit_re)))) (w @ u) u"
  shows "60 \<notin> set w"
  using assms by (auto simp: in_ranges_def dest!: bspec [where x = 60])

lemma bool_match: "matches n (alts [js ''true'', js ''false'']) (w @ u) u \<Longrightarrow> 60 \<notin> set w"
  by (auto simp: alts.simps in_ranges_def js_eval dest!: lit_match)

lemma wrap_keeps:
  assumes a: "\<And>n w u. matches n a (w @ u) u \<Longrightarrow> 60 \<notin> set w \<or> (\<exists>v. w = v @ [59])"
    and col: "open_tag col \<in> view_tags"
  shows "keeps_text (\<lambda>_. True) (Cat (lit [58, 32]) (Grp 1 a)) (wrap_value col)"
  unfolding keeps_text_def
proof (intro allI impI, goal_cases)
  case (1 n s t b c m u)
  obtain w where w: "m = [58, 32] @ w" "group_text c 1 = w" "matches n a (w @ u) u" using value_rm [OF 1(4)] by blast
  obtain t1 t2 where t: "t = t1 @ t2" "tagged b t1" "tagged ([58, 32] @ w @ u) t2"
    using tagged_split_before [OF 1(2), of b "w @ u"] 1(3) w(1) by auto
  obtain t3 where t3: "t2 = [58, 32] @ t3" "tagged (w @ u) t3" "tagged [58, 32] [58, 32]"
    using tagged_prefix [OF t(3)] by auto
  have "\<exists>t4 t5. t3 = t4 @ t5 \<and> tagged w t4 \<and> tagged u t5"
  proof (cases "60 \<in> set w")
    case False
    then show ?thesis using tagged_prefix [OF t3(2)] by blast
  next
    case True
    then obtain v where "w = v @ [59]" using a [OF w(3)] by blast
    then show ?thesis using tagged_split_after [OF t3(2), of v u] by simp
  qed
  then obtain t4 t5 where t4: "t3 = t4 @ t5" "tagged w t4" "tagged u t5" by blast
  have "tagged (open_tag col @ w @ close_tag) ([] @ t4 @ [])"
    using t4(2) col tagged_tag by (intro tagged_append) (simp_all add: view_tags_def)
  then have "tagged (wrap_value col c m) ([58, 32] @ t4)"
    unfolding wrap_value_def w(2) using tagged_append [OF t3(3)] by simp
  then show ?case using t t3(1) t4 w(1) by (metis append.assoc append_Nil2 append_is_Nil_conv list.distinct(1))
qed

lemma string_keeps: "keeps_text (\<lambda>_. True) string_re (wrap_value ''#86efac'')"
  unfolding string_re_def by (rule wrap_keeps) (auto simp: view_tags_def dest: quoted_match)

lemma bool_keeps: "keeps_text (\<lambda>_. True) bool_re (wrap_value ''#fbbf24'')"
  unfolding bool_re_def by (rule wrap_keeps) (use bool_match in \<open>auto simp: view_tags_def\<close>)

lemma number_keeps: "keeps_text (\<lambda>_. True) number_re (wrap_value ''#f472b6'')"
  unfolding number_re_def by (rule wrap_keeps) (use number_match in \<open>auto simp: view_tags_def\<close>)


abbreviation plain :: "jstr \<Rightarrow> bool" where
  "plain s \<equiv> set s \<inter> {60, 62} = {}"

lemma tagged_of_plain: "tagged s t \<Longrightarrow> plain s \<Longrightarrow> t = s"
  by (induction rule: tagged.induct) (use tag_shape(1) in fastforce)+

lemma key_rm:
  assumes "(c, u) \<in> set (rm n key_re (m @ u))"
  shows "\<exists>v w. m = (v @ [59]) @ w \<and> group_text c 1 = v @ [59] \<and> group_text c 2 = w"
proof -
  obtain x y where xy: "x \<in> set (rm n (Grp 1 quoted_re) (m @ u))"
      "y \<in> set (rm n (Grp 2 (Cat (Star space_re) (one 58))) (snd x))" "c = fst x @ fst y" "u = snd y"
    using assms by (auto simp: key_re_def simp del: rm.simps(10))
  obtain c0 w where x: "fst x = c0 @ [(1, w)]" "m @ u = w @ snd x" "matches n quoted_re (m @ u) (snd x)"
    using capture_grp [of "fst x" "snd x"] xy(1) by (metis prod.collapse)
  obtain c1 w' where y: "fst y = c1 @ [(2, w')]" "snd x = w' @ u"
    using capture_grp [of "fst y" "snd y"] xy(2,4) by (metis prod.collapse)
  have "fst ` set (fst y) \<subseteq> {2}"
    using rm_groups [of "fst y" "snd y" n "Grp 2 (Cat (Star space_re) (one 58))" "snd x"] xy(2)
    by (simp add: space_re_def del: rm.simps(10))
  then have "capture c 1 = capture (fst x) 1" unfolding xy(3) by (intro capture_other) auto
  then have "group_text c 1 = w" using capture_last [of c0 1 w] by (simp add: group_text_def x(1))
  moreover have "group_text c 2 = w'"
    using capture_last [of "fst x @ c1" 2 w'] by (simp add: group_text_def xy(3) y(1))
  moreover obtain v where "w = v @ [59]" using quoted_match [of n w "snd x"] x(2,3) by auto
  moreover have "m = w @ w'" using x(2) y(2) by simp
  ultimately show ?thesis by blast
qed

lemma key_keeps: "keeps_text plain key_re wrap_key"
  unfolding keeps_text_def
proof (intro allI impI, goal_cases)
  case (1 n s t b c m u)
  obtain v w where w: "m = (v @ [59]) @ w" "group_text c 1 = v @ [59]" "group_text c 2 = w"
    using key_rm [OF 1(4)] by blast
  have t: "t = b @ m @ u" using tagged_of_plain [OF 1(2,1)] 1(3) by simp
  have p: "plain b" "plain (v @ [59])" "plain w" "plain u" using 1(1,3) w(1) by auto
  have "tagged (open_tag ''#7dd3fc'' @ (v @ [59]) @ close_tag @ w) ([] @ (v @ [59]) @ [] @ w)"
    using p by (intro tagged_append tagged_tag tagged_plain) (simp_all add: view_tags_def)
  then have "tagged (wrap_key c m) m" unfolding wrap_key_def w(2,3) using w(1) by simp
  then show ?case using t p w(1) tagged_plain by (metis append_is_Nil_conv list.distinct(1))
qed

text \<open>All four replacements together.\<close>

lemma coloured_markup_tagged: "plain s \<Longrightarrow> tagged (coloured_markup s) s"
  unfolding coloured_markup_def
  by (intro replace_all_tagged [OF number_keeps] replace_all_tagged [OF bool_keeps]
      replace_all_tagged [OF string_keeps] replace_all_tagged [OF key_keeps] tagged_plain TrueI)


lemma raw_of_jsonView:
  "concat (raw_of (jsonView v)) = coloured_markup (escapeHtml (if v = JUndef then None else Some (json_pretty v)))"
  by (simp add: jsonView_def el_def set_html_def js_inj Let_def)

section \<open>What the viewer shows\<close>

text \<open>How a browser reads the markup: everything between angle brackets is a tag.\<close>

fun untag :: "bool \<Rightarrow> jstr \<Rightarrow> jstr" where
  "untag b [] = []"
| "untag True (c # s) = untag (c \<noteq> 62) s"
| "untag False (c # s) = (if c = 60 then untag True s else c # untag False s)"

lemma untag_tag: "g \<in> view_tags \<Longrightarrow> untag False (g @ s) = untag False s"
  by (auto simp: view_tags_def open_tag_def close_tag_def js_eval)

lemma untag_tagged: "tagged s t \<Longrightarrow> untag False s = t"
  by (induction rule: tagged.induct) (simp_all add: untag_tag)

text \<open>C11: whatever value the viewer is given, its raw markup is the escaped text of the value with nothing
  but the five fixed tags inserted; read by a browser it shows exactly JSON.stringify(data, null, 2)
  (and nothing for undefined), so no string in a result can act as markup.\<close>

theorem json_view_safe:
  "tagged (concat (raw_of (jsonView v :: 'h node))) (escapeHtml (if v = JUndef then None else Some (json_pretty v)))
   \<and> html_decode (untag False (concat (raw_of (jsonView v :: 'h node)))) = (if v = JUndef then [] else json_pretty v)"
proof -
  let ?t = "if v = JUndef then None else Some (json_pretty v)"
  have "plain (escapeHtml ?t)" using html_entity_safe by (fastforce simp: escapeHtml_def)
  then have "tagged (concat (raw_of (jsonView v :: 'h node))) (escapeHtml ?t)"
    unfolding raw_of_jsonView by (rule coloured_markup_tagged)
  moreover from this have "untag False (concat (raw_of (jsonView v :: 'h node))) = escapeHtml ?t" by (rule untag_tagged)
  ultimately show ?thesis by (cases "v = JUndef") (simp_all add: escapeHtml_def html_decode_escape)
qed

end
