(* ===== verification/Shell.thy ===== *)
theory Shell
  imports TasksPage FilePool Markup
begin

text \<open>
  What surrounds the pages: messages (\<open>toast\<close>), the clipboard (\<open>copyText\<close>), the one modal window
  (\<open>openModal\<close>, \<open>closeModal\<close>), the settings bar (\<open>saveConfig\<close>, the two fields), and the listeners
  that \<open>init\<close> installs, as a state machine over the user's and the browser's events. The elements the
  script looks up are those of \<open>index.html\<close>; all of them are there.
\<close>

section \<open>Messages and the clipboard\<close>

text \<open>A message on the page with the time at which its timer removes it; times are milliseconds.\<close>

record toast_line =
  tl_text :: jstr
  tl_kind :: toast_kind
  tl_due :: nat

definition toast_timeout :: nat where "toast_timeout = 3500"

definition toast :: "nat \<Rightarrow> jstr \<Rightarrow> toast_kind \<Rightarrow> toast_line list \<Rightarrow> toast_line list" where
  "toast t msg k ls = ls @ [\<lparr>tl_text = msg, tl_kind = k, tl_due = t + toast_timeout\<rparr>]"

definition drop_toasts :: "nat \<Rightarrow> toast_line list \<Rightarrow> toast_line list" where
  "drop_toasts t ls = filter (\<lambda>l. t < tl_due l) ls"

definition kind_class :: "toast_kind \<Rightarrow> jstr" where
  "kind_class k = (case k of Ok \<Rightarrow> js ''ok'' | Warn \<Rightarrow> js ''warn'' | Err \<Rightarrow> js ''err'')"

definition toast_node :: "toast_line \<Rightarrow> 'h node" where
  "toast_node l = el (js ''div'') [(js ''class'', AStr (js ''toast '' @ kind_class (tl_kind l))),
     tx (tl_text l)] []"

text \<open>
  \<open>writes\<close>: \<open>writeText\<close> fulfils; it also fails where the browser offers no clipboard. \<open>copies\<close>: what
  \<open>execCommand\<close> answers, which the code does not look at.
\<close>

definition copyText :: "bool \<Rightarrow> bool \<Rightarrow> jstr \<Rightarrow> effect list" where
  "copyText writes copies t =
     (if writes then [Clipboard t, Toast [0x5DF2, 0x590D, 0x5236, 0x5230, 0x526A, 0x8D34, 0x677F] Ok]
      else (if copies then [Clipboard t] else []) @ [Toast [0x5DF2, 0x590D, 0x5236, 0x5230, 0x526A, 0x8D34, 0x677F] Ok])"

fun clipboard_after :: "effect list \<Rightarrow> jstr \<Rightarrow> jstr" where
  "clipboard_after [] c = c"
| "clipboard_after (Clipboard t # es) c = clipboard_after es t"
| "clipboard_after (_ # es) c = clipboard_after es c"

section \<open>The modal window\<close>

text \<open>The body is a string of markup or a node.\<close>

record 'h modal =
  mo_title :: jstr
  mo_wide :: bool
  mo_body :: "'h node list"
  mo_hidden :: bool

definition init_modal :: "'h modal" where
  "init_modal = \<lparr>mo_title = [0x6807, 0x9898], mo_wide = False, mo_body = [], mo_hidden = True\<rparr>"

definition modal_body :: "jstr + 'h node \<Rightarrow> 'h node list" where
  "modal_body b = (case b of Inl s \<Rightarrow> set_html (AStr s) | Inr n \<Rightarrow> [n])"

definition openModal :: "jstr \<Rightarrow> jstr + 'h node \<Rightarrow> bool \<Rightarrow> 'h modal" where
  "openModal title b wide = \<lparr>mo_title = title, mo_wide = wide, mo_body = modal_body b, mo_hidden = False\<rparr>"

definition hide_modal :: "'h modal \<Rightarrow> 'h modal" where
  "hide_modal m = m\<lparr>mo_hidden := True, mo_wide := False\<rparr>"

section \<open>The page around the pages\<close>

record 'h shell =
  sh_app :: app
  sh_now :: nat
  sh_base :: jstr
  sh_token :: jstr
  sh_token_empty :: bool
  sh_toasts :: "toast_line list"
  sh_modal :: "'h modal"
  sh_asks :: nat
  sh_health :: "health_view option"

definition ask_health :: "'h shell \<Rightarrow> 'h shell \<times> effect list" where
  "ask_health s = (s\<lparr>sh_asks := Suc (sh_asks s)\<rparr>, [Send (api_get (client_of (sh_app s)) (js ''/health''))])"

definition answer_health :: "failure + health \<Rightarrow> 'h shell \<Rightarrow> 'h shell" where
  "answer_health out s = (case refreshHealth out (client_of (sh_app s)) of (c, v) \<Rightarrow>
     s\<lparr>sh_app := (sh_app s)\<lparr>client_of := c\<rparr>, sh_health := Some v, sh_asks := sh_asks s - 1\<rparr>)"

text \<open>The \<open>input\<close> listener of the address field is \<open>applyConfig\<close> itself; it reads both fields.\<close>

definition apply_fields :: "'h shell \<Rightarrow> 'h shell" where
  "apply_fields s = (case applyConfig (sh_base s) (Some (sh_token s)) (client_of (sh_app s)) of (c, e) \<Rightarrow>
     s\<lparr>sh_app := (sh_app s)\<lparr>client_of := c\<rparr>, sh_token_empty := (e = Some True)\<rparr>)"

definition saveConfig :: "'h shell \<Rightarrow> 'h shell \<times> effect list" where
  "saveConfig s = (let s1 = apply_fields s;
       s2 = s1\<lparr>sh_toasts := toast (sh_now s1) [0x914D, 0x7F6E, 0x5DF2, 0x4FDD, 0x5B58] Ok (sh_toasts s1)\<rparr>;
       (s3, es) = ask_health s2
     in (s3, Toast [0x914D, 0x7F6E, 0x5DF2, 0x4FDD, 0x5B58] Ok # es))"

definition show_page :: "jstr \<Rightarrow> 'h shell \<Rightarrow> 'h shell \<times> effect list" where
  "show_page pg s = (case navigate pg True (sh_app s) of (a, es) \<Rightarrow> (s\<lparr>sh_app := a\<rparr>, es))"

definition init_shell :: "env \<Rightarrow> client \<Rightarrow> 'h shell \<times> effect list" where
  "init_shell e c = (let (b, tok) = loadConfigUI c;
       s = \<lparr>sh_app = (init_app e)\<lparr>client_of := c\<rparr>, sh_now = 0, sh_base = b, sh_token = tok,
         sh_token_empty = (tok = []), sh_toasts = [], sh_modal = init_modal, sh_asks = 0, sh_health = None\<rparr>;
       (s1, es1) = ask_health s; (s2, es2) = show_page (js ''review'') s1
     in (s2, es1 @ es2))"

text \<open>
  \<open>ShowToast\<close> and \<open>ShowModal\<close> stand for what the pages do with the shared parts; \<open>HealthTimer\<close> is the
  thirty-second interval, \<open>MaskClick\<close> carries the identifier of what was hit inside the mask.
\<close>

datatype 'h shell_input =
    NavClick jstr
  | BaseInput jstr
  | TokenInput jstr
  | SaveClick
  | FieldKey jstr
  | CloseClick
  | MaskClick jstr
  | PageKey jstr
  | HealthTimer
  | HealthReply "failure + health"
  | ShowToast jstr toast_kind
  | ShowModal jstr "jstr + 'h node" bool
  | Pass nat

fun shell_event :: "'h shell_input \<Rightarrow> 'h shell \<Rightarrow> 'h shell \<times> effect list" where
  "shell_event (NavClick pg) s = show_page pg s"
| "shell_event (BaseInput v) s = (apply_fields (s\<lparr>sh_base := v\<rparr>), [])"
| "shell_event (TokenInput v) s = (s\<lparr>sh_token := v\<rparr>, [])"
| "shell_event SaveClick s = saveConfig s"
| "shell_event (FieldKey k) s = (if k = js ''Enter'' then saveConfig s else (s, []))"
| "shell_event CloseClick s = (s\<lparr>sh_modal := hide_modal (sh_modal s)\<rparr>, [ModalClose])"
| "shell_event (MaskClick i) s =
     (if i = js ''modal-mask'' then (s\<lparr>sh_modal := hide_modal (sh_modal s)\<rparr>, [ModalClose]) else (s, []))"
| "shell_event (PageKey k) s =
     (if k = js ''Escape'' then (s\<lparr>sh_modal := hide_modal (sh_modal s)\<rparr>, [ModalClose]) else (s, []))"
| "shell_event HealthTimer s = ask_health s"
| "shell_event (HealthReply out) s = (if sh_asks s = 0 then (s, []) else (answer_health out s, []))"
| "shell_event (ShowToast msg k) s = (s\<lparr>sh_toasts := toast (sh_now s) msg k (sh_toasts s)\<rparr>, [Toast msg k])"
| "shell_event (ShowModal title b w) s = (s\<lparr>sh_modal := openModal title b w\<rparr>, [ModalOpen title])"
| "shell_event (Pass d) s =
     (s\<lparr>sh_now := sh_now s + d, sh_toasts := drop_toasts (sh_now s + d) (sh_toasts s)\<rparr>, [])"

inductive shell_reach :: "env \<Rightarrow> client \<Rightarrow> 'h shell \<Rightarrow> bool" for e c where
  loaded: "shell_reach e c (fst (init_shell e c))"
| event: "shell_reach e c s \<Longrightarrow> shell_reach e c (fst (shell_event ev s))"

section \<open>What holds whatever happens\<close>

definition shell_inv :: "'h shell \<Rightarrow> bool" where
  "shell_inv s \<longleftrightarrow> api_base (client_of (sh_app s)) = normal_base (sh_base s)
     \<and> (mo_hidden (sh_modal s) \<longrightarrow> \<not> mo_wide (sh_modal s))
     \<and> list_all (\<lambda>l. sh_now s < tl_due l \<and> tl_due l \<le> sh_now s + toast_timeout) (sh_toasts s)
     \<and> sorted (map tl_due (sh_toasts s))"

lemma learn_keeps_base [simp]: "api_base (learn_auth_header n c) = api_base c"
  by (simp add: learn_auth_header_def api_base_def)

lemma health_keeps_base: "api_base (fst (refreshHealth out c)) = api_base c"
  by (simp add: refreshHealth_def split: sum.splits)

lemma inv_apply: "shell_inv s \<Longrightarrow> shell_inv (apply_fields (s\<lparr>sh_base := v\<rparr>))"
  using stored_base [of v "Some (sh_token s)" "client_of (sh_app s)"]
  by (auto simp: shell_inv_def apply_fields_def split: prod.splits)

lemma inv_toast: "shell_inv s \<Longrightarrow> shell_inv (s\<lparr>sh_toasts := toast (sh_now s) msg k (sh_toasts s)\<rparr>)"
  by (auto simp: shell_inv_def toast_def sorted_append list_all_iff toast_timeout_def)

lemma inv_ask: "shell_inv (fst (ask_health s)) = shell_inv s"
  by (simp add: shell_inv_def ask_health_def)

lemma inv_page: "shell_inv (fst (show_page pg s)) = shell_inv s"
  by (simp add: shell_inv_def show_page_def navigate_def Let_def)

lemma inv_hide: "shell_inv s \<Longrightarrow> shell_inv (s\<lparr>sh_modal := hide_modal (sh_modal s)\<rparr>)"
  by (simp add: shell_inv_def hide_modal_def)

lemma inv_save:
  assumes "shell_inv s"
  shows "shell_inv (fst (saveConfig s))"
proof -
  have "shell_inv (apply_fields s)" using inv_apply [OF assms, where v = "sh_base s"] by simp
  from inv_toast [OF this] show ?thesis by (simp add: saveConfig_def Let_def case_prod_beta inv_ask)
qed

lemma inv_pass: "shell_inv s \<Longrightarrow>
  shell_inv (s\<lparr>sh_now := sh_now s + d, sh_toasts := drop_toasts (sh_now s + d) (sh_toasts s)\<rparr>)"
  by (auto simp: shell_inv_def drop_toasts_def list_all_iff intro: sorted_filter)

lemma inv_reply: "shell_inv s \<Longrightarrow> shell_inv (answer_health out s)"
  using health_keeps_base [of out "client_of (sh_app s)"]
  by (auto simp: shell_inv_def answer_health_def split: prod.splits)

lemma inv_event: "shell_inv s \<Longrightarrow> shell_inv (fst (shell_event ev s))"
proof (cases ev)
  case (ShowModal title b w)
  then show "shell_inv s \<Longrightarrow> ?thesis" by (simp add: shell_inv_def openModal_def)
next
  case (TokenInput v)
  then show "shell_inv s \<Longrightarrow> ?thesis" by (simp add: shell_inv_def)
qed (auto simp: inv_apply inv_toast inv_ask inv_page inv_hide inv_save inv_pass inv_reply)

text \<open>C17: if the address field shows the stored address on loading (as it does after any address without a
  space before its slashes), then after any clicks, keys, typing, health answers and timers every request
  goes to the address in the field, a hidden dialog never keeps the wide layout for the next one, and
  every message on the page is younger than its 3.5 seconds, in order of age.\<close>

theorem shell_invariant:
  assumes "normal_base (fst (loadConfigUI c)) = api_base c" "shell_reach e c (s :: 'h shell)"
  shows "api_base (client_of (sh_app s)) = normal_base (sh_base s)
     \<and> (mo_hidden (sh_modal s) \<longrightarrow> \<not> mo_wide (sh_modal s))
     \<and> list_all (\<lambda>l. sh_now s < tl_due l \<and> tl_due l \<le> sh_now s + 3500) (sh_toasts s)
     \<and> sorted (map tl_due (sh_toasts s))"
proof -
  have "shell_inv s" using assms(2)
  proof induction
    case loaded
    then show ?case using assms(1)
      by (auto simp: init_shell_def Let_def inv_page ask_health_def shell_inv_def show_page_def navigate_def init_modal_def
          split: prod.splits)
  qed (rule inv_event)
  then show ?thesis by (simp add: shell_inv_def toast_timeout_def)
qed

theorem shell_invariant_witness:
  "let s = fst (shell_event (BaseInput (js ''http://h//'')) (fst (init_shell demo_env init_client) :: unit shell))
   in api_base (client_of (sh_app s)) = normal_base (js ''http://h//'') \<and> sh_base s = js ''http://h//''"
proof -
  have b: "sh_base (fst (shell_event (BaseInput v) s)) = v" for v and s :: "unit shell"
    by (simp add: apply_fields_def split: prod.splits)
  have "normal_base (fst (loadConfigUI init_client)) = api_base init_client"
    by (simp add: loadConfigUI_def api_base_def init_client_def normal_base_eq strip_slashes_def)
  from shell_invariant [OF this shell_reach.event [OF shell_reach.loaded,
      where e = demo_env and ev = "BaseInput (js ''http://h//'') :: unit shell_input"]]
  show ?thesis unfolding Let_def b by simp
qed

text \<open>The message does not depend on whether anything was copied.\<close>

lemma copy_says_copied:
  "Toast [0x5DF2, 0x590D, 0x5236, 0x5230, 0x526A, 0x8D34, 0x677F] Ok \<in> set (copyText w x t)
   \<and> (clipboard_after (copyText w x t) c = (if w \<or> x then t else c))"
  by (simp add: copyText_def)

end
