(* ===== verification/Spec2Isabelle.thy ===== *)
theory Spec2Isabelle
  imports Prelude JsRegex JsValue Uri Dom Format ApiClient Verdict Grouping Items AppState FilePool
    ReviewFlow ElementForm ElementFields DraftFlow PreviewPane Panels RulesPage TasksPage
    Markup PanelViews ReviewView RuleViews DialogViews TaskViews PageViews DraftPage EditForms LegacyViews JsonView Shell
begin

text \<open>
  A verification development for the browser application of the contract review agent,
  \<open>src/src/contract_review_app/static/js/app.js\<close>. All function names below are names of that file.

  \<^bold>\<open>The program.\<close> One script drives four pages and the bar around them. The review page collects attachments, uploads them
  with the review's context, and shows the answer in four panels (control list, reasonableness,
  counterparty credit, risk points). The draft page does the same beside an element form whose fields
  the server extracts; three dialogs (review, extraction with preview, counterparty risk) work on its
  attachments. The rule engine page shows rules and score matrices and edits them; the task centre
  lists tasks and polls the one that is open; the settings store an address and a token. All pages
  share the object \<open>api\<close>, the node builder \<open>el\<close>, the status tables, and the module-level state
  \<open>reviewState\<close>, \<open>compareState\<close>, \<open>elementsState\<close>, which a page leaves behind when another one is
  opened. Handlers interact through that state and through answers that arrive later, in any order.

  \<^bold>\<open>The language.\<close> \<open>Prelude\<close> holds strings (lists of UTF-16 code units, so that \<open>length\<close> and
  \<open>slice\<close> count as JavaScript counts), the string methods in use, and the falsy tests on nullable
  values. \<open>JsRegex\<close> is a backtracking matcher for the regular expressions of the file, proved
  equivalent to a declarative match relation. \<open>JsValue\<close> has objects used as tables, where a read may
  find a member of \<open>Object.prototype\<close>, and JSON values. \<open>Uri\<close> is \<open>encodeURIComponent\<close>. \<open>Dom\<close>
  models \<open>el\<close> (attributes, \<open>class\<close>, \<open>text\<close>, \<open>html\<close>, listeners, nested children) and \<open>escapeHtml\<close>.

  \<^bold>\<open>The shape of the model.\<close> A handler is a function from the page's state to the new state and the
  list of its effects in order (messages, requests, buttons switched, parts redrawn, object URLs made
  and released; \<open>AppState\<close>). A handler that awaits is cut at each \<open>await\<close>: the first part ends with
  the request, the continuation takes the settled outcome (\<open>ApiClient\<close>: \<open>request\<close>, \<open>upload\<close>,
  \<open>unwrap\<close>, \<open>errorFrom\<close>; a success, an error, or, for an upload whose load handler raises, nothing).
  An exception is a value of a sum type. Where order matters, the events are a step relation or a run
  of a list of events: \<open>ReviewFlow.page_step\<close> (entries and file choices, both buttons, reviewing
  again, answers in any order, dialogs, navigation), \<open>TasksPage.detail_step\<close> (dialogs, intervals,
  answers), \<open>TaskViews.task_page_event\<close> (filters, pager, answers good and bad, navigation),
  \<open>ReviewView.click_tabs\<close> (panel and verdict buttons, which stay the same nodes),
  \<open>Shell.shell_event\<close>, \<open>DraftPage.draft_event\<close>, \<open>PreviewPane.preview_event\<close>, \<open>ElementForm.edit_form\<close>.
  A draft review takes what other handlers do during its two waits as an argument, and what a form
  shows is read the way the code reads it: by the ids and keys of its nodes (\<open>Markup.by_id\<close>,
  \<open>Markup.elements_with\<close>). The network, the clock, the time zone, the random source and the server's
  answers are arguments.

  \<^bold>\<open>Components.\<close>
  \<^item> \<open>ApiClient\<close>: \<open>api\<close>, \<open>applyConfig\<close>, \<open>loadConfigUI\<close>. Addresses after any configuration, headers,
    error texts for every body, and exactly when an upload settles.
  \<^item> \<open>Format\<close>: \<open>fmtBytes\<close>, \<open>fmtTime\<close>, \<open>shortId\<close>, \<open>fileFormat\<close>, \<open>newPackageId\<close>.
  \<^item> \<open>Verdict\<close>: \<open>STATUS_META\<close> to \<open>badge\<close>, \<open>itemVerdict\<close>; the abstract type \<open>verdict\<close> and the
    back end's \<open>verdict_of\<close> (\<open>src/src/contract_review/risk_analysis.py\<close>) it agrees with.
  \<^item> \<open>Grouping\<close>: the locales \<open>classifier\<close> (columns) and \<open>ranked_sort\<close> (stable sort by rank), with
    their consequences proved once. \<open>Panels\<close> interprets the first on the modules, the verdict tabs
    and the reasonableness columns, \<open>Items\<close> the second on \<open>sortBySeverity\<close>.
  \<^item> \<open>Items\<close>: \<open>projectReviewFinding\<close>, \<open>reviewItems\<close>: findings of the rules with the model's results
    laid over them. No finding and no result is lost or doubled, a result lands only on its own rule,
    the list is sorted, verdicts stay among the three.
  \<^item> \<open>Panels\<close>: \<open>buildReviewPanels\<close>, \<open>buildControlPanel\<close>, \<open>buildControlRuleList\<close>, \<open>riskPointEntries\<close>,
    \<open>buildReasonablenessPanel\<close>, metrics and links. Each panel shows its items once; counts agree.
  \<^item> \<open>AppState\<close>, \<open>FilePool\<close>: the state, effects, and the two attachment pools. The locale
    \<open>attachment_pool\<close> is what a user relies on; the draft pool is its interpretation, the review pool
    provably violates it. The locale \<open>busy_button\<close> is the contract of a button that waits.
  \<^item> \<open>ReviewFlow\<close>: submissions, comparison, interpretations of \<open>busy_button\<close>, the page as a state
    machine. Its entries (\<open>review_input\<close>), both submissions, the button that reviews again, the dialogs
    that show a result, and leaving and coming back are its events; a history of the good answers with the
    files that were sent is never shortened. Shown: one request per rendering for each button, and the
    run in which reviewing again breaks it; a result is the answer for the files on the page unless they
    changed while waiting, and the run in which they did; what a request carries; when a button is released.
  \<^item> \<open>ElementForm\<close>, \<open>DraftFlow\<close>, \<open>ElementFields\<close>, \<open>PreviewPane\<close>: the draft page: suggestions, the
    boxes and their shadow copy (a refinement: the copy always determines the boxes), draft reviews
    on every outcome of their requests and of the drawing of the form, the field editor, previews and the release of object URLs.
  \<^item> \<open>RulesPage\<close>: topics, pagers, the score matrix and its row spans, the rule form, row buttons.
  \<^item> \<open>TasksPage\<close>: list and pager, polling as a state machine, a task's result, navigation, health.
  \<^item> \<open>Markup\<close>: \<open>pageHead\<close>, \<open>stat\<close>, class lists, and three readings of a node: the raw markup it contains
    (\<open>safe_node\<close>), the rows and spans of a table (\<open>table_ok\<close>), the values its controls show
    (\<open>shown_controls\<close>); the lookups by id and by attribute; rows of tab buttons whose class is switched.
  \<^item> \<open>PanelViews\<close>, \<open>ReviewView\<close>: the nodes of the four panels with icons and charts, \<open>renderReviewViews\<close>. No
    server text becomes markup, nothing raises once the checklist is built, and buttons and contents agree
    after any clicks.
  \<^item> \<open>RuleViews\<close>, \<open>TaskViews\<close>: the pages' tables, pagers and packs, \<open>loadAiRules\<close>, the task list with its
    answers, good or bad, in any order, the detail dialog's contents.
  \<^item> \<open>PageViews\<close>, \<open>DialogViews\<close>: the review and draft pages with their controls and attachments, the
    comparison and its report, the counterparty risk view, the catalogue table. What a fresh page shows
    is compared with the state it was drawn from, and the element form with what reading it finds.
  \<^item> \<open>DraftPage\<close>: the extraction dialog with the catalogue, the field editor that replaces it and the
    reloads after saving, switching and deleting; \<open>rerunActiveReview\<close>.
  \<^item> \<open>EditForms\<close>: the nodes of the two edit dialogs, and reading them back by the ids of their controls.
  \<^item> \<open>LegacyViews\<close>: four builders that no reachable call uses (\<open>buildFinding\<close>,
    \<open>buildFilteredRiskCard\<close>, \<open>buildAiRiskItem\<close>, \<open>groupByCategory\<close>).
  \<^item> \<open>JsonView\<close>: \<open>jsonView\<close>, global replacement over the matcher of \<open>JsRegex\<close>; its markup is the escaped
    text with fixed tags inserted and reads back as the text.
  \<^item> \<open>Shell\<close>: messages with their timers, the clipboard, the modal window, the settings bar and the
    listeners of \<open>init\<close> as a state machine over all events.

  \<^bold>\<open>Invariants, refinements and termination.\<close> Invariants of the step relations are proved by rule
  induction over the reachable states (\<open>page_reach\<close>, \<open>detail_reach\<close>, \<open>shell_reach\<close>), with no bound on
  the number of events. No definition uses fuel: loops are structural, the regular-expression star
  terminates because an iteration must consume input, as the language prescribes, and global
  replacement because each match moves the search forward. Where a property could fail, the theorem
  states the exact condition, and where the code fails it, a theorem exhibits the run
  (\<open>one_request_per_rendering\<close>, \<open>late_answer_shows_other_files\<close>, \<open>late_answer_starves_dialog\<close>, \<open>editing_resets_level\<close>,
  \<open>saved_field_not_reloaded\<close> and others).

  \<^bold>\<open>Not modelled.\<close> Drag-and-drop highlighting; upload progress (no caller asks for it); the Python back end except \<open>verdict_of\<close>, which is another
  language; and the vendored Swagger UI. The decimal texts of binary floating-point numbers (chart
  lengths, confidences) are parameters.
\<close>

section \<open>Properties of all views\<close>

lemma no_raw: "(\<And>n. n \<in> set ns \<Longrightarrow> safe_node {} n) \<Longrightarrow> concat (map raw_of ns) = []"
  by (simp add: safe_node_def)

lemma no_raw_node: "safe_node {} n \<Longrightarrow> raw_of n = []"
  by (simp add: safe_node_def)

text \<open>C13: every table the page draws is well formed, whatever rows it is given: each row of the head and
  of the body, together with the cells that reach down into it from above, fills exactly the columns of
  the table: five, or six with a condition column, for the rules, seven for the score matrix with its
  grouped cells, three for the risk checks, six for the catalogue and seven for the tasks.\<close>

theorem tables_rectangular:
  "table_ok (if truthy col then 6 else 5) (buildApprovalRuleTable rules start col)
   \<and> table_ok 7 (matrix_table (matrix_rows no (regroupScoreRows rows)))
   \<and> table_ok 3 (check_table checks)
   \<and> table_ok 6 (schema_table editable fs)
   \<and> table_ok 7 (task_table names parse ts)"
  by (simp add: rule_table_ok matrix_table_ok check_table_ok schema_table_ok task_table_ok)

text \<open>C14: what the pages draw outside the review panels, the preview and the viewer of raw answers. The
  review page and its attachment list, the draft page with its attachments and element form, the start of a
  draft review, the extraction dialog and the field catalogue in it, the rules page and its loaded packs,
  the task page with table, pager and task details, the comparison and counterparty risk dialogs, the two
  edit forms and the messages put every text into the document as a text node or an attribute. Two places
  insert markup: the comparison's answer, the two documents' HTML as the server sent it and nothing else;
  and the task table while it waits, a fixed text without a tag (the code assigns a list of nodes to
  \<open>innerHTML\<close>).\<close>

theorem views_insert_no_markup:
  "concat (map raw_of (renderReviewPage st @ renderReviewFiles fs @ renderDraftPage els @ renderElementsFiles efs
      @ [renderFillReviewStart els st, extract_dialog els, schema_block cat])) = []
   \<and> (case renderElementForm fixed2 els of Inl _ \<Rightarrow> True | Inr n \<Rightarrow> raw_of n = [])
   \<and> concat (map raw_of (renderRulesPage @ fst (finishLoadRules engine answer rst))) = []
   \<and> concat (map raw_of (renderTasksPage @ fst (finishLoadTasks names parse tst tasks) @ snd (finishLoadTasks names parse tst tasks)
      @ detail_view names parse d)) = []
   \<and> raw_of (compare_dialog a) = [] \<and> concat (map raw_of (renderCreditRiskView names v)) = []
   \<and> raw_of (rule_form_node topics lbl rule) = [] \<and> raw_of (field_form_node f) = []
   \<and> raw_of (toast_node line :: unit node) = []
   \<and> concat (map raw_of (renderCompareResult names r))
       = filter (\<lambda>h. h \<noteq> []) [str_or (cr_base_html r) [], str_or (cr_compare_html r) []]
   \<and> (\<exists>t. concat (map raw_of task_placeholder) = [t] \<and> set t \<inter> {38, 60, 62} = {})"
proof -
  have "case renderElementForm fixed2 els of Inl _ \<Rightarrow> True | Inr n \<Rightarrow> raw_of n = []"
    using safe_element_form [of fixed2 els] by (auto simp: no_raw_node split: sum.split)
  moreover have "concat (map raw_of (renderReviewPage st @ renderReviewFiles fs @ renderDraftPage els @ renderElementsFiles efs
      @ [renderFillReviewStart els st, extract_dialog els, schema_block cat])) = []"
    by (rule no_raw) (auto intro: safe_review_page safe_files safe_draft_page safe_dialogs)
  moreover have "concat (map raw_of (renderRulesPage @ fst (finishLoadRules engine answer rst))) = []"
    by (rule no_raw) (auto intro: safe_rules_page safe_rules)
  moreover have "concat (map raw_of (renderTasksPage @ fst (finishLoadTasks names parse tst tasks)
      @ snd (finishLoadTasks names parse tst tasks) @ detail_view names parse d)) = []"
    by (rule no_raw) (auto intro: safe_tasks_page safe_task_views)
  moreover have "concat (map raw_of (renderCreditRiskView names v)) = []" by (rule no_raw) (rule safe_credit_view)
  moreover have "safe_node {} (toast_node line :: unit node)" by (simp add: toast_node_def js_inj)
  moreover have "\<exists>t. concat (map raw_of task_placeholder) = [t] \<and> set t \<inter> {38, 60, 62} = {}"
    by (simp add: task_placeholder_def js_eval numeral_eq_Suc)
  ultimately show ?thesis by (simp add: raw_compare_result no_raw_node safe_edit_forms safe_compare_dialog)
qed

end
